(* ===== verification/Prelude.thy ===== *)
theory Prelude
  imports Main "HOL-Library.Word" "HOL-Library.Multiset"
begin

text \<open>
  Shared vocabulary of the development: Go's machine integers and byte slices, the
  outcome of a piece of Go code that may panic, the \<open>select\<close> statement as the list of
  its ready branches, and the generic lemmas on lists, maps and words that the
  component theories use. The collection \<open>go_simps\<close> holds the equations that every
  component proof wants.
\<close>

named_theorems go_simps "rewrite rules shared by the component proofs"

section \<open>Go values\<close>

type_synonym byte = "8 word"
type_synonym bytes = "byte list"
type_synonym int64 = "64 word"
type_synonym uint64 = "64 word"

text \<open>A Go \<open>int\<close> that is kept as an \<open>int\<close>: its 64-bit arithmetic wraps.\<close>

definition wrap64 :: "int \<Rightarrow> int" where
  "wrap64 i = (i + 2 ^ 63) mod 2 ^ 64 - 2 ^ 63"

lemma wrap64_id [simp]: "- (2 ^ 63) \<le> i \<Longrightarrow> i < 2 ^ 63 \<Longrightarrow> wrap64 i = i"
  by (simp add: wrap64_def)

text \<open>
  The result of running Go code: it returns, or it panics. The panics the modelled code
  can meet are the two of channel misuse, the nil dereference, and a negative length of a
  copy from C memory or of a new slice.
\<close>

datatype go_panic = SendOnClosed | CloseOfClosed | NilDeref | LengthOutOfRange

datatype 'a outcome = Ret 'a | Panic go_panic

fun bind_outcome :: "'a outcome \<Rightarrow> ('a \<Rightarrow> 'b outcome) \<Rightarrow> 'b outcome" where
  "bind_outcome (Ret x) f = f x"
| "bind_outcome (Panic p) f = Panic p"

fun returns :: "'a outcome \<Rightarrow> bool" where
  "returns (Ret x) = True"
| "returns (Panic p) = False"

lemma returns_iff [go_simps]: "returns r \<longleftrightarrow> (\<exists>x. r = Ret x)"
  by (cases r) auto

lemma bind_outcome_Ret [go_simps]:
  "bind_outcome m f = Ret y \<longleftrightarrow> (\<exists>x. m = Ret x \<and> f x = Ret y)"
  by (cases m) auto

lemma bind_outcome_Panic [go_simps]:
  "bind_outcome m f = Panic p \<longleftrightarrow> m = Panic p \<or> (\<exists>x. m = Ret x \<and> f x = Panic p)"
  by (cases m) auto

section \<open>The select statement\<close>

text \<open>
  A \<open>select\<close> is modelled by the list of its branches, each with its readiness. Go picks
  one of the ready branches in an unspecified way, so the value of the model is the list
  of all results it may have; the empty list means that the statement blocks. With a
  \<open>default\<close> branch the statement never blocks.
\<close>

definition select_ready :: "(bool \<times> 'a) list \<Rightarrow> 'a list" where
  "select_ready bs = map snd (filter fst bs)"

definition select_default :: "(bool \<times> 'a) list \<Rightarrow> 'a \<Rightarrow> 'a list" where
  "select_default bs d = (if select_ready bs = [] then [d] else select_ready bs)"

lemma select_ready_Nil [simp]: "select_ready [] = []"
  by (simp add: select_ready_def)

lemma select_ready_Cons [simp]:
  "select_ready ((b, x) # bs) = (if b then x # select_ready bs else select_ready bs)"
  by (simp add: select_ready_def)

lemma set_select_ready: "x \<in> set (select_ready bs) \<longleftrightarrow> (True, x) \<in> set bs"
  by (force simp: select_ready_def)

lemma select_default_nonempty [simp]: "select_default bs d \<noteq> []"
  by (simp add: select_default_def)

section \<open>Words\<close>

lemma unat_plus_one_less:
  fixes w :: "64 word"
  assumes "unat w < 2 ^ 64 - 1"
  shows "unat (w + 1) = Suc (unat w)"
  using assms by (simp add: unat_word_ariths)

lemma plus_one_neq_self [simp]: "(w :: 64 word) + 1 \<noteq> w"
  by (metis add.right_neutral add_left_cancel zero_neq_one)

lemma sint_small:
  fixes w :: "64 word"
  assumes "unat w < 2 ^ 63"
  shows "sint w = int (unat w)"
proof -
  have "int (unat w) < int (2 ^ 63)" using assms by (simp only: of_nat_less_iff)
  then have lt: "uint w < 2 ^ 63" by simp
  have "- (2 ^ 63) \<le> (0 :: int)" by simp
  also have "(0 :: int) \<le> uint w" by simp
  finally have "- (2 ^ 63) \<le> uint w" .
  from signed_take_bit_int_eq_self [OF this lt] show ?thesis by (simp add: sint_uint)
qed

section \<open>Lists and maps\<close>

lemma dom_fun_upd_Some [go_simps]: "dom (m(k \<mapsto> v)) = insert k (dom m)"
  by simp

lemma in_dom_iff: "k \<in> dom m \<longleftrightarrow> (\<exists>v. m k = Some v)"
  by auto

section \<open>Strings, bytes and decimal numbers\<close>

text \<open>
  A Go string is a sequence of bytes; here it is a \<open>string\<close>, whose characters are bytes,
  and \<open>[]byte(s)\<close> and \<open>string(b)\<close> are the two conversions.
\<close>

definition str_bytes :: "string \<Rightarrow> bytes" where
  "str_bytes s = map (\<lambda>c. of_nat (of_char c)) s"

definition bytes_str :: "bytes \<Rightarrow> string" where
  "bytes_str bs = map (\<lambda>b. char_of (unat b)) bs"

lemma bytes_str_bytes [simp]: "bytes_str (str_bytes s) = s"
proof -
  have "char_of (unat (of_nat (of_char c) :: byte)) = c" for c :: char
  proof -
    have "(of_char c :: nat) < 256" by simp
    then have "unat (of_nat (of_char c) :: byte) = of_char c"
      by (simp add: unat_of_nat)
    then show ?thesis by simp
  qed
  then show ?thesis by (induction s) (simp_all add: str_bytes_def bytes_str_def)
qed

lemma str_bytes_str [simp]: "str_bytes (bytes_str bs) = bs"
proof -
  have "of_nat (of_char (char_of (unat b))) = b" for b :: byte
  proof -
    have "unat b < 256" using unsigned_less [of b, where ?'a = nat] by simp
    then have "of_char (char_of (unat b)) = unat b" by (simp add: of_char_of)
    then show ?thesis by simp
  qed
  then show ?thesis by (induction bs) (simp_all add: str_bytes_def bytes_str_def)
qed

lemma str_bytes_append [simp]: "str_bytes (s @ t) = str_bytes s @ str_bytes t"
  by (simp add: str_bytes_def)

lemma bytes_str_append [simp]: "bytes_str (a @ b) = bytes_str a @ bytes_str b"
  by (simp add: bytes_str_def)

lemma length_str_bytes [simp]: "length (str_bytes s) = length s"
  by (simp add: str_bytes_def)

lemma str_bytes_inject [simp]: "str_bytes s = str_bytes t \<longleftrightarrow> s = t"
  by (metis bytes_str_bytes)

text \<open>The verb \<open>%d\<close>.\<close>

definition digit_char :: "nat \<Rightarrow> char" where
  "digit_char d = char_of (48 + d)"

fun show_nat :: "nat \<Rightarrow> string" where
  "show_nat n = (if n < 10 then [digit_char n] else show_nat (n div 10) @ [digit_char (n mod 10)])"

declare show_nat.simps [simp del]

definition show_int :: "int \<Rightarrow> string" where
  "show_int i = (if i < 0 then CHR ''-'' # show_nat (nat (- i)) else show_nat (nat i))"

definition is_digit :: "char \<Rightarrow> bool" where
  "is_digit c \<longleftrightarrow> 48 \<le> (of_char c :: nat) \<and> (of_char c :: nat) \<le> 57"

definition digit_val :: "char \<Rightarrow> nat" where
  "digit_val c = of_char c - 48"

definition digits_val :: "string \<Rightarrow> nat" where
  "digits_val s = foldl (\<lambda>n c. 10 * n + digit_val c) 0 s"

lemma digit_char_props:
  assumes "d < 10"
  shows "is_digit (digit_char d)" "digit_val (digit_char d) = d"
  using assms by (simp_all add: is_digit_def digit_char_def digit_val_def of_char_of)

lemma show_nat_digits: "\<forall>c \<in> set (show_nat n). is_digit c"
proof (induction n rule: show_nat.induct)
  case (1 n)
  then show ?case
    by (cases "n < 10") (auto simp: show_nat.simps [of n] digit_char_props)
qed

lemma digits_val_show_nat: "digits_val (show_nat n) = n"
proof (induction n rule: show_nat.induct)
  case (1 n)
  then show ?case
    by (cases "n < 10") (auto simp: show_nat.simps [of n] digit_char_props digits_val_def)
qed

lemma show_nat_nonempty [simp]: "show_nat n \<noteq> []"
  by (subst show_nat.simps) simp

lemma show_nat_inject [simp]: "show_nat m = show_nat n \<longleftrightarrow> m = n"
  by (metis digits_val_show_nat)

lemma hd_show_nat: "is_digit (hd (show_nat n))"
  using show_nat_digits [of n] by (cases "show_nat n") auto

lemma minus_not_digit [simp]: "\<not> is_digit (CHR ''-'')"
  by (simp add: is_digit_def)

lemma show_int_inject [simp]: "show_int i = show_int j \<longleftrightarrow> i = j"
proof -
  have neg: "show_nat m \<noteq> CHR ''-'' # t" for m t
    using hd_show_nat [of m] by auto
  then have "CHR ''-'' # t \<noteq> show_nat m" for m t
    by metis
  with neg show ?thesis by (auto simp: show_int_def)
qed

end
