(* ===== verification/Channels.thy ===== *)
theory Channels
  imports Prelude
begin

text \<open>
  Go's channels as the program uses them. A buffered channel is its queue of values, its
  capacity and whether it has been closed; a \<open>chan struct{}\<close> that is only ever closed (a
  signal) is a flag. The locale \<open>fifo_channel\<close> is the contract the stream components
  rely on; it is interpreted on the channel model at the end of the theory.
\<close>

section \<open>Buffered channels\<close>

record 'a chan =
  ch_buf :: "'a list"
  ch_cap :: nat
  ch_closed :: bool

definition make_chan :: "nat \<Rightarrow> 'a chan" where
  "make_chan n = \<lparr>ch_buf = [], ch_cap = n, ch_closed = False\<rparr>"

text \<open>
  A send is ready on a closed channel (it panics) and on a channel with room. A receive
  is ready when a value is queued or the channel is closed.
\<close>

definition send_ready :: "'a chan \<Rightarrow> bool" where
  "send_ready c \<longleftrightarrow> ch_closed c \<or> length (ch_buf c) < ch_cap c"

definition chan_send :: "'a \<Rightarrow> 'a chan \<Rightarrow> 'a chan outcome" where
  "chan_send x c =
     (if ch_closed c then Panic SendOnClosed else Ret (c\<lparr>ch_buf := ch_buf c @ [x]\<rparr>))"

definition recv_ready :: "'a chan \<Rightarrow> bool" where
  "recv_ready c \<longleftrightarrow> ch_buf c \<noteq> [] \<or> ch_closed c"

text \<open>\<open>v, ok := <-c\<close>: \<open>Some v\<close> when \<open>ok\<close>, \<open>None\<close> when closed and drained.\<close>

fun chan_recv :: "'a chan \<Rightarrow> 'a option \<times> 'a chan" where
  "chan_recv c = (case ch_buf c of [] \<Rightarrow> (None, c) | x # xs \<Rightarrow> (Some x, c\<lparr>ch_buf := xs\<rparr>))"

definition chan_close :: "'a chan \<Rightarrow> 'a chan outcome" where
  "chan_close c = (if ch_closed c then Panic CloseOfClosed else Ret (c\<lparr>ch_closed := True\<rparr>))"

text \<open>Closing a signal channel: the flag says whether it is closed.\<close>

definition signal_close :: "bool \<Rightarrow> bool outcome" where
  "signal_close b = (if b then Panic CloseOfClosed else Ret True)"

lemma make_chan_simps [simp]:
  "ch_buf (make_chan n) = []" "ch_cap (make_chan n) = n" "ch_closed (make_chan n) = False"
  by (simp_all add: make_chan_def)

definition chan_wf :: "'a chan \<Rightarrow> bool" where
  "chan_wf c \<longleftrightarrow> length (ch_buf c) \<le> ch_cap c"

lemma chan_wf_make [simp]: "chan_wf (make_chan n)"
  by (simp add: chan_wf_def)

lemma chan_wf_send:
  "chan_wf c \<Longrightarrow> send_ready c \<Longrightarrow> chan_send x c = Ret c' \<Longrightarrow> chan_wf c'"
  by (auto simp: chan_wf_def send_ready_def chan_send_def split: if_splits)

lemma chan_wf_recv: "chan_wf c \<Longrightarrow> chan_wf (snd (chan_recv c))"
  by (auto simp: chan_wf_def split: list.splits)

lemma chan_wf_close: "chan_wf c \<Longrightarrow> chan_close c = Ret c' \<Longrightarrow> chan_wf c'"
  by (auto simp: chan_wf_def chan_close_def split: if_splits)

section \<open>The channel contract\<close>

text \<open>Sending a list of values in order, and receiving \<open>n\<close> values in order.\<close>

fun send_all :: "('a \<Rightarrow> 'q \<Rightarrow> 'q outcome) \<Rightarrow> 'a list \<Rightarrow> 'q \<Rightarrow> 'q outcome" where
  "send_all snd_op [] q = Ret q"
| "send_all snd_op (x # xs) q = bind_outcome (snd_op x q) (send_all snd_op xs)"

fun recv_n :: "('q \<Rightarrow> 'a option \<times> 'q) \<Rightarrow> nat \<Rightarrow> 'q \<Rightarrow> 'a option list \<times> 'q" where
  "recv_n rcv 0 q = ([], q)"
| "recv_n rcv (Suc n) q =
     (let (v, q') = rcv q; (vs, q'') = recv_n rcv n q' in (v # vs, q''))"

locale fifo_channel =
  fixes snd_op :: "'a \<Rightarrow> 'q \<Rightarrow> 'q outcome"
    and rcv_op :: "'q \<Rightarrow> 'a option \<times> 'q"
    and cls_op :: "'q \<Rightarrow> 'q outcome"
    and queued :: "'q \<Rightarrow> 'a list"
    and is_closed :: "'q \<Rightarrow> bool"
  assumes send_open: "\<not> is_closed q \<Longrightarrow> \<exists>q'. snd_op x q = Ret q' \<and> queued q' = queued q @ [x] \<and> \<not> is_closed q'"
    and send_closed: "is_closed q \<Longrightarrow> snd_op x q = Panic SendOnClosed"
    and recv_some: "queued q = x # xs \<Longrightarrow>
          \<exists>q'. rcv_op q = (Some x, q') \<and> queued q' = xs \<and> is_closed q' = is_closed q"
    and recv_none: "queued q = [] \<Longrightarrow> rcv_op q = (None, q)"
    and close_open: "\<not> is_closed q \<Longrightarrow> \<exists>q'. cls_op q = Ret q' \<and> queued q' = queued q \<and> is_closed q'"
    and close_closed: "is_closed q \<Longrightarrow> cls_op q = Panic CloseOfClosed"
begin

lemma send_all_open:
  "\<not> is_closed q \<Longrightarrow>
     \<exists>q'. send_all snd_op xs q = Ret q' \<and> queued q' = queued q @ xs \<and> \<not> is_closed q'"
proof (induction xs arbitrary: q)
  case Nil
  then show ?case by simp
next
  case (Cons x xs)
  obtain q1 where "snd_op x q = Ret q1" "queued q1 = queued q @ [x]" "\<not> is_closed q1"
    using send_open [OF Cons.prems] by blast
  with Cons.IH [of q1] show ?case by auto
qed

lemma recv_n_queued:
  "n \<le> length (queued q) \<Longrightarrow>
     \<exists>q'. recv_n rcv_op n q = (map Some (take n (queued q)), q') \<and>
          queued q' = drop n (queued q) \<and> is_closed q' = is_closed q"
proof (induction n arbitrary: q)
  case 0
  then show ?case by simp
next
  case (Suc n)
  then obtain x xs where q: "queued q = x # xs" by (cases "queued q") auto
  obtain q1 where q1: "rcv_op q = (Some x, q1)" "queued q1 = xs" "is_closed q1 = is_closed q"
    using recv_some [OF q] by blast
  have "n \<le> length (queued q1)" using Suc.prems q q1 by simp
  from Suc.IH [OF this] show ?case using q q1 by auto
qed

text \<open>
  What is sent on an open, empty channel and then received is the same list in the same
  order; closing in between loses nothing, and the next receive reports the end.
\<close>

lemma fifo_delivery:
  assumes "\<not> is_closed q" and "queued q = []"
  shows "\<exists>q1 q2 q3. send_all snd_op xs q = Ret q1 \<and> cls_op q1 = Ret q2 \<and>
           recv_n rcv_op (Suc (length xs)) q2 = (map Some xs @ [None], q3) \<and> is_closed q3"
proof -
  obtain q1 where q1: "send_all snd_op xs q = Ret q1" "queued q1 = xs" "\<not> is_closed q1"
    using send_all_open [OF assms(1), of xs] assms(2) by auto
  obtain q2 where q2: "cls_op q1 = Ret q2" "queued q2 = xs" "is_closed q2"
    using close_open [OF q1(3)] q1(2) by auto
  have step: "recv_n rcv_op (Suc n) r = (vs @ [None], r')"
    if "recv_n rcv_op n r = (vs, r')" "queued r' = []" for n r vs r'
    using that recv_none
  proof (induction n arbitrary: r vs)
    case 0
    then show ?case by auto
  next
    case (Suc n)
    then obtain v r1 ws where r1: "rcv_op r = (v, r1)" "recv_n rcv_op n r1 = (ws, r')" "vs = v # ws"
      by (auto simp: Let_def split: prod.splits)
    from Suc.IH [OF r1(2) Suc.prems(2,3)] r1 show ?case
      by (simp add: Let_def split: prod.splits)
  qed
  obtain q3 where "recv_n rcv_op (length xs) q2 = (map Some xs, q3)" "queued q3 = []" "is_closed q3"
    using recv_n_queued [of "length xs" q2] q2 by auto
  with step q1 q2 show ?thesis by blast
qed

end

interpretation gochan: fifo_channel chan_send chan_recv chan_close ch_buf ch_closed
  by unfold_locales (auto simp: chan_send_def chan_close_def)

lemmas chan_defs = chan_send_def chan_close_def send_ready_def recv_ready_def signal_close_def

end
