(* ===== verification/Handles.thy ===== *)
theory Handles
  imports Prelude
begin

text \<open>
  The contract of the program's handle tables: a counter hands out a new handle, the
  object is registered under it, and a close removes it. The stream sessions of
  \<open>pkg/service/stream_handler.go\<close>, the pending requests of \<open>pkg/service/ffi_utils.go\<close>
  and the plugin streams of \<open>pkg/plugin/server.go\<close> are three tables of this kind, and
  each of their theories interprets the locale on its own operations. \<open>room\<close> counts the
  handles left before the 64-bit counter wraps.
\<close>

fun alloc_all :: "('o \<Rightarrow> 's \<Rightarrow> 'h \<times> 's) \<Rightarrow> 'o list \<Rightarrow> 's \<Rightarrow> 'h list \<times> 's" where
  "alloc_all al [] s = ([], s)"
| "alloc_all al (x # xs) s =
     (let (h, s1) = al x s; (hs, s2) = alloc_all al xs s1 in (h # hs, s2))"

locale handle_table =
  fixes alloc :: "'o \<Rightarrow> 's \<Rightarrow> 'h \<times> 's"
    and lookup :: "'s \<Rightarrow> 'h \<Rightarrow> 'r option"
    and remove :: "'h \<Rightarrow> 's \<Rightarrow> 's"
    and inv :: "'s \<Rightarrow> bool"
    and room :: "'s \<Rightarrow> nat"
  assumes alloc_fresh: "inv s \<Longrightarrow> 0 < room s \<Longrightarrow> lookup s (fst (alloc x s)) = None"
    and alloc_live: "inv s \<Longrightarrow> 0 < room s \<Longrightarrow> lookup (snd (alloc x s)) (fst (alloc x s)) \<noteq> None"
    and alloc_other: "h \<noteq> fst (alloc x s) \<Longrightarrow> lookup (snd (alloc x s)) h = lookup s h"
    and alloc_inv: "inv s \<Longrightarrow> 0 < room s \<Longrightarrow> inv (snd (alloc x s))"
    and alloc_room: "inv s \<Longrightarrow> 0 < room s \<Longrightarrow> room (snd (alloc x s)) = room s - 1"
    and remove_gone: "inv s \<Longrightarrow> lookup (remove h s) h = None"
    and remove_other: "inv s \<Longrightarrow> h' \<noteq> h \<Longrightarrow> lookup (remove h s) h' = lookup s h'"
    and remove_inv: "inv s \<Longrightarrow> inv (remove h s)"
    and remove_room: "inv s \<Longrightarrow> room (remove h s) = room s"
begin

lemma alloc_keeps: "inv s \<Longrightarrow> 0 < room s \<Longrightarrow> lookup s h \<noteq> None \<Longrightarrow> lookup (snd (alloc x s)) h = lookup s h"
  using alloc_fresh alloc_other by metis

lemma alloc_all_inv:
  "inv s \<Longrightarrow> length xs \<le> room s \<Longrightarrow>
     inv (snd (alloc_all alloc xs s)) \<and> room (snd (alloc_all alloc xs s)) = room s - length xs"
proof (induction xs arbitrary: s)
  case Nil
  then show ?case by simp
next
  case (Cons x xs)
  then have pos: "0 < room s" by simp
  have "inv (snd (alloc x s))" "length xs \<le> room (snd (alloc x s))"
    using Cons.prems alloc_inv alloc_room pos by auto
  from Cons.IH [OF this] show ?case
    using alloc_room [OF Cons.prems(1) pos] by (simp add: Let_def split_beta)
qed

lemma alloc_all_keeps:
  "inv s \<Longrightarrow> length xs \<le> room s \<Longrightarrow> lookup s h \<noteq> None \<Longrightarrow>
     lookup (snd (alloc_all alloc xs s)) h = lookup s h"
proof (induction xs arbitrary: s)
  case Nil
  then show ?case by simp
next
  case (Cons x xs)
  then have pos: "0 < room s" by simp
  note k = alloc_keeps [OF Cons.prems(1) pos Cons.prems(3), of x]
  have "inv (snd (alloc x s))" "length xs \<le> room (snd (alloc x s))"
    using Cons.prems alloc_inv alloc_room pos by auto
  from Cons.IH [OF this] show ?case using k Cons.prems(3) by (simp add: Let_def split_beta)
qed

text \<open>
  Handles allocated one after another are pairwise different, were not live before and
  are all live afterwards.
\<close>

lemma alloc_all_distinct:
  "inv s \<Longrightarrow> length xs \<le> room s \<Longrightarrow>
     distinct (fst (alloc_all alloc xs s)) \<and>
     (\<forall>h \<in> set (fst (alloc_all alloc xs s)).
        lookup s h = None \<and> lookup (snd (alloc_all alloc xs s)) h \<noteq> None)"
proof (induction xs arbitrary: s)
  case Nil
  then show ?case by simp
next
  case (Cons x xs)
  then have pos: "0 < room s" by simp
  let ?h = "fst (alloc x s)" and ?s1 = "snd (alloc x s)"
  have s1: "inv ?s1" "length xs \<le> room ?s1"
    using Cons.prems alloc_inv alloc_room pos by auto
  note IH = Cons.IH [OF this]
  have live: "lookup ?s1 ?h \<noteq> None" by (rule alloc_live [OF Cons.prems(1) pos])
  have fresh: "lookup s ?h = None" by (rule alloc_fresh [OF Cons.prems(1) pos])
  have notin: "?h \<notin> set (fst (alloc_all alloc xs ?s1))" using IH live by auto
  have old: "lookup s h = None" if "h \<in> set (fst (alloc_all alloc xs ?s1))" for h
    using IH that alloc_keeps [OF Cons.prems(1) pos] by (metis (no_types, lifting))
  have "lookup (snd (alloc_all alloc xs ?s1)) ?h \<noteq> None"
    using alloc_all_keeps [OF s1 live] live by simp
  with IH notin old fresh show ?case by (simp add: Let_def split_beta)
qed

end

end
