(* ===== verification/StreamSession.thy ===== *)
theory StreamSession
  imports Channels Handles "HOL-Library.AList"
begin

text \<open>
  \<open>pkg/service/stream_handler.go\<close>: the stream sessions that carry streaming calls
  across the FFI boundary. A session object lives in a heap (\<open>w_heap\<close>, indexed by its
  address) because handlers keep a pointer to it after it has left the registry
  \<open>streamSessions\<close> (\<open>w_registry\<close>). What the code sends to Dart is the list \<open>w_out\<close> of
  callback invocations in the order they are made. Operations that hold the mutex for
  their whole body are one function; those that release it before calling back or
  before touching a channel are split at that point (\<open>_lock\<close>, \<open>_calls\<close>, \<open>_done\<close> and
  \<open>_check\<close>, \<open>_select\<close>) and composed as the code composes them.
\<close>

section \<open>Data\<close>

definition StreamMsgStart :: byte where "StreamMsgStart = 1"
definition StreamMsgData :: byte where "StreamMsgData = 2"
definition StreamMsgEnd :: byte where "StreamMsgEnd = 3"
definition StreamMsgError :: byte where "StreamMsgError = 4"
definition StreamMsgTrailer :: byte where "StreamMsgTrailer = 5"
definition StreamMsgHeader :: byte where "StreamMsgHeader = 6"

lemmas StreamMsg_defs = StreamMsgStart_def StreamMsgData_def StreamMsgEnd_def
  StreamMsgError_def StreamMsgTrailer_def StreamMsgHeader_def

datatype stream_type =
  StreamTypeServerStream | StreamTypeClientStream | StreamTypeBidiStream | StreamTypeOther int

fun StreamType_String :: "stream_type \<Rightarrow> string" where
  "StreamType_String StreamTypeServerStream = ''ServerStream''"
| "StreamType_String StreamTypeClientStream = ''ClientStream''"
| "StreamType_String StreamTypeBidiStream = ''BidiStream''"
| "StreamType_String (StreamTypeOther n) = ''Unknown('' @ show_int n @ '')''"

text \<open>
  A callback is a function value of the host; the model keeps its identity (a number)
  and records each call. \<open>CData\<close> is what the pointer given to the zero-copy callback
  points at: nothing, the marshalled bytes, or memory that was not filled.
\<close>

datatype cdata = CNull | CData bytes | CUnfilled

datatype stream_event =
  Call nat int64 byte bytes
| CallFfi nat int64 byte cdata nat

datatype stream_error =
  SessionNotFound int64 | InputIsClosed int64 | StreamIsClosed int64
| MallocFailed | MarshalFailed

record session =
  ss_id :: int64
  ss_method :: string
  ss_type :: stream_type
  ss_data :: "bytes chan"
  ss_done :: bool
  ss_ready :: bool
  ss_err :: "stream_error chan"
  ss_callback :: "nat option"
  ss_callback_ffi :: "nat option"
  ss_metadata :: "(string \<times> string) list"
  ss_headers :: "(string \<times> string) list"
  ss_headers_sent :: bool
  ss_trailers :: "(string \<times> string) list"
  ss_closed :: bool
  ss_input_closed :: bool

record world =
  w_heap :: "session list"
  w_registry :: "int64 \<rightharpoonup> nat"
  w_next :: int64
  w_callback :: "nat option"
  w_callback_ffi :: "nat option"
  w_timeout :: int
  w_out :: "stream_event list"

definition init_world :: world where
  "init_world = \<lparr>w_heap = [], w_registry = Map.empty, w_next = 0, w_callback = None,
     w_callback_ffi = None, w_timeout = 0, w_out = []\<rparr>"

definition SetStreamCallback :: "nat option \<Rightarrow> world \<Rightarrow> world" where
  "SetStreamCallback cb w = w\<lparr>w_callback := cb\<rparr>"

definition SetStreamCallbackFfi :: "nat option \<Rightarrow> world \<Rightarrow> world" where
  "SetStreamCallbackFfi cb w = w\<lparr>w_callback_ffi := cb\<rparr>"

definition SetDefaultStreamTimeout :: "int \<Rightarrow> world \<Rightarrow> world" where
  "SetDefaultStreamTimeout d w = w\<lparr>w_timeout := d\<rparr>"

section \<open>The registry\<close>

definition new_session :: "int64 \<Rightarrow> string \<Rightarrow> stream_type \<Rightarrow> world \<Rightarrow> session" where
  "new_session i m ty w =
     \<lparr>ss_id = i, ss_method = m, ss_type = ty, ss_data = make_chan 100, ss_done = False,
      ss_ready = False, ss_err = make_chan 1, ss_callback = w_callback w,
      ss_callback_ffi = w_callback_ffi w, ss_metadata = [], ss_headers = [],
      ss_headers_sent = False, ss_trailers = [], ss_closed = False, ss_input_closed = False\<rparr>"

text \<open>\<open>atomic.AddInt64\<close> returns the new counter; the session is then registered under it.\<close>

definition NewStreamSession :: "string \<Rightarrow> stream_type \<Rightarrow> world \<Rightarrow> nat \<times> world" where
  "NewStreamSession m ty w =
     (let i = w_next w + 1; a = length (w_heap w)
      in (a, w\<lparr>w_next := i, w_heap := w_heap w @ [new_session i m ty w],
               w_registry := (w_registry w)(i \<mapsto> a)\<rparr>))"

definition GetStreamSession :: "int64 \<Rightarrow> world \<Rightarrow> nat option" where
  "GetStreamSession i w = w_registry w i"

text \<open>Running a critical section of the session at address \<open>a\<close>.\<close>

definition on_session :: "nat \<Rightarrow> (session \<Rightarrow> session outcome) \<Rightarrow> world \<Rightarrow> world outcome" where
  "on_session a f w =
     bind_outcome (f (w_heap w ! a)) (\<lambda>s. Ret (w\<lparr>w_heap := (w_heap w)[a := s]\<rparr>))"

definition close_input :: "session \<Rightarrow> session outcome" where
  "close_input s =
     (if ss_input_closed s then Ret s
      else bind_outcome (chan_close (ss_data s))
             (\<lambda>c. Ret (s\<lparr>ss_input_closed := True, ss_data := c\<rparr>)))"

definition close_session :: "session \<Rightarrow> session outcome" where
  "close_session s =
     (if ss_closed s then Ret s
      else bind_outcome (signal_close (ss_done s))
             (\<lambda>d. close_input (s\<lparr>ss_closed := True, ss_done := d\<rparr>)))"

definition CloseStreamSession :: "int64 \<Rightarrow> world \<Rightarrow> world outcome" where
  "CloseStreamSession i w =
     (case w_registry w i of
        None \<Rightarrow> Ret w
      | Some a \<Rightarrow> on_session a close_session (w\<lparr>w_registry := (w_registry w)(i := None)\<rparr>))"

definition CloseStreamInput :: "int64 \<Rightarrow> world \<Rightarrow> world outcome" where
  "CloseStreamInput i w =
     (case GetStreamSession i w of
        None \<Rightarrow> Ret w
      | Some a \<Rightarrow>
          on_session a
            (\<lambda>s. if \<not> ss_closed s \<and> \<not> ss_input_closed s then close_input s else Ret s) w)"

section \<open>Dart to Go\<close>

text \<open>
  \<open>SendToStream\<close> checks \<open>inputClosed\<close> under the mutex, releases it, and then selects
  between the send and \<open>DoneChan\<close>. \<open>None\<close> is the nil error.
\<close>

definition SendToStream_check :: "int64 \<Rightarrow> world \<Rightarrow> stream_error + nat" where
  "SendToStream_check i w =
     (case GetStreamSession i w of
        None \<Rightarrow> Inl (SessionNotFound i)
      | Some a \<Rightarrow> if ss_input_closed (w_heap w ! a) then Inl (InputIsClosed i) else Inr a)"

definition SendToStream_select ::
    "int64 \<Rightarrow> nat \<Rightarrow> bytes \<Rightarrow> world \<Rightarrow> (stream_error option \<times> world) outcome list" where
  "SendToStream_select i a d w =
     (let s = w_heap w ! a in
      select_ready
       [(send_ready (ss_data s),
           bind_outcome (on_session a (\<lambda>s. bind_outcome (chan_send d (ss_data s))
                                              (\<lambda>c. Ret (s\<lparr>ss_data := c\<rparr>))) w)
             (\<lambda>w'. Ret (None, w'))),
        (ss_done s, Ret (Some (StreamIsClosed i), w))])"

definition SendToStream ::
    "int64 \<Rightarrow> bytes \<Rightarrow> world \<Rightarrow> (stream_error option \<times> world) outcome list" where
  "SendToStream i d w =
     (case SendToStream_check i w of
        Inl e \<Rightarrow> [Ret (Some e, w)]
      | Inr a \<Rightarrow> SendToStream_select i a d w)"

text \<open>The handler's side: \<open>data, ok := <-session.DataChan\<close>.\<close>

definition RecvData :: "nat \<Rightarrow> world \<Rightarrow> (bytes option \<times> world) list" where
  "RecvData a w =
     (let s = w_heap w ! a; (v, c) = chan_recv (ss_data s)
      in if recv_ready (ss_data s)
         then [(v, w\<lparr>w_heap := (w_heap w)[a := s\<lparr>ss_data := c\<rparr>]\<rparr>)] else [])"

definition SignalStreamReady :: "int64 \<Rightarrow> world \<Rightarrow> world outcome" where
  "SignalStreamReady i w =
     (case GetStreamSession i w of
        None \<Rightarrow> Ret w
      | Some a \<Rightarrow>
          on_session a
            (\<lambda>s. if ss_ready s then Ret s
                 else bind_outcome (signal_close (ss_ready s)) (\<lambda>r. Ret (s\<lparr>ss_ready := r\<rparr>))) w)"

text \<open>
  \<open>WaitForReady\<close> returns when one of its channels is ready; with a timeout configured
  the timer may fire first whatever else is ready.
\<close>

definition WaitForReady :: "nat \<Rightarrow> world \<Rightarrow> bool list" where
  "WaitForReady a w =
     (let s = w_heap w ! a in
      if w_timeout w = 0
      then select_ready [(ss_ready s, True), (ss_done s, False)]
      else select_ready [(ss_ready s, True), (ss_done s, False), (True, False)])"

section \<open>Go to Dart\<close>

text \<open>
  The operations of this side read the session under the mutex (\<open>_lock\<close>), release it and
  then call back. The calls a thread is about to make are a list of events, made in that
  order; \<open>emit\<close> makes them.
\<close>

definition emit :: "stream_event list \<Rightarrow> world \<Rightarrow> world" where
  "emit es w = w\<lparr>w_out := w_out w @ es\<rparr>"

text \<open>\<open>if cb != nil { cb(id, ty, data) }\<close>\<close>

definition call_back :: "nat option \<Rightarrow> int64 \<Rightarrow> byte \<Rightarrow> bytes \<Rightarrow> stream_event list" where
  "call_back cb i ty d = (case cb of None \<Rightarrow> [] | Some k \<Rightarrow> [Call k i ty d])"

fun finish_call :: "(stream_error + stream_event list) \<Rightarrow> world \<Rightarrow> stream_error option \<times> world" where
  "finish_call (Inl e) w = (Some e, w)"
| "finish_call (Inr es) w = (None, emit es w)"

definition SendFromStream_lock :: "nat \<Rightarrow> bytes \<Rightarrow> world \<Rightarrow> stream_error + stream_event list" where
  "SendFromStream_lock a d w =
     (let s = w_heap w ! a in
      if ss_closed s then Inl (StreamIsClosed (ss_id s))
      else Inr (call_back (ss_callback s) (ss_id s) StreamMsgData d))"

definition SendFromStream :: "nat \<Rightarrow> bytes \<Rightarrow> world \<Rightarrow> stream_error option \<times> world" where
  "SendFromStream a d w = finish_call (SendFromStream_lock a d w) w"

text \<open>
  The zero-copy variant. \<open>proto.Size\<close>, \<open>proto.Marshal\<close> (and \<open>MarshalAppend\<close>, which
  writes the same bytes) and whether \<open>C.malloc\<close> succeeds are parameters. The buffer has
  room for \<open>sz msg\<close> bytes; \<open>append\<close> beyond that would move the data elsewhere and leave
  the C memory unfilled.
\<close>

definition SendFromStreamFfi_lock ::
    "('m \<Rightarrow> nat) \<Rightarrow> ('m \<Rightarrow> bytes option) \<Rightarrow> bool \<Rightarrow> nat \<Rightarrow> 'm \<Rightarrow> world \<Rightarrow>
     stream_error + stream_event list" where
  "SendFromStreamFfi_lock sz marshal malloc_ok a msg w =
     (let s = w_heap w ! a in
      if ss_closed s then Inl (StreamIsClosed (ss_id s))
      else case ss_callback_ffi s of
        Some k \<Rightarrow>
          if sz msg = 0 then Inr [CallFfi k (ss_id s) StreamMsgData CNull 0]
          else if \<not> malloc_ok then Inl MallocFailed
          else (case marshal msg of
                  None \<Rightarrow> Inl MarshalFailed
                | Some bs \<Rightarrow>
                    Inr [CallFfi k (ss_id s) StreamMsgData
                           (if length bs \<le> sz msg then CData bs else CUnfilled) (sz msg)])
      | None \<Rightarrow>
          (case ss_callback s of
             None \<Rightarrow> Inr []
           | Some k \<Rightarrow>
               (case marshal msg of
                  None \<Rightarrow> Inl MarshalFailed
                | Some bs \<Rightarrow> Inr [Call k (ss_id s) StreamMsgData bs])))"

definition SendFromStreamFfi ::
    "('m \<Rightarrow> nat) \<Rightarrow> ('m \<Rightarrow> bytes option) \<Rightarrow> bool \<Rightarrow> nat \<Rightarrow> 'm \<Rightarrow> world \<Rightarrow>
     stream_error option \<times> world" where
  "SendFromStreamFfi sz marshal malloc_ok a msg w =
     finish_call (SendFromStreamFfi_lock sz marshal malloc_ok a msg w) w"

definition CloseSend_lock :: "nat \<Rightarrow> world \<Rightarrow> stream_error + stream_event list" where
  "CloseSend_lock a w =
     (let s = w_heap w ! a in
      if ss_closed s then Inl (StreamIsClosed (ss_id s))
      else Inr (call_back (ss_callback s) (ss_id s) StreamMsgEnd []))"

definition CloseSend :: "nat \<Rightarrow> world \<Rightarrow> stream_error option \<times> world" where
  "CloseSend a w = finish_call (CloseSend_lock a w) w"

definition update_session :: "nat \<Rightarrow> (session \<Rightarrow> session) \<Rightarrow> world \<Rightarrow> world" where
  "update_session a f w = w\<lparr>w_heap := (w_heap w)[a := f (w_heap w ! a)]\<rparr>"

definition SetHeader :: "nat \<Rightarrow> string \<Rightarrow> string \<Rightarrow> world \<Rightarrow> world" where
  "SetHeader a k v w = update_session a (\<lambda>s. s\<lparr>ss_headers := AList.update k v (ss_headers s)\<rparr>) w"

definition SetTrailer :: "nat \<Rightarrow> string \<Rightarrow> string \<Rightarrow> world \<Rightarrow> world" where
  "SetTrailer a k v w = update_session a (\<lambda>s. s\<lparr>ss_trailers := AList.update k v (ss_trailers s)\<rparr>) w"

text \<open>
  \<open>key=value\<close> lines. A Go map is iterated in an unspecified order, given here by the
  parameter \<open>ord\<close>, which lists the entries in the order the loop meets them.
\<close>

type_synonym kv_order = "(string \<times> string) list \<Rightarrow> (string \<times> string) list"

definition encode_pairs :: "(string \<times> string) list \<Rightarrow> bytes" where
  "encode_pairs kvs = concat (map (\<lambda>(k, v). str_bytes (k @ ''='' @ v @ [CHR 0x0A])) kvs)"

text \<open>
  The two maps are shared: what the code keeps after the unlock is a reference, or nil when
  nothing had been set. \<open>s\<close> is the session as it was captured under the mutex, and \<open>now\<close> the
  session when the loop reads the map. \<open>None\<close> is the early return of \<open>SendHeader\<close>.
\<close>

definition SendHeader_lock :: "nat \<Rightarrow> world \<Rightarrow> session option \<times> world" where
  "SendHeader_lock a w =
     (let s = w_heap w ! a in
      if ss_headers_sent s then (None, w)
      else (Some s, update_session a (\<lambda>s. s\<lparr>ss_headers_sent := True\<rparr>) w))"

definition SendHeader_calls :: "kv_order \<Rightarrow> session \<Rightarrow> session \<Rightarrow> stream_event list" where
  "SendHeader_calls ord s now =
     (if ss_headers s = [] then []
      else call_back (ss_callback s) (ss_id s) StreamMsgHeader (encode_pairs (ord (ss_headers now))))"

definition SendHeader :: "kv_order \<Rightarrow> nat \<Rightarrow> world \<Rightarrow> world" where
  "SendHeader ord a w =
     (case SendHeader_lock a w of
        (None, w') \<Rightarrow> w'
      | (Some s, w') \<Rightarrow> emit (SendHeader_calls ord s (w_heap w' ! a)) w')"

definition sendTrailers :: "kv_order \<Rightarrow> session \<Rightarrow> nat option \<Rightarrow> stream_event list" where
  "sendTrailers ord s cb =
     (if ss_trailers s = [] then []
      else call_back cb (ss_id s) StreamMsgTrailer (encode_pairs (ord (ss_trailers s))))"

text \<open>
  \<open>EndStream\<close> and \<open>ErrorStream\<close> mark the session closed under the mutex, call back
  without it, and close \<open>DoneChan\<close> last. \<open>end_lock\<close> is the critical section: \<open>None\<close>
  is the early return on a closed session, \<open>Some s\<close> the fields read before the unlock.
\<close>

definition end_lock :: "nat \<Rightarrow> world \<Rightarrow> (session option \<times> world) outcome" where
  "end_lock a w =
     (if ss_closed (w_heap w ! a) then Ret (None, w)
      else bind_outcome (on_session a (\<lambda>s. close_input (s\<lparr>ss_closed := True\<rparr>)) w)
             (\<lambda>w'. Ret (Some (w_heap w' ! a), w')))"

definition end_done :: "nat \<Rightarrow> world \<Rightarrow> world outcome" where
  "end_done a w =
     on_session a (\<lambda>s. bind_outcome (signal_close (ss_done s)) (\<lambda>d. Ret (s\<lparr>ss_done := d\<rparr>))) w"

definition EndStream_calls :: "kv_order \<Rightarrow> session \<Rightarrow> session \<Rightarrow> stream_event list" where
  "EndStream_calls ord s now =
     (if ss_trailers s = [] then []
      else call_back (ss_callback s) (ss_id s) StreamMsgTrailer (encode_pairs (ord (ss_trailers now))))
     @ call_back (ss_callback s) (ss_id s) StreamMsgEnd []"

definition EndStream :: "kv_order \<Rightarrow> nat \<Rightarrow> world \<Rightarrow> world outcome" where
  "EndStream ord a w =
     bind_outcome (end_lock a w)
       (\<lambda>(cap, w1). case cap of
          None \<Rightarrow> Ret w1
        | Some s \<Rightarrow> end_done a (emit (EndStream_calls ord s (w_heap w1 ! a)) w1))"

definition ErrorStream_calls :: "string \<Rightarrow> session \<Rightarrow> stream_event list" where
  "ErrorStream_calls msg s = call_back (ss_callback s) (ss_id s) StreamMsgError (str_bytes msg)"

definition ErrorStream :: "nat \<Rightarrow> string \<Rightarrow> world \<Rightarrow> world outcome" where
  "ErrorStream a msg w =
     bind_outcome (end_lock a w)
       (\<lambda>(cap, w1). case cap of
          None \<Rightarrow> Ret w1
        | Some s \<Rightarrow> end_done a (emit (ErrorStream_calls msg s) w1))"

section \<open>Starting streams and the handler registry\<close>

text \<open>
  A handler is a function value; the model keeps its identity and returns the goroutine
  that was started: the session's address and the handler with its initial data. The
  goroutine's deferred \<open>CloseStreamSession\<close> is \<open>handler_exit\<close>.
\<close>

datatype 'h task = ServerTask 'h bytes | ClientTask 'h | BidiTask 'h

record 'h handlers =
  h_server :: "string \<rightharpoonup> 'h"
  h_client :: "string \<rightharpoonup> 'h"
  h_bidi :: "string \<rightharpoonup> 'h"

definition start_stream ::
    "stream_type \<Rightarrow> string \<Rightarrow> 'h task \<Rightarrow> world \<Rightarrow> int64 \<times> (nat \<times> 'h task) option \<times> world" where
  "start_stream ty m t w =
     (let (a, w') = NewStreamSession m ty w in (ss_id (w_heap w' ! a), Some (a, t), w'))"

definition StartServerStream ::
    "string \<Rightarrow> 'h task \<Rightarrow> world \<Rightarrow> int64 \<times> (nat \<times> 'h task) option \<times> world" where
  "StartServerStream m t w = start_stream StreamTypeServerStream m t w"

definition StartClientStream ::
    "string \<Rightarrow> 'h task \<Rightarrow> world \<Rightarrow> int64 \<times> (nat \<times> 'h task) option \<times> world" where
  "StartClientStream m t w = start_stream StreamTypeClientStream m t w"

definition StartBidiStream ::
    "string \<Rightarrow> 'h task \<Rightarrow> world \<Rightarrow> int64 \<times> (nat \<times> 'h task) option \<times> world" where
  "StartBidiStream m t w = start_stream StreamTypeBidiStream m t w"

definition handler_exit :: "nat \<Rightarrow> world \<Rightarrow> world outcome" where
  "handler_exit a w = CloseStreamSession (ss_id (w_heap w ! a)) w"

definition RegisterServerStreamHandler :: "string \<Rightarrow> 'h \<Rightarrow> 'h handlers \<Rightarrow> 'h handlers" where
  "RegisterServerStreamHandler m h r = r\<lparr>h_server := (h_server r)(m \<mapsto> h)\<rparr>"

definition RegisterClientStreamHandler :: "string \<Rightarrow> 'h \<Rightarrow> 'h handlers \<Rightarrow> 'h handlers" where
  "RegisterClientStreamHandler m h r = r\<lparr>h_client := (h_client r)(m \<mapsto> h)\<rparr>"

definition RegisterBidiStreamHandler :: "string \<Rightarrow> 'h \<Rightarrow> 'h handlers \<Rightarrow> 'h handlers" where
  "RegisterBidiStreamHandler m h r = r\<lparr>h_bidi := (h_bidi r)(m \<mapsto> h)\<rparr>"

definition UnregisterAllStreamHandlers :: "'h handlers \<Rightarrow> 'h handlers" where
  "UnregisterAllStreamHandlers r =
     r\<lparr>h_server := Map.empty, h_client := Map.empty, h_bidi := Map.empty\<rparr>"

definition HandleServerStream ::
    "'h handlers \<Rightarrow> string \<Rightarrow> bytes \<Rightarrow> world \<Rightarrow> int64 \<times> (nat \<times> 'h task) option \<times> world" where
  "HandleServerStream r m d w =
     (case h_server r m of
        Some h \<Rightarrow> StartServerStream m (ServerTask h d) w
      | None \<Rightarrow> (- 1, None, w))"

definition HandleClientStream ::
    "'h handlers \<Rightarrow> string \<Rightarrow> world \<Rightarrow> int64 \<times> (nat \<times> 'h task) option \<times> world" where
  "HandleClientStream r m w =
     (case h_client r m of
        Some h \<Rightarrow> StartClientStream m (ClientTask h) w
      | None \<Rightarrow> (- 1, None, w))"

definition HandleBidiStream ::
    "'h handlers \<Rightarrow> string \<Rightarrow> world \<Rightarrow> int64 \<times> (nat \<times> 'h task) option \<times> world" where
  "HandleBidiStream r m w =
     (case h_bidi r m of
        Some h \<Rightarrow> StartBidiStream m (BidiTask h) w
      | None \<Rightarrow> (- 1, None, w))"

section \<open>The invariant of sessions and registry\<close>

text \<open>
  \<open>DataChan\<close> is closed exactly when \<open>inputClosed\<close> is set, a closed session has its input
  closed, and \<open>DoneChan\<close> is closed only on a closed session. (The converse of the last
  fails while \<open>EndStream\<close> or \<open>ErrorStream\<close> is calling back; \<open>settled\<close> says that no such
  call is under way.)
\<close>

definition session_inv :: "session \<Rightarrow> bool" where
  "session_inv s \<longleftrightarrow>
     ch_closed (ss_data s) = ss_input_closed s \<and>
     (ss_closed s \<longrightarrow> ss_input_closed s) \<and> (ss_done s \<longrightarrow> ss_closed s) \<and>
     chan_wf (ss_data s) \<and> ch_cap (ss_data s) = 100"

definition settled :: "session \<Rightarrow> bool" where
  "settled s \<longleftrightarrow> (ss_closed s \<longrightarrow> ss_done s)"

definition world_inv :: "world \<Rightarrow> bool" where
  "world_inv w \<longleftrightarrow>
     (\<forall>s \<in> set (w_heap w). session_inv s) \<and>
     (\<forall>i a. w_registry w i = Some a \<longrightarrow>
        a < length (w_heap w) \<and> ss_id (w_heap w ! a) = i)"

text \<open>Until the counter wraps, the registered handles are at most the counter.\<close>

definition ids_inv :: "world \<Rightarrow> bool" where
  "ids_inv w \<longleftrightarrow> (\<forall>i a. w_registry w i = Some a \<longrightarrow> unat i \<le> unat (w_next w))"

lemma world_invD:
  assumes "world_inv w"
  shows "a < length (w_heap w) \<Longrightarrow> session_inv (w_heap w ! a)"
    and "w_registry w i = Some a \<Longrightarrow> a < length (w_heap w)"
    and "w_registry w i = Some a \<Longrightarrow> ss_id (w_heap w ! a) = i"
  using assms by (auto simp: world_inv_def)

lemma world_inv_init [simp]: "world_inv init_world"
  by (simp add: world_inv_def init_world_def)

lemma session_inv_new [simp]: "session_inv (new_session i m ty w)"
  by (simp add: session_inv_def new_session_def)

lemma settled_new [simp]: "settled (new_session i m ty w)"
  by (simp add: settled_def new_session_def)

lemma on_session_Ret [go_simps]:
  "on_session a f w = Ret w' \<longleftrightarrow>
     (\<exists>s. f (w_heap w ! a) = Ret s \<and> w' = w\<lparr>w_heap := (w_heap w)[a := s]\<rparr>)"
  by (auto simp: on_session_def go_simps)

lemma on_session_Panic [go_simps]:
  "on_session a f w = Panic p \<longleftrightarrow> f (w_heap w ! a) = Panic p"
  by (auto simp: on_session_def go_simps)

text \<open>A critical section that keeps the session's invariant and identity keeps the world's.\<close>

lemma world_inv_update:
  assumes "world_inv w" "session_inv s" "ss_id s = ss_id (w_heap w ! a)"
  shows "world_inv (w\<lparr>w_heap := (w_heap w)[a := s]\<rparr>)"
proof -
  have "\<forall>t \<in> set ((w_heap w)[a := s]). session_inv t"
    using assms(1,2) set_update_subset_insert [of "w_heap w" a s] by (auto simp: world_inv_def)
  moreover have "ss_id ((w_heap w)[a := s] ! b) = i" if "w_registry w i = Some b" for i b
    using world_invD(2,3) [OF assms(1) that] assms(3) by (cases "b = a") auto
  ultimately show ?thesis
    using assms(1) by (auto simp: world_inv_def)
qed

lemma world_inv_unregister:
  "world_inv w \<Longrightarrow> world_inv (w\<lparr>w_registry := (w_registry w)(i := None)\<rparr>)"
  by (auto simp: world_inv_def)

lemma world_inv_emit [simp]: "world_inv (emit es w) = world_inv w"
  by (simp add: world_inv_def emit_def)

lemma emit_simps [simp]:
  "w_heap (emit es w) = w_heap w" "w_registry (emit es w) = w_registry w"
  "w_next (emit es w) = w_next w" "w_out (emit es w) = w_out w @ es"
  "w_timeout (emit es w) = w_timeout w"
  by (simp_all add: emit_def)

lemma close_input_inv:
  "session_inv s \<Longrightarrow> \<exists>s'. close_input s = Ret s' \<and> session_inv s' \<and> ss_id s' = ss_id s \<and>
     ss_closed s' = ss_closed s \<and> ss_done s' = ss_done s \<and> ss_input_closed s' \<and>
     ch_buf (ss_data s') = ch_buf (ss_data s)"
  by (auto simp: session_inv_def close_input_def chan_close_def chan_wf_def)

lemma close_session_inv:
  "session_inv s \<Longrightarrow> \<exists>s'. close_session s = Ret s' \<and> session_inv s' \<and> ss_id s' = ss_id s \<and>
     ss_closed s' \<and> ss_input_closed s' \<and> (settled s \<longrightarrow> ss_done s') \<and>
     ch_buf (ss_data s') = ch_buf (ss_data s)"
  by (auto simp: session_inv_def close_session_def close_input_def chan_close_def chan_wf_def
      signal_close_def settled_def)

text \<open>
  Closing a session never panics, whatever the registry holds; a live handle is gone and
  its session closed, with the data already queued still readable.
\<close>

lemma CloseStreamSession_none: "w_registry w i = None \<Longrightarrow> CloseStreamSession i w = Ret w"
  by (simp add: CloseStreamSession_def)

lemma CloseStreamSession_some:
  assumes "world_inv w" "w_registry w i = Some a"
  shows "\<exists>s'. CloseStreamSession i w =
           Ret (w\<lparr>w_registry := (w_registry w)(i := None), w_heap := (w_heap w)[a := s']\<rparr>) \<and>
           close_session (w_heap w ! a) = Ret s' \<and> session_inv s' \<and> ss_id s' = i"
proof -
  have "session_inv (w_heap w ! a)" using world_invD [OF assms(1)] assms(2) by blast
  from close_session_inv [OF this] obtain s' where
    s': "close_session (w_heap w ! a) = Ret s'" "session_inv s'" "ss_id s' = ss_id (w_heap w ! a)"
    by blast
  then show ?thesis
    using assms(2) world_invD(3) [OF assms]
    by (auto simp: CloseStreamSession_def on_session_def)
qed

lemma CloseStreamSession_inv:
  assumes "world_inv w"
  shows "\<exists>w'. CloseStreamSession i w = Ret w' \<and> world_inv w' \<and>
           w_registry w' = (w_registry w)(i := None) \<and> w_next w' = w_next w \<and> w_out w' = w_out w"
proof (cases "w_registry w i")
  case None
  then show ?thesis using assms by (auto simp: CloseStreamSession_none fun_upd_idem)
next
  case (Some a)
  obtain s' where s': "CloseStreamSession i w =
           Ret (w\<lparr>w_registry := (w_registry w)(i := None), w_heap := (w_heap w)[a := s']\<rparr>)"
    "session_inv s'" "ss_id s' = i"
    using CloseStreamSession_some [OF assms Some] by blast
  have "world_inv (w\<lparr>w_heap := (w_heap w)[a := s']\<rparr>)"
    using world_inv_update [OF assms s'(2)] s'(3) world_invD(3) [OF assms Some] by simp
  then have "world_inv (w\<lparr>w_registry := (w_registry w)(i := None), w_heap := (w_heap w)[a := s']\<rparr>)"
    by (auto simp: world_inv_def)
  with s'(1) show ?thesis by simp
qed

lemma CloseStreamInput_inv:
  assumes "world_inv w"
  shows "\<exists>w'. CloseStreamInput i w = Ret w' \<and> world_inv w' \<and> w_registry w' = w_registry w"
proof (cases "w_registry w i")
  case None
  then show ?thesis using assms by (auto simp: CloseStreamInput_def GetStreamSession_def)
next
  case (Some a)
  let ?s = "w_heap w ! a"
  have inv: "session_inv ?s" using world_invD [OF assms] Some by blast
  show ?thesis
  proof (cases "ss_closed ?s \<or> ss_input_closed ?s")
    case True
    then show ?thesis using Some assms
      by (auto simp: CloseStreamInput_def GetStreamSession_def on_session_def)
  next
    case False
    from close_input_inv [OF inv] obtain s' where
      s': "close_input ?s = Ret s'" "session_inv s'" "ss_id s' = ss_id ?s" by blast
    with world_inv_update [OF assms s'(2,3)] False Some show ?thesis
      by (auto simp: CloseStreamInput_def GetStreamSession_def on_session_def)
  qed
qed

lemma SignalStreamReady_inv:
  assumes "world_inv w"
  shows "\<exists>w'. SignalStreamReady i w = Ret w' \<and> world_inv w'"
proof (cases "w_registry w i")
  case None
  then show ?thesis using assms by (auto simp: SignalStreamReady_def GetStreamSession_def)
next
  case (Some a)
  have "session_inv (w_heap w ! a)" using world_invD [OF assms] Some by blast
  then have upd: "world_inv (w\<lparr>w_heap := (w_heap w)[a := (w_heap w ! a)\<lparr>ss_ready := True\<rparr>]\<rparr>)"
    by (intro world_inv_update [OF assms]) (auto simp: session_inv_def)
  show ?thesis using Some assms upd
    by (auto simp: SignalStreamReady_def GetStreamSession_def on_session_def signal_close_def)
qed

lemma SendToStream_check_Inr:
  "SendToStream_check i w = Inr a \<longleftrightarrow>
     w_registry w i = Some a \<and> \<not> ss_input_closed (w_heap w ! a)"
  by (auto simp: SendToStream_check_def GetStreamSession_def split: option.splits if_splits)

section \<open>The registry as a handle table\<close>

definition session_alloc :: "string \<times> stream_type \<Rightarrow> world \<Rightarrow> int64 \<times> world" where
  "session_alloc mt w =
     (let (a, w') = NewStreamSession (fst mt) (snd mt) w in (ss_id (w_heap w' ! a), w'))"

definition session_remove :: "int64 \<Rightarrow> world \<Rightarrow> world" where
  "session_remove i w = (case CloseStreamSession i w of Ret w' \<Rightarrow> w' | Panic p \<Rightarrow> w)"

definition session_room :: "world \<Rightarrow> nat" where
  "session_room w = 2 ^ 64 - 1 - unat (w_next w)"

lemma session_alloc_simp:
  "session_alloc mt w =
     (w_next w + 1,
      w\<lparr>w_next := w_next w + 1,
        w_heap := w_heap w @ [new_session (w_next w + 1) (fst mt) (snd mt) w],
        w_registry := (w_registry w)(w_next w + 1 \<mapsto> length (w_heap w))\<rparr>)"
  by (simp add: session_alloc_def NewStreamSession_def Let_def new_session_def)

lemma session_room_pos: "0 < session_room w \<longleftrightarrow> unat (w_next w) < 2 ^ 64 - 1"
  using unsigned_less [of "w_next w", where ?'a = nat] by (auto simp: session_room_def)

lemma world_inv_new:
  assumes "world_inv w"
  shows "world_inv (snd (NewStreamSession m ty w))"
  using assms unfolding world_inv_def
  by (auto simp: NewStreamSession_def Let_def nth_append less_Suc_eq split: if_splits)
     (auto simp: new_session_def)

lemma ids_inv_alloc:
  assumes "ids_inv w" "0 < session_room w"
  shows "ids_inv (snd (session_alloc mt w))"
proof -
  have up: "unat (w_next w + 1) = Suc (unat (w_next w))"
    using assms(2) by (simp add: session_room_pos unat_plus_one_less)
  with assms(1) show ?thesis
    by (auto simp: session_alloc_simp ids_inv_def le_Suc_eq)
qed

interpretation sessions: handle_table session_alloc "\<lambda>w i. GetStreamSession i w" session_remove
  "\<lambda>w. world_inv w \<and> ids_inv w" session_room
proof
  fix w mt
  assume invs: "world_inv w \<and> ids_inv w" and room: "0 < session_room w"
  have up: "unat (w_next w + 1) = Suc (unat (w_next w))"
    using room by (simp add: session_room_pos unat_plus_one_less)
  show "GetStreamSession (fst (session_alloc mt w)) w = None"
  proof (rule ccontr)
    assume "GetStreamSession (fst (session_alloc mt w)) w \<noteq> None"
    then obtain a where "w_registry w (w_next w + 1) = Some a"
      by (auto simp: GetStreamSession_def session_alloc_simp)
    with invs have "unat (w_next w + 1) \<le> unat (w_next w)" by (auto simp: ids_inv_def)
    with up show False by simp
  qed
  show "GetStreamSession (fst (session_alloc mt w)) (snd (session_alloc mt w)) \<noteq> None"
    by (simp add: GetStreamSession_def session_alloc_simp)
  have "world_inv (snd (session_alloc mt w))"
    using world_inv_new [of w "fst mt" "snd mt"] invs
    by (simp add: session_alloc_def split_beta Let_def)
  then show "world_inv (snd (session_alloc mt w)) \<and> ids_inv (snd (session_alloc mt w))"
    using ids_inv_alloc [OF _ room] invs by blast
  show "session_room (snd (session_alloc mt w)) = session_room w - 1"
    using up by (simp add: session_alloc_simp session_room_def)
next
  fix h mt w
  assume "h \<noteq> fst (session_alloc mt w)"
  then show "GetStreamSession h (snd (session_alloc mt w)) = GetStreamSession h w"
    by (simp add: GetStreamSession_def session_alloc_simp)
next
  fix w h h'
  assume invs: "world_inv w \<and> ids_inv w"
  then have inv: "world_inv w" ..
  from CloseStreamSession_inv [OF inv, of h] obtain w' where
    w': "CloseStreamSession h w = Ret w'" "world_inv w'"
      "w_registry w' = (w_registry w)(h := None)" "w_next w' = w_next w" by blast
  show "GetStreamSession h (session_remove h w) = None"
    and "world_inv (session_remove h w) \<and> ids_inv (session_remove h w)"
    and "session_room (session_remove h w) = session_room w"
    using w' invs
    by (auto simp: session_remove_def GetStreamSession_def session_room_def ids_inv_def)
  assume "h' \<noteq> h"
  then show "GetStreamSession h' (session_remove h w) = GetStreamSession h' w"
    using w' by (simp add: session_remove_def GetStreamSession_def)
qed

end
