(* ===== verification/StreamSteps.thy ===== *)
theory StreamSteps
  imports StreamSession
begin

text \<open>
  The stream sessions under concurrency. Dart isolates and Go handler goroutines call the
  operations of \<open>StreamSession\<close> in any order; an operation that releases the mutex before
  its end leaves a thread behind that still has to finish: \<open>Sending\<close> is inside
  \<open>SendToStream\<close> after its check, \<open>Reading\<close> is still to read the headers or trailers that
  it shares with the session, \<open>Calling\<close> still has callbacks to make and may have to close
  \<open>DoneChan\<close> after them. A step is one critical section, one callback or one channel
  operation of one thread. \<open>sc_sent\<close> and \<open>sc_got\<close> record, per session, what was
  accepted from Dart and what the handler received.
\<close>

section \<open>The step relation\<close>

datatype stream_thread =
  Sending int64 nat bytes
| Reading nat "session \<Rightarrow> stream_event list" "nat option"
| Calling "stream_event list" "nat option"

fun ending :: "stream_thread \<Rightarrow> nat option" where
  "ending (Sending i a d) = None"
| "ending (Reading a calls f) = f"
| "ending (Calling es f) = f"

record stream_conf =
  sc_world :: world
  sc_threads :: "stream_thread multiset"
  sc_sent :: "nat \<Rightarrow> bytes list"
  sc_got :: "nat \<Rightarrow> bytes list"

definition init_conf :: stream_conf where
  "init_conf = \<lparr>sc_world = init_world, sc_threads = {#}, sc_sent = (\<lambda>_. []), sc_got = (\<lambda>_. [])\<rparr>"

definition spawn :: "stream_thread \<Rightarrow> stream_conf \<Rightarrow> stream_conf" where
  "spawn t c = c\<lparr>sc_threads := add_mset t (sc_threads c)\<rparr>"

definition retire :: "stream_thread \<Rightarrow> stream_conf \<Rightarrow> stream_conf" where
  "retire t c = c\<lparr>sc_threads := sc_threads c - {#t#}\<rparr>"

definition set_world :: "world \<Rightarrow> stream_conf \<Rightarrow> stream_conf" where
  "set_world w c = c\<lparr>sc_world := w\<rparr>"

inductive stream_step ::
    "kv_order \<Rightarrow> ('m \<Rightarrow> nat) \<Rightarrow> ('m \<Rightarrow> bytes option) \<Rightarrow> stream_conf \<Rightarrow> stream_conf \<Rightarrow> bool"
  for ord sz marshal where
  st_callback: "stream_step ord sz marshal c (set_world (SetStreamCallback cb (sc_world c)) c)"
| st_callback_ffi: "stream_step ord sz marshal c (set_world (SetStreamCallbackFfi cb (sc_world c)) c)"
| st_timeout: "stream_step ord sz marshal c (set_world (SetDefaultStreamTimeout d (sc_world c)) c)"
| st_new: "stream_step ord sz marshal c (set_world (snd (NewStreamSession m ty (sc_world c))) c)"
| st_close: "CloseStreamSession i (sc_world c) = Ret w \<Longrightarrow>
     stream_step ord sz marshal c (set_world w c)"
| st_close_input: "CloseStreamInput i (sc_world c) = Ret w \<Longrightarrow>
     stream_step ord sz marshal c (set_world w c)"
| st_ready: "SignalStreamReady i (sc_world c) = Ret w \<Longrightarrow>
     stream_step ord sz marshal c (set_world w c)"
| st_check: "SendToStream_check i (sc_world c) = Inr a \<Longrightarrow>
     stream_step ord sz marshal c (spawn (Sending i a d) c)"
| st_sent: "Sending i a d \<in># sc_threads c \<Longrightarrow>
     Ret (None, w) \<in> set (SendToStream_select i a d (sc_world c)) \<Longrightarrow>
     stream_step ord sz marshal c
       (retire (Sending i a d) (set_world w c)\<lparr>sc_sent := (sc_sent c)(a := sc_sent c a @ [d])\<rparr>)"
| st_refused: "Sending i a d \<in># sc_threads c \<Longrightarrow>
     Ret (Some e, w) \<in> set (SendToStream_select i a d (sc_world c)) \<Longrightarrow>
     stream_step ord sz marshal c (retire (Sending i a d) (set_world w c))"
| st_recv: "a < length (w_heap (sc_world c)) \<Longrightarrow> (Some d, w) \<in> set (RecvData a (sc_world c)) \<Longrightarrow>
     stream_step ord sz marshal c
       (set_world w c\<lparr>sc_got := (sc_got c)(a := sc_got c a @ [d])\<rparr>)"
| st_data: "SendFromStream_lock a d (sc_world c) = Inr es \<Longrightarrow>
     stream_step ord sz marshal c (spawn (Calling es None) c)"
| st_data_ffi: "SendFromStreamFfi_lock sz marshal ok a msg (sc_world c) = Inr es \<Longrightarrow>
     stream_step ord sz marshal c (spawn (Calling es None) c)"
| st_close_send: "CloseSend_lock a (sc_world c) = Inr es \<Longrightarrow>
     stream_step ord sz marshal c (spawn (Calling es None) c)"
| st_set_header: "stream_step ord sz marshal c (set_world (SetHeader a k v (sc_world c)) c)"
| st_set_trailer: "stream_step ord sz marshal c (set_world (SetTrailer a k v (sc_world c)) c)"
| st_header: "SendHeader_lock a (sc_world c) = (Some s, w) \<Longrightarrow>
     stream_step ord sz marshal c (spawn (Reading a (SendHeader_calls ord s) None) (set_world w c))"
| st_end: "a < length (w_heap (sc_world c)) \<Longrightarrow> end_lock a (sc_world c) = Ret (Some s, w) \<Longrightarrow>
     stream_step ord sz marshal c (spawn (Reading a (EndStream_calls ord s) (Some a)) (set_world w c))"
| st_read: "Reading a calls f \<in># sc_threads c \<Longrightarrow>
     stream_step ord sz marshal c
       (spawn (Calling (calls (w_heap (sc_world c) ! a)) f) (retire (Reading a calls f) c))"
| st_error: "a < length (w_heap (sc_world c)) \<Longrightarrow> end_lock a (sc_world c) = Ret (Some s, w) \<Longrightarrow>
     stream_step ord sz marshal c (spawn (Calling (ErrorStream_calls msg s) (Some a)) (set_world w c))"
| st_call: "Calling (e # es) f \<in># sc_threads c \<Longrightarrow>
     stream_step ord sz marshal c
       (spawn (Calling es f) (retire (Calling (e # es) f) (set_world (emit [e] (sc_world c)) c)))"
| st_return: "Calling [] None \<in># sc_threads c \<Longrightarrow>
     stream_step ord sz marshal c (retire (Calling [] None) c)"
| st_done: "Calling [] (Some a) \<in># sc_threads c \<Longrightarrow> end_done a (sc_world c) = Ret w \<Longrightarrow>
     stream_step ord sz marshal c (retire (Calling [] (Some a)) (set_world w c))"

inductive stream_reachable ::
    "kv_order \<Rightarrow> ('m \<Rightarrow> nat) \<Rightarrow> ('m \<Rightarrow> bytes option) \<Rightarrow> stream_conf \<Rightarrow> bool"
  for ord sz marshal where
  sr_init: "stream_reachable ord sz marshal init_conf"
| sr_step: "stream_reachable ord sz marshal c \<Longrightarrow> stream_step ord sz marshal c c' \<Longrightarrow>
     stream_reachable ord sz marshal c'"

text \<open>
  The panics that can happen in a configuration: an operation about to be called, or a
  thread's next step, panics.
\<close>

inductive stream_panics :: "stream_conf \<Rightarrow> go_panic \<Rightarrow> bool" where
  sp_close: "CloseStreamSession i (sc_world c) = Panic p \<Longrightarrow> stream_panics c p"
| sp_close_input: "CloseStreamInput i (sc_world c) = Panic p \<Longrightarrow> stream_panics c p"
| sp_ready: "SignalStreamReady i (sc_world c) = Panic p \<Longrightarrow> stream_panics c p"
| sp_end: "a < length (w_heap (sc_world c)) \<Longrightarrow> end_lock a (sc_world c) = Panic p \<Longrightarrow>
     stream_panics c p"
| sp_done: "Calling [] (Some a) \<in># sc_threads c \<Longrightarrow> end_done a (sc_world c) = Panic p \<Longrightarrow>
     stream_panics c p"
| sp_send: "Sending i a d \<in># sc_threads c \<Longrightarrow>
     Panic p \<in> set (SendToStream_select i a d (sc_world c)) \<Longrightarrow> stream_panics c p"

section \<open>The invariant of configurations\<close>

definition bufs :: "world \<Rightarrow> nat \<Rightarrow> bytes list" where
  "bufs w a = (if a < length (w_heap w) then ch_buf (ss_data (w_heap w ! a)) else [])"

definition unfinished :: "world \<Rightarrow> nat \<Rightarrow> bool" where
  "unfinished w a \<longleftrightarrow>
     a < length (w_heap w) \<and> ss_closed (w_heap w ! a) \<and> \<not> ss_done (w_heap w ! a)"

definition enders :: "nat \<Rightarrow> stream_conf \<Rightarrow> nat" where
  "enders a c = size {# t \<in># sc_threads c. ending t = Some a #}"

text \<open>
  Every session that is closed but whose \<open>DoneChan\<close> is still open has exactly one thread
  that is going to close it, and no other session has one.
\<close>

definition conf_inv :: "stream_conf \<Rightarrow> bool" where
  "conf_inv c \<longleftrightarrow>
     world_inv (sc_world c) \<and>
     (\<forall>i a d. Sending i a d \<in># sc_threads c \<longrightarrow> a < length (w_heap (sc_world c))) \<and>
     (\<forall>a. enders a c = (if unfinished (sc_world c) a then 1 else 0)) \<and>
     (\<forall>a. sc_sent c a = sc_got c a @ bufs (sc_world c) a)"

definition quiet :: "world \<Rightarrow> world \<Rightarrow> bool" where
  "quiet w w' \<longleftrightarrow>
     world_inv w' \<and> length (w_heap w) \<le> length (w_heap w') \<and> bufs w' = bufs w \<and>
     unfinished w' = unfinished w"

lemma conf_simps [simp]:
  "sc_world (spawn t c) = sc_world c" "sc_sent (spawn t c) = sc_sent c"
  "sc_got (spawn t c) = sc_got c" "sc_threads (spawn t c) = add_mset t (sc_threads c)"
  "sc_world (retire t c) = sc_world c" "sc_sent (retire t c) = sc_sent c"
  "sc_got (retire t c) = sc_got c" "sc_threads (retire t c) = sc_threads c - {#t#}"
  "sc_world (set_world w c) = w" "sc_sent (set_world w c) = sc_sent c"
  "sc_got (set_world w c) = sc_got c" "sc_threads (set_world w c) = sc_threads c"
  by (simp_all add: spawn_def retire_def set_world_def)

lemma enders_simps [simp]:
  "enders a (set_world w c) = enders a c"
  "enders a (spawn t c) = (if ending t = Some a then Suc (enders a c) else enders a c)"
  "enders a (c\<lparr>sc_sent := x\<rparr>) = enders a c"
  "enders a (c\<lparr>sc_got := x\<rparr>) = enders a c"
  by (simp_all add: enders_def)

lemma enders_retire:
  "t \<in># sc_threads c \<Longrightarrow>
     enders a (retire t c) = (if ending t = Some a then enders a c - 1 else enders a c)"
  by (auto simp: enders_def retire_def size_Diff_singleton)

lemma conf_inv_init [simp]: "conf_inv init_conf"
  by (simp add: conf_inv_def init_conf_def enders_def unfinished_def init_world_def bufs_def)
     (simp add: world_inv_def)

lemma quiet_refl: "world_inv w \<Longrightarrow> quiet w w"
  by (simp add: quiet_def)

lemma quiet_update:
  assumes "world_inv w" "session_inv s" "ss_id s = ss_id (w_heap w ! a)"
    and "ch_buf (ss_data s) = ch_buf (ss_data (w_heap w ! a))"
    and "(ss_closed s \<and> \<not> ss_done s) = (ss_closed (w_heap w ! a) \<and> \<not> ss_done (w_heap w ! a))"
  shows "quiet w (w\<lparr>w_heap := (w_heap w)[a := s]\<rparr>)"
proof -
  let ?w = "w\<lparr>w_heap := (w_heap w)[a := s]\<rparr>"
  have "bufs ?w b = bufs w b" "unfinished ?w b = unfinished w b" for b
    using assms(4,5) by (cases "b = a"; auto simp: bufs_def unfinished_def)+
  with world_inv_update [OF assms(1-3)] show ?thesis by (auto simp: quiet_def)
qed

lemma conf_inv_quiet:
  "conf_inv c \<Longrightarrow> quiet (sc_world c) w \<Longrightarrow> conf_inv (set_world w c)"
  by (auto simp: conf_inv_def quiet_def) (meson less_le_trans)

lemma conf_inv_spawn:
  "conf_inv c \<Longrightarrow> ending t = None \<Longrightarrow> (\<And>i a d. t = Sending i a d \<Longrightarrow> a < length (w_heap (sc_world c))) \<Longrightarrow>
     conf_inv (spawn t c)"
  by (cases t) (auto simp: conf_inv_def)

lemma conf_inv_retire:
  "conf_inv c \<Longrightarrow> t \<in># sc_threads c \<Longrightarrow> ending t = None \<Longrightarrow> conf_inv (retire t c)"
  unfolding conf_inv_def by (auto simp: enders_retire) (meson in_diffD)

section \<open>Every step keeps the invariant\<close>

lemma quiet_new:
  assumes "world_inv w"
  shows "quiet w (snd (NewStreamSession m ty w))"
  using world_inv_new [OF assms, of m ty]
  by (auto simp: quiet_def NewStreamSession_def Let_def bufs_def unfinished_def nth_append
      new_session_def fun_eq_iff)

text \<open>
  All critical sections but the two halves of an end are quiet: they keep the queued data
  and do not change which sessions still owe a close of \<open>DoneChan\<close>.
\<close>

lemma registry_irrelevant [simp]:
  "bufs (w\<lparr>w_registry := r\<rparr>) = bufs w" "unfinished (w\<lparr>w_registry := r\<rparr>) = unfinished w"
  by (simp_all add: bufs_def unfinished_def fun_eq_iff)

lemma registry_heap_swap:
  "w\<lparr>w_registry := r, w_heap := h\<rparr> = w\<lparr>w_heap := h, w_registry := r\<rparr>"
  by simp

lemma quiet_unregister:
  "quiet w w' \<Longrightarrow> quiet w (w'\<lparr>w_registry := (w_registry w')(i := None)\<rparr>)"
  by (simp add: quiet_def world_inv_unregister)

lemma bufs_update_same:
  assumes "ch_buf (ss_data s) = ch_buf (ss_data (w_heap w ! a))"
  shows "bufs (w\<lparr>w_heap := (w_heap w)[a := s]\<rparr>) = bufs w"
proof
  fix b
  show "bufs (w\<lparr>w_heap := (w_heap w)[a := s]\<rparr>) b = bufs w b"
    using assms by (cases "b = a") (auto simp: bufs_def)
qed

lemma close_session_effect:
  "close_session s = Ret s' \<Longrightarrow> session_inv s \<Longrightarrow>
     session_inv s' \<and> ss_id s' = ss_id s \<and> ch_buf (ss_data s') = ch_buf (ss_data s) \<and>
     (ss_closed s' \<and> \<not> ss_done s') = (ss_closed s \<and> \<not> ss_done s)"
  by (auto simp: close_session_def close_input_def signal_close_def chan_close_def session_inv_def
      chan_wf_def go_simps split: if_splits)

lemma close_input_effect:
  "close_input s = Ret s' \<Longrightarrow> session_inv s \<Longrightarrow>
     session_inv s' \<and> ss_id s' = ss_id s \<and> ch_buf (ss_data s') = ch_buf (ss_data s) \<and>
     ss_closed s' = ss_closed s \<and> ss_done s' = ss_done s"
  by (auto simp: close_input_def chan_close_def session_inv_def chan_wf_def go_simps split: if_splits)

lemma quiet_close:
  assumes "world_inv w" "CloseStreamSession i w = Ret w'"
  shows "quiet w w'"
proof (cases "w_registry w i")
  case None
  then show ?thesis using assms quiet_refl by (simp add: CloseStreamSession_none)
next
  case (Some a)
  have inv: "session_inv (w_heap w ! a)" using world_invD [OF assms(1)] Some by blast
  obtain s' where s': "close_session (w_heap w ! a) = Ret s'"
    "w' = w\<lparr>w_registry := (w_registry w)(i := None), w_heap := (w_heap w)[a := s']\<rparr>"
    using CloseStreamSession_some [OF assms(1) Some] assms(2) by auto
  from close_session_effect [OF s'(1) inv]
  have "quiet w (w\<lparr>w_heap := (w_heap w)[a := s']\<rparr>)"
    by (intro quiet_update [OF assms(1)]) auto
  from quiet_unregister [OF this, of i] show ?thesis
    unfolding s'(2) registry_heap_swap by simp
qed

lemma quiet_close_input:
  assumes "world_inv w" "CloseStreamInput i w = Ret w'"
  shows "quiet w w'"
proof (cases "w_registry w i")
  case None
  then show ?thesis using assms quiet_refl by (simp add: CloseStreamInput_def GetStreamSession_def)
next
  case (Some a)
  have inv: "session_inv (w_heap w ! a)" using world_invD [OF assms(1)] Some by blast
  obtain s' where s': "(if \<not> ss_closed (w_heap w ! a) \<and> \<not> ss_input_closed (w_heap w ! a)
       then close_input (w_heap w ! a) else Ret (w_heap w ! a)) = Ret s'"
    "w' = w\<lparr>w_heap := (w_heap w)[a := s']\<rparr>"
    using assms(2) Some by (auto simp: CloseStreamInput_def GetStreamSession_def on_session_Ret)
  have "session_inv s' \<and> ss_id s' = ss_id (w_heap w ! a) \<and>
      ch_buf (ss_data s') = ch_buf (ss_data (w_heap w ! a)) \<and>
      ss_closed s' = ss_closed (w_heap w ! a) \<and> ss_done s' = ss_done (w_heap w ! a)"
    using s'(1) inv close_input_effect by (auto split: if_splits)
  then show ?thesis unfolding s'(2) by (intro quiet_update [OF assms(1)]) auto
qed

lemma quiet_set_field:
  assumes "world_inv w" "a < length (w_heap w) \<Longrightarrow> session_inv (f (w_heap w ! a))"
    and "ss_id (f (w_heap w ! a)) = ss_id (w_heap w ! a)"
    and "ss_data (f (w_heap w ! a)) = ss_data (w_heap w ! a)"
    and "ss_closed (f (w_heap w ! a)) = ss_closed (w_heap w ! a)"
    and "ss_done (f (w_heap w ! a)) = ss_done (w_heap w ! a)"
  shows "quiet w (update_session a f w)"
proof (cases "a < length (w_heap w)")
  case True
  with assms show ?thesis unfolding update_session_def by (intro quiet_update) auto
next
  case False
  then have "update_session a f w = w" by (simp add: update_session_def list_update_beyond)
  with assms(1) show ?thesis by (simp add: quiet_refl)
qed

lemma quiet_set_header: "world_inv w \<Longrightarrow> quiet w (SetHeader a k v w)"
  unfolding SetHeader_def using world_invD(1)
  by (intro quiet_set_field) (auto simp: session_inv_def)

lemma quiet_set_trailer: "world_inv w \<Longrightarrow> quiet w (SetTrailer a k v w)"
  unfolding SetTrailer_def using world_invD(1)
  by (intro quiet_set_field) (auto simp: session_inv_def)

lemma quiet_header:
  assumes "world_inv w" "SendHeader_lock a w = (r, w')"
  shows "quiet w w'"
proof -
  have "quiet w (update_session a (\<lambda>s. s\<lparr>ss_headers_sent := True\<rparr>) w)"
    using assms(1) world_invD(1) by (intro quiet_set_field) (auto simp: session_inv_def)
  with assms show ?thesis
    by (auto simp: SendHeader_lock_def Let_def quiet_refl split: if_splits)
qed

lemma quiet_ready:
  assumes "world_inv w" "SignalStreamReady i w = Ret w'"
  shows "quiet w w'"
proof (cases "w_registry w i")
  case None
  then show ?thesis using assms quiet_refl by (simp add: SignalStreamReady_def GetStreamSession_def)
next
  case (Some a)
  have "session_inv (w_heap w ! a)" using world_invD [OF assms(1)] Some by blast
  then have upd: "quiet w (w\<lparr>w_heap := (w_heap w)[a := (w_heap w ! a)\<lparr>ss_ready := True\<rparr>]\<rparr>)"
    by (intro quiet_update [OF assms(1)]) (auto simp: session_inv_def)
  show ?thesis using Some assms upd
    by (auto simp: SignalStreamReady_def GetStreamSession_def on_session_Ret signal_close_def
        go_simps quiet_refl split: if_splits)
qed

lemma quiet_emit [simp]: "world_inv w \<Longrightarrow> quiet w (emit es w)"
  by (simp add: quiet_def bufs_def unfinished_def fun_eq_iff)

lemma quiet_globals:
  assumes "world_inv w"
  shows "quiet w (SetStreamCallback cb w)" "quiet w (SetStreamCallbackFfi cb w)"
    "quiet w (SetDefaultStreamTimeout d w)"
  using assms
  by (simp_all add: quiet_def SetStreamCallback_def SetStreamCallbackFfi_def world_inv_def
      SetDefaultStreamTimeout_def bufs_def unfinished_def fun_eq_iff)

text \<open>The two halves of an end: the lock makes the session owe the close, the last step pays it.\<close>

lemma end_lock_effect:
  assumes "world_inv w" "a < length (w_heap w)" "end_lock a w = Ret (Some s, w')"
  shows "world_inv w'" "length (w_heap w') = length (w_heap w)" "bufs w' = bufs w"
    "\<not> unfinished w a" "unfinished w' = (unfinished w)(a := True)"
proof -
  have inv: "session_inv (w_heap w ! a)" by (rule world_invD(1) [OF assms(1,2)])
  from assms(3) have open_a: "\<not> ss_closed (w_heap w ! a)"
    by (auto simp: end_lock_def split: if_splits)
  then have not_done: "\<not> ss_done (w_heap w ! a)" using inv by (auto simp: session_inv_def)
  obtain s' where s': "close_input ((w_heap w ! a)\<lparr>ss_closed := True\<rparr>) = Ret s'"
    "w' = w\<lparr>w_heap := (w_heap w)[a := s']\<rparr>"
    using assms(3) open_a by (auto simp: end_lock_def go_simps)
  from s'(1) inv open_a not_done
  have e: "session_inv s' \<and> ss_id s' = ss_id (w_heap w ! a) \<and> ss_closed s' \<and> \<not> ss_done s' \<and>
      ch_buf (ss_data s') = ch_buf (ss_data (w_heap w ! a))"
    by (auto simp: close_input_def chan_close_def session_inv_def chan_wf_def go_simps split: if_splits)
  show "world_inv w'" unfolding s'(2) using e by (intro world_inv_update [OF assms(1)]) auto
  show "length (w_heap w') = length (w_heap w)" by (simp add: s'(2))
  show "\<not> unfinished w a" using open_a by (simp add: unfinished_def)
  show "bufs w' = bufs w" unfolding s'(2) using e by (intro bufs_update_same) simp
  show "unfinished w' = (unfinished w)(a := True)"
    using e assms(2) by (auto simp: s'(2) unfinished_def fun_eq_iff nth_list_update)
qed

lemma end_done_effect:
  assumes "world_inv w" "unfinished w a" "end_done a w = Ret w'"
  shows "world_inv w'" "length (w_heap w') = length (w_heap w)" "bufs w' = bufs w"
    "unfinished w' = (unfinished w)(a := False)"
proof -
  have a: "a < length (w_heap w)" using assms(2) by (simp add: unfinished_def)
  have inv: "session_inv (w_heap w ! a)" by (rule world_invD(1) [OF assms(1) a])
  have w': "w' = w\<lparr>w_heap := (w_heap w)[a := (w_heap w ! a)\<lparr>ss_done := True\<rparr>]\<rparr>"
    using assms(3) by (auto simp: end_done_def signal_close_def go_simps split: if_splits)
  show "world_inv w'" unfolding w' using inv assms(2)
    by (intro world_inv_update [OF assms(1)]) (auto simp: session_inv_def unfinished_def)
  show "length (w_heap w') = length (w_heap w)" by (simp add: w')
  show "bufs w' = bufs w" unfolding w' by (rule bufs_update_same) simp
  show "unfinished w' = (unfinished w)(a := False)"
    using a by (auto simp: w' unfinished_def fun_eq_iff nth_list_update)
qed

lemma conf_inv_begin_end:
  assumes "conf_inv c" "a < length (w_heap (sc_world c))" "end_lock a (sc_world c) = Ret (Some s, w)"
  shows "conf_inv (spawn (Calling es (Some a)) (set_world w c))"
    and "conf_inv (spawn (Reading a calls (Some a)) (set_world w c))"
  using assms(1) end_lock_effect [OF _ assms(2,3)]
  by (auto simp: conf_inv_def)

lemma conf_inv_finish_end:
  assumes "conf_inv c" "Calling [] (Some a) \<in># sc_threads c" "end_done a (sc_world c) = Ret w"
  shows "conf_inv (retire (Calling [] (Some a)) (set_world w c))"
proof -
  have "enders a c > 0"
    using assms(2) by (auto simp: enders_def dest!: multi_member_split)
  then have u: "unfinished (sc_world c) a" using assms(1) by (auto simp: conf_inv_def split: if_splits)
  have inv: "world_inv (sc_world c)" using assms(1) by (simp add: conf_inv_def)
  note e = end_done_effect [OF inv u assms(3)]
  show ?thesis using assms(1,2) e u
    unfolding conf_inv_def by (auto simp: enders_retire) (meson in_diffD)
qed

lemma conf_inv_call:
  assumes "conf_inv c" "Calling (e # es) f \<in># sc_threads c"
  shows "conf_inv (spawn (Calling es f) (retire (Calling (e # es) f) (set_world (emit [e] (sc_world c)) c)))"
proof -
  have "conf_inv (set_world (emit [e] (sc_world c)) c)"
    using assms(1) by (intro conf_inv_quiet quiet_emit) (auto simp: conf_inv_def)
  moreover have "enders a c > 0" if "f = Some a" for a
    using assms(2) that by (auto simp: enders_def dest!: multi_member_split)
  ultimately show ?thesis using assms(2)
    unfolding conf_inv_def by (auto simp: enders_retire split: if_splits) (meson in_diffD)+
qed

lemma conf_inv_read:
  assumes "conf_inv c" "Reading a calls f \<in># sc_threads c"
  shows "conf_inv (spawn (Calling es f) (retire (Reading a calls f) c))"
proof -
  have "enders b c > 0" if "f = Some b" for b
    using assms(2) that by (auto simp: enders_def dest!: multi_member_split)
  then show ?thesis using assms
    unfolding conf_inv_def by (auto simp: enders_retire split: if_splits) (meson in_diffD)+
qed

text \<open>The two channel operations move data between \<open>sc_sent\<close>, the buffer and \<open>sc_got\<close>.\<close>

lemma select_results:
  "r \<in> set (SendToStream_select i a d w) \<longleftrightarrow>
     (send_ready (ss_data (w_heap w ! a)) \<and>
      r = (if ch_closed (ss_data (w_heap w ! a)) then Panic SendOnClosed
           else Ret (None, w\<lparr>w_heap := (w_heap w)[a := (w_heap w ! a)
                  \<lparr>ss_data := (ss_data (w_heap w ! a))
                     \<lparr>ch_buf := ch_buf (ss_data (w_heap w ! a)) @ [d]\<rparr>\<rparr>]\<rparr>))) \<or>
     (ss_done (w_heap w ! a) \<and> r = Ret (Some (StreamIsClosed i), w))"
  by (auto simp: SendToStream_select_def Let_def on_session_def chan_send_def)

lemma conf_inv_sent:
  assumes "conf_inv c" "Sending i a d \<in># sc_threads c"
    and "Ret (None, w) \<in> set (SendToStream_select i a d (sc_world c))"
  shows "conf_inv (retire (Sending i a d) (set_world w c)\<lparr>sc_sent := (sc_sent c)(a := sc_sent c a @ [d])\<rparr>)"
proof -
  let ?w = "sc_world c" and ?s = "w_heap (sc_world c) ! a"
  have inv: "world_inv ?w" and a: "a < length (w_heap ?w)"
    using assms(1,2) by (auto simp: conf_inv_def)
  have si: "session_inv ?s" by (rule world_invD(1) [OF inv a])
  from assms(3) have ready: "send_ready (ss_data ?s)" "\<not> ch_closed (ss_data ?s)"
    and w: "w = ?w\<lparr>w_heap := (w_heap ?w)[a := ?s\<lparr>ss_data := (ss_data ?s)
               \<lparr>ch_buf := ch_buf (ss_data ?s) @ [d]\<rparr>\<rparr>]\<rparr>"
    by (auto simp: select_results split: if_splits)
  have "world_inv w" unfolding w using si ready
    by (intro world_inv_update [OF inv]) (auto simp: session_inv_def send_ready_def chan_wf_def)
  moreover have "bufs w = (bufs ?w)(a := bufs ?w a @ [d])"
    using a by (auto simp: w bufs_def fun_eq_iff nth_list_update)
  moreover have "unfinished w = unfinished ?w"
    using a by (auto simp: w unfinished_def fun_eq_iff nth_list_update)
  moreover have "length (w_heap w) = length (w_heap ?w)" by (simp add: w)
  ultimately show ?thesis using assms(1,2)
    unfolding conf_inv_def by (auto simp: enders_retire) (meson in_diffD)
qed

lemma conf_inv_recv:
  assumes "conf_inv c" "a < length (w_heap (sc_world c))"
    and "(Some d, w) \<in> set (RecvData a (sc_world c))"
  shows "conf_inv (set_world w c\<lparr>sc_got := (sc_got c)(a := sc_got c a @ [d])\<rparr>)"
proof -
  let ?w = "sc_world c" and ?s = "w_heap (sc_world c) ! a"
  have inv: "world_inv ?w" using assms(1) by (auto simp: conf_inv_def)
  have si: "session_inv ?s" by (rule world_invD(1) [OF inv assms(2)])
  from assms(3) obtain ds where buf: "ch_buf (ss_data ?s) = d # ds"
    and w: "w = ?w\<lparr>w_heap := (w_heap ?w)[a := ?s\<lparr>ss_data := (ss_data ?s)\<lparr>ch_buf := ds\<rparr>\<rparr>]\<rparr>"
    by (auto simp: RecvData_def Let_def split: prod.splits if_splits list.splits)
  have "world_inv w" unfolding w using si buf
    by (intro world_inv_update [OF inv]) (auto simp: session_inv_def chan_wf_def)
  moreover have "bufs ?w a = d # ds" using buf assms(2) by (simp add: bufs_def)
  moreover have "bufs w = (bufs ?w)(a := ds)"
    using assms(2) by (auto simp: w bufs_def fun_eq_iff nth_list_update)
  moreover have "unfinished w = unfinished ?w"
    using assms(2) by (auto simp: w unfinished_def fun_eq_iff nth_list_update)
  moreover have "length (w_heap w) = length (w_heap ?w)" by (simp add: w)
  ultimately show ?thesis using assms(1)
    unfolding conf_inv_def by auto
qed

lemma conf_inv_refused:
  assumes "conf_inv c" "Sending i a d \<in># sc_threads c"
    and "Ret (Some e, w) \<in> set (SendToStream_select i a d (sc_world c))"
  shows "conf_inv (retire (Sending i a d) (set_world w c))"
proof -
  have "w = sc_world c" using assms(3) by (auto simp: select_results split: if_splits)
  moreover have same: "set_world (sc_world c) c = c" by (simp add: set_world_def)
  ultimately show ?thesis using conf_inv_retire [OF assms(1,2)] by (simp only: same ending.simps)
qed

lemma stream_step_inv:
  assumes "stream_step ord sz marshal c c'" "conf_inv c"
  shows "conf_inv c'"
proof -
  have inv: "world_inv (sc_world c)" using assms(2) by (simp add: conf_inv_def)
  note q = conf_inv_quiet [OF assms(2)]
  from assms(1) show ?thesis
  proof cases
    case st_callback
    then show ?thesis by (simp only: q quiet_globals [OF inv])
  next
    case st_callback_ffi
    then show ?thesis by (simp only: q quiet_globals [OF inv])
  next
    case st_timeout
    then show ?thesis by (simp only: q quiet_globals [OF inv])
  next
    case st_new
    then show ?thesis by (simp only: q quiet_new [OF inv])
  next
    case st_close
    then show ?thesis using q quiet_close [OF inv] by blast
  next
    case st_close_input
    then show ?thesis using q quiet_close_input [OF inv] by blast
  next
    case st_ready
    then show ?thesis using q quiet_ready [OF inv] by blast
  next
    case (st_check i a d)
    then have "w_registry (sc_world c) i = Some a" by (simp add: SendToStream_check_Inr)
    then have "a < length (w_heap (sc_world c))" by (rule world_invD(2) [OF inv])
    then show ?thesis unfolding st_check(1) by (intro conf_inv_spawn [OF assms(2)]) auto
  next
    case st_sent
    then show ?thesis using conf_inv_sent [OF assms(2)] by blast
  next
    case st_refused
    then show ?thesis using conf_inv_refused [OF assms(2)] by blast
  next
    case st_recv
    then show ?thesis using conf_inv_recv [OF assms(2)] by blast
  next
    case st_data
    show ?thesis unfolding st_data(1) by (intro conf_inv_spawn [OF assms(2)]) auto
  next
    case st_data_ffi
    show ?thesis unfolding st_data_ffi(1) by (intro conf_inv_spawn [OF assms(2)]) auto
  next
    case st_close_send
    show ?thesis unfolding st_close_send(1) by (intro conf_inv_spawn [OF assms(2)]) auto
  next
    case st_set_header
    then show ?thesis by (simp only: q quiet_set_header [OF inv])
  next
    case st_set_trailer
    then show ?thesis by (simp only: q quiet_set_trailer [OF inv])
  next
    case st_header
    show ?thesis unfolding st_header(1)
      by (intro conf_inv_spawn q quiet_header [OF inv st_header(2)]) auto
  next
    case st_end
    then show ?thesis using conf_inv_begin_end [OF assms(2)] by blast
  next
    case st_read
    then show ?thesis using conf_inv_read [OF assms(2)] by blast
  next
    case st_error
    then show ?thesis using conf_inv_begin_end [OF assms(2)] by blast
  next
    case st_call
    then show ?thesis using conf_inv_call [OF assms(2)] by blast
  next
    case st_return
    then show ?thesis using conf_inv_retire [OF assms(2)] by simp
  next
    case st_done
    then show ?thesis using conf_inv_finish_end [OF assms(2)] by blast
  qed
qed

lemma stream_reachable_inv: "stream_reachable ord sz marshal c \<Longrightarrow> conf_inv c"
  by (induction rule: stream_reachable.induct) (auto intro: stream_step_inv)

lemma conf_inv_panics:
  assumes "conf_inv c" "stream_panics c p"
  shows "p = SendOnClosed \<and>
    (\<exists>i a d. Sending i a d \<in># sc_threads c \<and> a < length (w_heap (sc_world c)) \<and>
       ss_input_closed (w_heap (sc_world c) ! a))"
  using assms(2)
proof cases
  case (sp_done a)
  let ?w = "sc_world c"
  have "enders a c > 0" using sp_done(1) by (auto simp: enders_def dest!: multi_member_split)
  then have "unfinished ?w a" using assms(1) by (auto simp: conf_inv_def split: if_splits)
  with sp_done(2) show ?thesis
    by (auto simp: end_done_def unfinished_def signal_close_def go_simps split: if_splits)
next
  case (sp_end a)
  have inv: "world_inv (sc_world c)" using assms(1) by (simp add: conf_inv_def)
  have "session_inv (w_heap (sc_world c) ! a)" by (rule world_invD(1) [OF inv sp_end(1)])
  with sp_end(2) show ?thesis
    by (auto simp: end_lock_def close_input_def chan_close_def session_inv_def go_simps split: if_splits)
next
  case (sp_send i a d)
  have inv: "world_inv (sc_world c)" and a: "a < length (w_heap (sc_world c))"
    using assms(1) sp_send(1) by (auto simp: conf_inv_def)
  have "session_inv (w_heap (sc_world c) ! a)" by (rule world_invD(1) [OF inv a])
  with sp_send a show ?thesis
    by (auto simp: select_results session_inv_def split: if_splits)
next
  case (sp_close i)
  have "world_inv (sc_world c)" using assms(1) by (simp add: conf_inv_def)
  from CloseStreamSession_inv [OF this, of i] sp_close show ?thesis by auto
next
  case (sp_close_input i)
  have "world_inv (sc_world c)" using assms(1) by (simp add: conf_inv_def)
  from CloseStreamInput_inv [OF this, of i] sp_close_input show ?thesis by auto
next
  case (sp_ready i)
  have "world_inv (sc_world c)" using assms(1) by (simp add: conf_inv_def)
  from SignalStreamReady_inv [OF this, of i] sp_ready show ?thesis by auto
qed

end
