(* ===== verification/StreamProps.thy ===== *)
theory StreamProps
  imports StreamSteps
begin

text \<open>
  What the stream sessions guarantee: which panics are possible under concurrency, that
  data is delivered in order, that \<open>DoneChan\<close> is closed exactly once, that handles are
  distinct, and what ending a stream does.
\<close>

section \<open>Two concrete runs\<close>

definition demo_session :: session where
  "demo_session = new_session 1 ''/pkg.S/Bidi'' StreamTypeBidiStream init_world"

definition demo_conf :: stream_conf where
  "demo_conf = set_world (init_world\<lparr>w_next := 1, w_heap := [demo_session],
     w_registry := [1 \<mapsto> 0]\<rparr>) init_conf"

lemma demo_reachable: "stream_reachable ord sz marshal demo_conf"
proof -
  have "stream_step ord sz marshal init_conf
      (set_world (snd (NewStreamSession ''/pkg.S/Bidi'' StreamTypeBidiStream (sc_world init_conf))) init_conf)"
    by (rule st_new)
  moreover have "set_world (snd (NewStreamSession ''/pkg.S/Bidi'' StreamTypeBidiStream (sc_world init_conf))) init_conf
      = demo_conf"
    by (simp add: NewStreamSession_def Let_def demo_conf_def init_conf_def init_world_def
        demo_session_def new_session_def set_world_def)
  ultimately show ?thesis by (metis sr_init sr_step)
qed

text \<open>An isolate is past the check of \<open>SendToStream\<close> when the handler ends the stream.\<close>

definition race_conf :: stream_conf where
  "race_conf = spawn (Calling [] (Some 0)) (set_world
     (init_world\<lparr>w_next := 1, w_registry := [1 \<mapsto> 0],
        w_heap := [demo_session\<lparr>ss_closed := True, ss_input_closed := True,
                     ss_data := (make_chan 100)\<lparr>ch_closed := True\<rparr>\<rparr>]\<rparr>)
     (spawn (Sending 1 0 [7]) demo_conf))"

lemma race_reachable: "stream_reachable ord sz marshal race_conf"
proof -
  let ?c = "spawn (Sending 1 0 [7]) demo_conf"
  have "stream_step ord sz marshal demo_conf ?c"
    by (rule st_check)
       (simp add: SendToStream_check_def GetStreamSession_def demo_conf_def set_world_def
          demo_session_def new_session_def init_world_def init_conf_def)
  then have r: "stream_reachable ord sz marshal ?c" using demo_reachable sr_step by metis
  let ?w = "sc_world race_conf"
  let ?m = "spawn (Reading 0 (EndStream_calls ord (w_heap ?w ! 0)) (Some 0)) (set_world ?w ?c)"
  have len: "0 < length (w_heap (sc_world ?c))"
    by (simp add: demo_conf_def set_world_def init_conf_def init_world_def)
  have lock: "end_lock 0 (sc_world ?c) = Ret (Some (w_heap ?w ! 0), ?w)"
    by (simp add: end_lock_def on_session_def close_input_def chan_close_def race_conf_def
        demo_conf_def demo_session_def new_session_def init_world_def init_conf_def)
  have calls: "EndStream_calls ord (w_heap ?w ! 0) s = []" for s
    by (simp add: EndStream_calls_def race_conf_def call_back_def demo_session_def
        new_session_def init_world_def)
  have "race_conf = spawn (Calling [] (Some 0))
      (retire (Reading 0 (EndStream_calls ord (w_heap ?w ! 0)) (Some 0)) ?m)"
    by (simp add: race_conf_def spawn_def retire_def set_world_def)
  then have "stream_step ord sz marshal ?m race_conf"
    using st_read [of 0 "EndStream_calls ord (w_heap ?w ! 0)" "Some 0" ?m ord sz marshal] calls by simp
  moreover have "stream_reachable ord sz marshal ?m"
    using sr_step [OF r st_end [OF len lock]] .
  ultimately show ?thesis by (metis sr_step)
qed

lemma race_panics: "stream_panics race_conf SendOnClosed"
  by (rule sp_send [of 1 0 "[7]"])
     (simp_all add: race_conf_def select_results send_ready_def)

text \<open>One chunk goes through a session.\<close>

definition sent_conf :: stream_conf where
  "sent_conf = demo_conf
     \<lparr>sc_world := init_world\<lparr>w_next := 1, w_registry := [1 \<mapsto> 0],
        w_heap := [demo_session\<lparr>ss_data := (make_chan 100)\<lparr>ch_buf := [[7]]\<rparr>\<rparr>]\<rparr>,
      sc_sent := (\<lambda>_. [])(0 := [[7]])\<rparr>"

lemma sent_reachable: "stream_reachable ord sz marshal sent_conf"
proof -
  let ?c = "spawn (Sending 1 0 [7]) demo_conf"
  have "stream_step ord sz marshal demo_conf ?c"
    by (rule st_check)
       (simp add: SendToStream_check_def GetStreamSession_def demo_conf_def set_world_def
          demo_session_def new_session_def init_world_def init_conf_def)
  then have r: "stream_reachable ord sz marshal ?c" using demo_reachable sr_step by metis
  have sel: "Ret (None, sc_world sent_conf) \<in> set (SendToStream_select 1 0 [7] (sc_world ?c))"
    by (simp add: select_results sent_conf_def demo_conf_def demo_session_def new_session_def
        send_ready_def init_world_def)
  have "sent_conf = retire (Sending 1 0 [7]) (set_world (sc_world sent_conf) ?c)
      \<lparr>sc_sent := (sc_sent ?c)(0 := sc_sent ?c 0 @ [[7]])\<rparr>"
    by (simp add: sent_conf_def demo_conf_def retire_def set_world_def spawn_def init_conf_def)
  with st_sent [OF _ sel, of ord sz marshal] have "stream_step ord sz marshal ?c sent_conf" by simp
  with r show ?thesis by (rule sr_step)
qed

section \<open>Concurrency\<close>

text \<open>
  C3. Under any interleaving of the stream operations, closing a session, closing its
  input, signalling readiness, ending a stream and closing \<open>DoneChan\<close> never panic (no
  channel is closed twice). The only panic there can be is that of a \<open>SendToStream\<close> that
  passed its check before the input of its session was closed.
\<close>

theorem stream_only_send_panics:
  assumes "stream_reachable ord sz marshal c" and "stream_panics c p"
  shows "p = SendOnClosed \<and>
    (\<exists>i a d. Sending i a d \<in># sc_threads c \<and> a < length (w_heap (sc_world c)) \<and>
       ss_input_closed (w_heap (sc_world c) ! a))"
  by (rule conf_inv_panics [OF stream_reachable_inv [OF assms(1)] assms(2)])

theorem stream_only_send_panics_witness:
  "stream_reachable id (\<lambda>m :: bytes. length m) Some race_conf \<and>
   stream_panics race_conf SendOnClosed \<and>
   (\<exists>i a d. Sending i a d \<in># sc_threads race_conf \<and> a < length (w_heap (sc_world race_conf)) \<and>
      ss_input_closed (w_heap (sc_world race_conf) ! a))"
  using stream_only_send_panics [OF race_reachable [of id "\<lambda>m :: bytes. length m" Some] race_panics]
    race_reachable race_panics by blast

text \<open>
  That panic does happen: there is a run in which \<open>SendToStream\<close> has released the
  mutex after reading \<open>inputClosed = false\<close>, the handler then ends the stream, and the
  pending send panics (the mutex does not cover the send).
\<close>

theorem stream_send_race:
  "\<exists>c i a d. stream_reachable ord sz marshal c \<and> Sending i a d \<in># sc_threads c \<and>
     SendToStream_check i (sc_world c) = Inl (InputIsClosed i) \<and>
     SendToStream_select i a d (sc_world c) = [Panic SendOnClosed]"
proof (intro exI conjI)
  show "stream_reachable ord sz marshal race_conf" by (rule race_reachable)
  show "Sending 1 0 [7] \<in># sc_threads race_conf" by (simp add: race_conf_def)
  show "SendToStream_check 1 (sc_world race_conf) = Inl (InputIsClosed 1)"
    by (simp add: race_conf_def SendToStream_check_def GetStreamSession_def)
  show "SendToStream_select 1 0 [7] (sc_world race_conf) = [Panic SendOnClosed]"
    by (simp add: race_conf_def SendToStream_select_def Let_def on_session_def chan_send_def
        send_ready_def demo_session_def new_session_def)
qed

text \<open>
  C4. Chunks are neither lost, duplicated nor reordered: what was accepted from Dart is what
  the session's handler has received so far, followed by the contents of the session's
  channel, which never holds more than 100 chunks. This holds under any interleaving, also
  when the input or the stream is closed with chunks still queued; and the handler is told
  of the end of its input only when the input is closed and it has received everything.
\<close>

theorem stream_fifo:
  assumes "stream_reachable ord sz marshal c" and "a < length (w_heap (sc_world c))"
  shows "sc_sent c a = sc_got c a @ ch_buf (ss_data (w_heap (sc_world c) ! a)) \<and>
    length (ch_buf (ss_data (w_heap (sc_world c) ! a))) \<le> 100 \<and>
    (\<forall>w. (None, w) \<in> set (RecvData a (sc_world c)) \<longrightarrow>
       ss_input_closed (w_heap (sc_world c) ! a) \<and> sc_got c a = sc_sent c a)"
proof -
  have inv: "conf_inv c" by (rule stream_reachable_inv [OF assms(1)])
  have si: "session_inv (w_heap (sc_world c) ! a)"
    using inv world_invD(1) assms(2) by (auto simp: conf_inv_def)
  have sent: "sc_sent c a = sc_got c a @ ch_buf (ss_data (w_heap (sc_world c) ! a))"
    using inv assms(2) by (simp add: conf_inv_def bufs_def)
  with si show ?thesis
    by (auto simp: session_inv_def chan_wf_def RecvData_def Let_def recv_ready_def
        split: if_splits list.splits)
qed

theorem stream_fifo_witness:
  "stream_reachable id (\<lambda>m :: bytes. length m) Some sent_conf \<and> sc_sent sent_conf 0 = [[7]] \<and>
   sc_got sent_conf 0 @ ch_buf (ss_data (w_heap (sc_world sent_conf) ! 0)) = [[7]]"
  using stream_fifo [OF sent_reachable [of id "\<lambda>m :: bytes. length m" Some], of 0]
    sent_reachable [of id "\<lambda>m :: bytes. length m" Some]
  by (simp add: sent_conf_def)

text \<open>
  \<open>DoneChan\<close> is closed exactly once per closed session: while a session is closed but
  not done, exactly one thread is on its way to close the channel, no thread is for any
  other session, and once no thread is left every closed session has \<open>DoneChan\<close> closed.
\<close>

theorem stream_done_once:
  assumes "stream_reachable ord sz marshal c" and "a < length (w_heap (sc_world c))"
  shows "size {# t \<in># sc_threads c. ending t = Some a #} =
           (if ss_closed (w_heap (sc_world c) ! a) \<and> \<not> ss_done (w_heap (sc_world c) ! a) then 1 else 0) \<and>
         (sc_threads c = {#} \<longrightarrow>
           ss_done (w_heap (sc_world c) ! a) = ss_closed (w_heap (sc_world c) ! a))"
proof -
  have inv: "conf_inv c" by (rule stream_reachable_inv [OF assms(1)])
  then have si: "session_inv (w_heap (sc_world c) ! a)"
    using world_invD(1) assms(2) by (auto simp: conf_inv_def)
  have eq: "size {# t \<in># sc_threads c. ending t = Some a #} =
      (if ss_closed (w_heap (sc_world c) ! a) \<and> \<not> ss_done (w_heap (sc_world c) ! a) then 1 else 0)"
    using inv assms(2) by (simp add: conf_inv_def enders_def unfinished_def)
  with si show ?thesis by (auto simp: session_inv_def split: if_splits)
qed

theorem stream_done_once_witness:
  "size {# t \<in># sc_threads race_conf. ending t = Some 0 #} = 1 \<and>
   ss_done (w_heap (sc_world demo_conf) ! 0) = ss_closed (w_heap (sc_world demo_conf) ! 0)"
proof -
  have "0 < length (w_heap (sc_world race_conf))" by (simp add: race_conf_def)
  from stream_done_once [OF race_reachable [of id "\<lambda>m :: bytes. length m" Some] this]
  have "size {# t \<in># sc_threads race_conf. ending t = Some 0 #} = 1"
    by (simp add: race_conf_def demo_session_def new_session_def)
  moreover have demo: "0 < length (w_heap (sc_world demo_conf))" "sc_threads demo_conf = {#}"
    by (simp_all add: demo_conf_def init_conf_def)
  from stream_done_once [OF demo_reachable [of id "\<lambda>m :: bytes. length m" Some] demo(1)] demo(2)
  have "ss_done (w_heap (sc_world demo_conf) ! 0) = ss_closed (w_heap (sc_world demo_conf) ! 0)"
    by simp
  ultimately show ?thesis by blast
qed

section \<open>Single operations\<close>

definition demo_world :: world where
  "demo_world = sc_world demo_conf"

lemma demo_world_inv: "world_inv demo_world" "ids_inv demo_world"
  by (auto simp: demo_world_def demo_conf_def world_inv_def ids_inv_def demo_session_def
      session_inv_def new_session_def init_world_def chan_wf_def)

lemma demo_world_simps:
  "w_heap demo_world = [demo_session]" "w_registry demo_world = [1 \<mapsto> 0]" "w_next demo_world = 1"
  "w_out demo_world = []"
  by (simp_all add: demo_world_def demo_conf_def init_world_def)

lemma demo_session_simps:
  "\<not> ss_closed demo_session" "\<not> ss_input_closed demo_session" "\<not> ss_done demo_session"
  "ss_id demo_session = 1" "ss_data demo_session = make_chan 100" "ss_callback demo_session = None"
  "ss_callback_ffi demo_session = None" "ss_headers demo_session = []" "ss_trailers demo_session = []"
  by (simp_all add: demo_session_def new_session_def init_world_def)

text \<open>
  Sending to a live stream: with its input closed it is refused and changes nothing;
  otherwise it appends the chunk to the session's queue while there is room for it among
  100 chunks, and blocks when there is none.
\<close>

lemma SendToStream_spec:
  assumes "world_inv w" and "GetStreamSession i w = Some a"
  shows "SendToStream i d w =
    (let s = w_heap w ! a in
     if ss_input_closed s then [Ret (Some (InputIsClosed i), w)]
     else if length (ch_buf (ss_data s)) < 100
     then [Ret (None, w\<lparr>w_heap := (w_heap w)[a :=
             s\<lparr>ss_data := (ss_data s)\<lparr>ch_buf := ch_buf (ss_data s) @ [d]\<rparr>\<rparr>]\<rparr>)]
     else [])"
proof -
  have "session_inv (w_heap w ! a)"
    using world_invD [OF assms(1)] assms(2) by (auto simp: GetStreamSession_def)
  with assms(2) show ?thesis
    by (auto simp: SendToStream_def SendToStream_check_def SendToStream_select_def Let_def
        session_inv_def on_session_def chan_send_def send_ready_def)
qed

text \<open>
  C19. Ending an open stream sends the trailers, if there are any, and then the end
  message, closes the session, its input and \<open>DoneChan\<close>, and is final: ending or failing
  it again changes nothing, sending from it or closing its send side is refused without a
  callback, and sending to it is refused.
\<close>

theorem EndStream_final:
  assumes "world_inv w" and "GetStreamSession i w = Some a"
    and "\<not> ss_closed (w_heap w ! a)" and "ss_callback (w_heap w ! a) = Some k"
  shows "\<exists>w'. EndStream ord a w = Ret w' \<and>
     w_out w' = w_out w @
       (if ss_trailers (w_heap w ! a) = [] then []
        else [Call k i StreamMsgTrailer (encode_pairs (ord (ss_trailers (w_heap w ! a))))])
       @ [Call k i StreamMsgEnd []] \<and>
     ss_closed (w_heap w' ! a) \<and> ss_input_closed (w_heap w' ! a) \<and> ss_done (w_heap w' ! a) \<and>
     EndStream ord a w' = Ret w' \<and> ErrorStream a msg w' = Ret w' \<and>
     SendFromStream a d w' = (Some (StreamIsClosed i), w') \<and>
     CloseSend a w' = (Some (StreamIsClosed i), w') \<and>
     SendToStream i d w' = [Ret (Some (InputIsClosed i), w')]"
proof -
  let ?s = "w_heap w ! a"
  have reg: "w_registry w i = Some a" using assms(2) by (simp add: GetStreamSession_def)
  have a: "a < length (w_heap w)" and id: "ss_id ?s = i"
    using world_invD(2,3) [OF assms(1) reg] by auto
  have inv: "session_inv ?s" by (rule world_invD(1) [OF assms(1) a])
  then have "\<not> ss_done ?s" using assms(3) by (auto simp: session_inv_def)
  moreover obtain s' where s': "close_input (?s\<lparr>ss_closed := True\<rparr>) = Ret s'"
    "ss_closed s'" "ss_input_closed s'" "ss_done s' = ss_done ?s" "ss_callback s' = ss_callback ?s"
    "ss_trailers s' = ss_trailers ?s" "ss_id s' = ss_id ?s"
    using inv assms(3) by (auto simp: close_input_def chan_close_def session_inv_def)
  ultimately show ?thesis using assms(3,4) a id reg
    by (auto simp: EndStream_def ErrorStream_def end_lock_def end_done_def on_session_def
        signal_close_def EndStream_calls_def call_back_def SendFromStream_def
        SendFromStream_lock_def CloseSend_def CloseSend_lock_def Let_def SendToStream_def
        SendToStream_check_def GetStreamSession_def)
qed

definition demo_world_cb :: world where
  "demo_world_cb = demo_world\<lparr>w_heap :=
     [demo_session\<lparr>ss_callback := Some 5, ss_trailers := [(''x'', ''y'')]\<rparr>]\<rparr>"

lemma demo_world_cb_inv: "world_inv demo_world_cb"
  using demo_world_inv(1)
  by (auto simp: demo_world_cb_def world_inv_def demo_world_simps session_inv_def demo_session_simps)

theorem EndStream_final_witness:
  "\<exists>w'. EndStream id 0 demo_world_cb = Ret w' \<and>
     w_out w' = [Call 5 1 StreamMsgTrailer (str_bytes ''x=y'' @ [10]), Call 5 1 StreamMsgEnd []] \<and>
     SendFromStream 0 [1] w' = (Some (StreamIsClosed 1), w')"
proof -
  have "GetStreamSession 1 demo_world_cb = Some 0" "\<not> ss_closed (w_heap demo_world_cb ! 0)"
    "ss_callback (w_heap demo_world_cb ! 0) = Some 5"
    by (simp_all add: GetStreamSession_def demo_world_cb_def demo_world_simps demo_session_simps)
  from EndStream_final [OF demo_world_cb_inv this, of id "[]" "[1]"] show ?thesis
    by (auto simp: demo_world_cb_def demo_world_simps encode_pairs_def str_bytes_def)
qed

text \<open>
  C38. Handles are unique while they last: sessions opened one after another, as long as
  the 64-bit counter does not wrap, get pairwise different handles, none of which was live
  before, and all of them are live afterwards.
\<close>

theorem stream_handles_distinct:
  assumes "world_inv w" and "ids_inv w" and "length xs \<le> 2 ^ 64 - 1 - unat (w_next w)"
  shows "distinct (fst (alloc_all session_alloc xs w)) \<and>
    (\<forall>h \<in> set (fst (alloc_all session_alloc xs w)).
       GetStreamSession h w = None \<and> GetStreamSession h (snd (alloc_all session_alloc xs w)) \<noteq> None)"
  using assms by (intro sessions.alloc_all_distinct) (simp_all add: session_room_def)

theorem stream_handles_distinct_witness:
  "world_inv demo_world \<and>
   distinct (fst (alloc_all session_alloc [(''a'', StreamTypeServerStream), (''b'', StreamTypeBidiStream)] demo_world)) \<and>
   fst (alloc_all session_alloc [(''a'', StreamTypeServerStream), (''b'', StreamTypeBidiStream)] demo_world) = [2, 3]"
proof -
  have "length [(''a'', StreamTypeServerStream), (''b'', StreamTypeBidiStream)]
      \<le> 2 ^ 64 - 1 - unat (w_next demo_world)"
    by (simp add: demo_world_simps)
  from stream_handles_distinct [OF demo_world_inv this] show ?thesis
    by (simp add: demo_world_inv session_alloc_simp Let_def demo_world_simps)
qed

text \<open>
  Dispatching a server stream: with no handler for the method the result is -1 and
  nothing changes; otherwise the handle is positive, is registered to a new open session
  of the method that has captured the current callbacks, every other handle keeps its
  session, and the goroutine started is the handler with the request data on that session.
\<close>

theorem HandleServerStream_spec:
  assumes "unat (w_next w) < 2 ^ 63 - 1"
  shows "case h_server r m of
     None \<Rightarrow> HandleServerStream r m d w = (- 1, None, w)
   | Some h \<Rightarrow>
       (\<exists>i a w'. HandleServerStream r m d w = (i, Some (a, ServerTask h d), w') \<and>
          0 < sint i \<and> GetStreamSession i w' = Some a \<and>
          ss_method (w_heap w' ! a) = m \<and> ss_type (w_heap w' ! a) = StreamTypeServerStream \<and>
          ss_callback (w_heap w' ! a) = w_callback w \<and>
          ss_callback_ffi (w_heap w' ! a) = w_callback_ffi w \<and>
          \<not> ss_closed (w_heap w' ! a) \<and> ch_buf (ss_data (w_heap w' ! a)) = [] \<and>
          (\<forall>j. j \<noteq> i \<longrightarrow> GetStreamSession j w' = GetStreamSession j w) \<and>
          (\<forall>b. b < length (w_heap w) \<longrightarrow> w_heap w' ! b = w_heap w ! b))"
proof (cases "h_server r m")
  case None
  then show ?thesis by (simp add: HandleServerStream_def)
next
  case (Some h)
  have up: "unat (w_next w + 1) = Suc (unat (w_next w))"
    using assms by (simp add: unat_plus_one_less)
  then have "0 < sint (w_next w + 1)"
    using assms sint_small [of "w_next w + 1"] by linarith
  with Some show ?thesis
    by (simp add: HandleServerStream_def StartServerStream_def start_stream_def NewStreamSession_def
        Let_def GetStreamSession_def new_session_def nth_append)
qed

definition demo_handlers :: "nat handlers" where
  "demo_handlers = RegisterServerStreamHandler ''/pkg.S/Dl'' 3
     \<lparr>h_server = Map.empty, h_client = Map.empty, h_bidi = Map.empty\<rparr>"

theorem HandleServerStream_spec_witness:
  "unat (w_next demo_world) < 2 ^ 63 - 1 \<and>
   (\<exists>i a w'. HandleServerStream demo_handlers ''/pkg.S/Dl'' [9] demo_world
       = (i, Some (a, ServerTask 3 [9]), w') \<and> 0 < sint i \<and> GetStreamSession i w' = Some a) \<and>
   HandleServerStream demo_handlers ''/other'' [9] demo_world = (- 1, None, demo_world)"
proof -
  have b: "unat (w_next demo_world) < 2 ^ 63 - 1" by (simp add: demo_world_simps)
  have h: "h_server demo_handlers ''/pkg.S/Dl'' = Some 3" "h_server demo_handlers ''/other'' = None"
    by (simp_all add: demo_handlers_def RegisterServerStreamHandler_def)
  show ?thesis
    using HandleServerStream_spec [OF b, of demo_handlers "''/pkg.S/Dl''" "[9]"]
      HandleServerStream_spec [OF b, of demo_handlers "''/other''" "[9]"] b
    unfolding h by auto
qed

text \<open>
  Headers go out at most once: the first \<open>SendHeader\<close> makes one callback with all the
  headers set so far (none when there are none), and any later one, whatever headers are
  set in between, makes no callback.
\<close>

theorem SendHeader_once:
  assumes "a < length (w_heap w)" and "\<not> ss_headers_sent (w_heap w ! a)"
  shows "w_out (SendHeader ord a w) = w_out w @
      (case (ss_headers (w_heap w ! a), ss_callback (w_heap w ! a)) of
         (h # hs, Some k) \<Rightarrow> [Call k (ss_id (w_heap w ! a)) StreamMsgHeader (encode_pairs (ord (h # hs)))]
       | _ \<Rightarrow> []) \<and>
    w_out (SendHeader ord a (SetHeader a key v (SendHeader ord a w))) = w_out (SendHeader ord a w)"
  using assms
  by (auto simp: SendHeader_def SendHeader_lock_def SendHeader_calls_def Let_def update_session_def SetHeader_def
      call_back_def emit_def split: list.splits option.splits)

theorem SendHeader_once_witness:
  "\<not> ss_headers_sent (w_heap demo_world_cb ! 0) \<and>
   w_out (SendHeader id 0 (SetHeader 0 ''a'' ''b'' demo_world_cb)) =
     [Call 5 1 StreamMsgHeader (str_bytes ''a=b'' @ [10])]"
proof -
  have b: "0 < length (w_heap (SetHeader 0 ''a'' ''b'' demo_world_cb))"
    "\<not> ss_headers_sent (w_heap (SetHeader 0 ''a'' ''b'' demo_world_cb) ! 0)"
    by (simp_all add: SetHeader_def update_session_def demo_world_cb_def demo_session_def new_session_def)
  from SendHeader_once [OF b, of id "''c''" "''d''"] b(2) show ?thesis
    by (simp add: SetHeader_def update_session_def demo_world_cb_def demo_world_simps
        demo_session_def new_session_def encode_pairs_def str_bytes_def)
qed





end
