(* ===== verification/Requests.thy ===== *)
theory Requests
  imports Channels Handles "HOL-Library.AList"
begin

text \<open>
  Go-to-Dart requests (\<open>pkg/service/ffi_utils.go\<close>): the table of pending requests of a
  \<open>RequestHandler\<close>, with the response channel of each request in an explicit heap, and the
  \<open>DartCallbackManager\<close>. An operation that releases \<open>pendingMu\<close> before its channel
  operation is split there; the second half of the theory is the step relation of all
  interleavings and its invariant.
\<close>

section \<open>The request handler\<close>

text \<open>A Go \<open>[]byte\<close> that may be nil: \<open>None\<close> is nil.\<close>

type_synonym response = "bytes option"

record req_handler =
  rh_pending :: "(int64 \<times> nat) list"
  rh_next :: int64
  rh_timeout :: int
  rh_chans :: "response chan list"

definition NewRequestHandler :: "int \<Rightarrow> req_handler" where
  "NewRequestHandler timeout = \<lparr>rh_pending = [], rh_next = 0, rh_timeout = timeout, rh_chans = []\<rparr>"

definition DefaultRequestHandler :: req_handler where
  "DefaultRequestHandler = NewRequestHandler (10 * 1000000000)"

text \<open>The map \<open>pending\<close> is its list of entries; the channel is a fresh heap cell.\<close>

definition CreateRequest :: "req_handler \<Rightarrow> (int64 \<times> nat) \<times> req_handler" where
  "CreateRequest h =
     (let requestId = rh_next h + 1; ch = length (rh_chans h) in
      ((requestId, ch),
       h\<lparr>rh_next := requestId, rh_chans := rh_chans h @ [make_chan 1],
         rh_pending := AList.update requestId ch (rh_pending h)\<rparr>))"

datatype wait_result = Response response | WaitTimeout

text \<open>
  \<open>WaitForResponse\<close>: the select between the response and the timer (\<open>fired\<close>: the timer
  has gone off), and the removal of the request under the lock after a timeout.
\<close>

definition WaitForResponse_select :: "nat \<Rightarrow> bool \<Rightarrow> req_handler \<Rightarrow> (wait_result \<times> req_handler) list" where
  "WaitForResponse_select ch fired h =
     (let (v, c) = chan_recv (rh_chans h ! ch) in
      select_ready
        [(recv_ready (rh_chans h ! ch),
           (Response (case v of Some d \<Rightarrow> d | None \<Rightarrow> None), h\<lparr>rh_chans := (rh_chans h)[ch := c]\<rparr>)),
         (fired, (WaitTimeout, h))])"

definition remove_pending :: "int64 \<Rightarrow> req_handler \<Rightarrow> req_handler" where
  "remove_pending requestId h = h\<lparr>rh_pending := AList.delete requestId (rh_pending h)\<rparr>"

definition WaitForResponse :: "int64 \<Rightarrow> nat \<Rightarrow> bool \<Rightarrow> req_handler \<Rightarrow> (wait_result \<times> req_handler) list" where
  "WaitForResponse requestId ch fired h =
     map (\<lambda>(r, h'). (r, if r = WaitTimeout then remove_pending requestId h' else h'))
       (WaitForResponse_select ch fired h)"

text \<open>\<open>HandleResponse\<close>: the lookup and delete under the lock, then the send.\<close>

definition HandleResponse_lock :: "int64 \<Rightarrow> req_handler \<Rightarrow> nat option \<times> req_handler" where
  "HandleResponse_lock requestId h =
     (case map_of (rh_pending h) requestId of
        Some ch \<Rightarrow> (Some ch, remove_pending requestId h)
      | None \<Rightarrow> (None, h))"

definition HandleResponse_send :: "nat \<Rightarrow> response \<Rightarrow> req_handler \<Rightarrow> req_handler outcome list" where
  "HandleResponse_send ch data h =
     select_ready
       [(send_ready (rh_chans h ! ch),
         bind_outcome (chan_send data (rh_chans h ! ch))
           (\<lambda>c. Ret (h\<lparr>rh_chans := (rh_chans h)[ch := c]\<rparr>)))]"

definition HandleResponse :: "int64 \<Rightarrow> response \<Rightarrow> req_handler \<Rightarrow> req_handler outcome list" where
  "HandleResponse requestId data h =
     (case HandleResponse_lock requestId h of
        (Some ch, h') \<Rightarrow> HandleResponse_send ch data h'
      | (None, h') \<Rightarrow> [Ret h'])"

text \<open>
  \<open>CleanupPending\<close> holds the lock throughout. Go visits the entries of the map in an
  unspecified order: \<open>es\<close> is the list of its entries in the order of this run.
\<close>

definition cleanup_one :: "int64 \<times> nat \<Rightarrow> req_handler \<Rightarrow> req_handler" where
  "cleanup_one e h =
     (let c = rh_chans h ! snd e;
          h' = (if send_ready c
                then (case chan_send None c of
                        Ret c' \<Rightarrow> h\<lparr>rh_chans := (rh_chans h)[snd e := c']\<rparr>
                      | Panic p \<Rightarrow> h)
                else h)
      in remove_pending (fst e) h')"

definition CleanupPending :: "(int64 \<times> nat) list \<Rightarrow> req_handler \<Rightarrow> req_handler" where
  "CleanupPending es h = fold cleanup_one es h"

section \<open>The callback manager\<close>

text \<open>\<open>DartCallbackManager\<close>: the callback is a parameter of the model.\<close>

type_synonym 'e dart_callback = "string \<Rightarrow> bytes \<Rightarrow> 'e + response"

datatype 'e invoke_error = CallbackIsNil | CallbackError 'e

definition NewDartCallbackManager :: "'e dart_callback option" where
  "NewDartCallbackManager = None"

definition SetCallback :: "'e dart_callback option \<Rightarrow> 'e dart_callback option \<Rightarrow> 'e dart_callback option" where
  "SetCallback cb m = cb"

definition GetCallback :: "'e dart_callback option \<Rightarrow> 'e dart_callback option" where
  "GetCallback m = m"

definition Invoke_callback :: "string \<Rightarrow> bytes \<Rightarrow> 'e dart_callback option \<Rightarrow> 'e invoke_error + response" where
  "Invoke_callback method data m =
     (case m of None \<Rightarrow> Inl CallbackIsNil
      | Some cb \<Rightarrow> (case cb method data of Inl e \<Rightarrow> Inl (CallbackError e) | Inr r \<Rightarrow> Inr r))"

section \<open>Interleavings\<close>

text \<open>
  A thread of the request handler: \<open>Waiting i a\<close> is in \<open>WaitForResponse\<close> at its select,
  \<open>TimedOut i\<close> is after the timer and before the delete, \<open>Responding i a d\<close> is in
  \<open>HandleResponse\<close> between its critical section and its send. The configuration keeps, as
  history, the identifier each channel was made for, the responses accepted (with the nil
  of a cleanup), and what waiters returned.
\<close>

datatype req_thread = Waiting int64 nat | TimedOut int64 | Responding nat response

record req_conf =
  rc_handler :: req_handler
  rc_threads :: "req_thread multiset"
  rc_ids :: "int64 list"
  rc_accepted :: "(int64 \<times> response) set"
  rc_got :: "nat \<Rightarrow> response list"

definition req_init :: "int \<Rightarrow> req_conf" where
  "req_init t = \<lparr>rc_handler = NewRequestHandler t, rc_threads = {#}, rc_ids = [], rc_accepted = {},
     rc_got = (\<lambda>_. [])\<rparr>"

inductive req_step :: "req_conf \<Rightarrow> req_conf \<Rightarrow> bool" where
  rq_create: "CreateRequest (rc_handler c) = ((i, a), h) \<Longrightarrow>
     req_step c (c\<lparr>rc_handler := h, rc_ids := rc_ids c @ [i],
       rc_threads := add_mset (Waiting i a) (rc_threads c)\<rparr>)"
| rq_received: "Waiting i a \<in># rc_threads c \<Longrightarrow>
     (Response d, h) \<in> set (WaitForResponse_select a fired (rc_handler c)) \<Longrightarrow>
     req_step c (c\<lparr>rc_handler := h, rc_threads := rc_threads c - {#Waiting i a#},
       rc_got := (rc_got c)(a := rc_got c a @ [d])\<rparr>)"
| rq_fired: "Waiting i a \<in># rc_threads c \<Longrightarrow>
     (WaitTimeout, h) \<in> set (WaitForResponse_select a True (rc_handler c)) \<Longrightarrow>
     req_step c (c\<lparr>rc_handler := h, rc_threads := add_mset (TimedOut i) (rc_threads c - {#Waiting i a#})\<rparr>)"
| rq_timeout: "TimedOut i \<in># rc_threads c \<Longrightarrow>
     req_step c (c\<lparr>rc_handler := remove_pending i (rc_handler c),
       rc_threads := rc_threads c - {#TimedOut i#}\<rparr>)"
| rq_unknown: "HandleResponse_lock i (rc_handler c) = (None, h) \<Longrightarrow> req_step c (c\<lparr>rc_handler := h\<rparr>)"
| rq_accept: "HandleResponse_lock i (rc_handler c) = (Some a, h) \<Longrightarrow>
     req_step c (c\<lparr>rc_handler := h, rc_accepted := insert (i, d) (rc_accepted c),
       rc_threads := add_mset (Responding a d) (rc_threads c)\<rparr>)"
| rq_send: "Responding a d \<in># rc_threads c \<Longrightarrow>
     Ret h \<in> set (HandleResponse_send a d (rc_handler c)) \<Longrightarrow>
     req_step c (c\<lparr>rc_handler := h, rc_threads := rc_threads c - {#Responding a d#}\<rparr>)"
| rq_cleanup: "mset es = mset (rh_pending (rc_handler c)) \<Longrightarrow>
     req_step c (c\<lparr>rc_handler := CleanupPending es (rc_handler c),
       rc_accepted := rc_accepted c \<union> (\<lambda>e. (fst e, None)) ` set es\<rparr>)"

inductive req_reachable :: "req_conf \<Rightarrow> bool" where
  rr_init: "req_reachable (req_init t)"
| rr_step: "req_reachable c \<Longrightarrow> req_step c c' \<Longrightarrow> req_reachable c'"

section \<open>The effect of the operations\<close>

lemma remove_pending_simps [simp]:
  "rh_pending (remove_pending i h) = AList.delete i (rh_pending h)"
  "rh_chans (remove_pending i h) = rh_chans h" "rh_next (remove_pending i h) = rh_next h"
  "rh_timeout (remove_pending i h) = rh_timeout h"
  by (simp_all add: remove_pending_def)

lemma cleanup_one_simps [simp]:
  "rh_pending (cleanup_one e h) = AList.delete (fst e) (rh_pending h)"
  "rh_next (cleanup_one e h) = rh_next h" "rh_timeout (cleanup_one e h) = rh_timeout h"
  by (simp_all add: cleanup_one_def Let_def split: outcome.splits)

text \<open>What a cleanup does to a channel: an open channel with room gets one nil.\<close>

definition nilled :: "response chan \<Rightarrow> response chan" where
  "nilled c = (if \<not> ch_closed c \<and> length (ch_buf c) < ch_cap c
     then c\<lparr>ch_buf := ch_buf c @ [None]\<rparr> else c)"

lemma cleanup_one_chans:
  "rh_chans (cleanup_one e h) =
     (if snd e < length (rh_chans h) then (rh_chans h)[snd e := nilled (rh_chans h ! snd e)]
      else rh_chans h)"
  by (auto simp: cleanup_one_def Let_def send_ready_def chan_send_def nilled_def list_update_beyond)

lemma CleanupPending_frame [simp]:
  "rh_next (CleanupPending es h) = rh_next h" "rh_timeout (CleanupPending es h) = rh_timeout h"
  unfolding CleanupPending_def by (induction es arbitrary: h) auto

lemma CleanupPending_pending:
  "rh_pending (CleanupPending es h) = filter (\<lambda>e. fst e \<notin> fst ` set es) (rh_pending h)"
  unfolding CleanupPending_def
proof (induction es arbitrary: h)
  case Nil
  then show ?case by simp
next
  case (Cons e es)
  then show ?case
    by (simp add: AList.delete_eq conj_commute) (rule filter_cong, auto)
qed

lemma CleanupPending_chans:
  assumes "distinct (map snd es)"
  shows "rh_chans (CleanupPending es h) =
    map (\<lambda>a. if a \<in> snd ` set es then nilled (rh_chans h ! a) else rh_chans h ! a)
      [0..<length (rh_chans h)]"
  using assms unfolding CleanupPending_def
proof (induction es arbitrary: h)
  case Nil
  then show ?case by (simp add: map_nth)
next
  case (Cons e es)
  then show ?case
    by (auto simp: cleanup_one_chans nth_list_update intro!: map_cong)
qed


section \<open>The invariant\<close>

text \<open>
  Each channel is worth one token: it is in the table, or in the hand of one responder, or
  its buffer holds the response, or the waiter got it, or it has been given up after a
  timeout. That is why the send of \<open>HandleResponse\<close>, made without the lock, never blocks.
\<close>

fun responder_for :: "req_thread \<Rightarrow> nat option" where
  "responder_for (Responding a d) = Some a"
| "responder_for (Waiting i a) = None"
| "responder_for (TimedOut i) = None"

definition responders :: "nat \<Rightarrow> req_thread multiset \<Rightarrow> nat" where
  "responders a T = size {# t \<in># T. responder_for t = Some a #}"

definition tabled :: "nat \<Rightarrow> req_handler \<Rightarrow> nat" where
  "tabled a h = (if a \<in> snd ` set (rh_pending h) then 1 else 0)"

definition handler_inv :: "req_handler \<Rightarrow> int64 list \<Rightarrow> bool" where
  "handler_inv h ids \<longleftrightarrow>
     length ids = length (rh_chans h) \<and>
     distinct (map fst (rh_pending h)) \<and> distinct (map snd (rh_pending h)) \<and>
     (\<forall>(i, a) \<in> set (rh_pending h). a < length (rh_chans h) \<and> ids ! a = i) \<and>
     (\<forall>c \<in> set (rh_chans h). \<not> ch_closed c \<and> ch_cap c = 1)"

definition tokens_ok :: "req_handler \<Rightarrow> req_thread multiset \<Rightarrow> (nat \<Rightarrow> response list) \<Rightarrow> nat \<Rightarrow> bool" where
  "tokens_ok h T got a =
     (if a < length (rh_chans h)
      then tabled a h + responders a T + length (ch_buf (rh_chans h ! a)) + length (got a) \<le> 1
      else got a = [] \<and> responders a T = 0)"

definition tokens_inv :: "req_conf \<Rightarrow> bool" where
  "tokens_inv c \<longleftrightarrow> (\<forall>a. tokens_ok (rc_handler c) (rc_threads c) (rc_got c) a)"

definition history_inv :: "req_conf \<Rightarrow> bool" where
  "history_inv c \<longleftrightarrow>
     (\<forall>i a. Waiting i a \<in># rc_threads c \<longrightarrow> a < length (rc_ids c) \<and> rc_ids c ! a = i) \<and>
     (\<forall>a d. Responding a d \<in># rc_threads c \<longrightarrow> (rc_ids c ! a, d) \<in> rc_accepted c) \<and>
     (\<forall>a < length (rc_ids c). \<forall>d \<in> set (ch_buf (rh_chans (rc_handler c) ! a)) \<union> set (rc_got c a).
        (rc_ids c ! a, d) \<in> rc_accepted c)"

definition req_inv :: "req_conf \<Rightarrow> bool" where
  "req_inv c \<longleftrightarrow> handler_inv (rc_handler c) (rc_ids c) \<and> tokens_inv c \<and> history_inv c"

lemma responders_simps [simp]:
  "responders a {#} = 0"
  "responders a (add_mset t T) = (if responder_for t = Some a then Suc (responders a T) else responders a T)"
  by (simp_all add: responders_def)

lemma responders_remove:
  assumes "t \<in># T"
  shows "responders a (T - {#t#}) = responders a T - (if responder_for t = Some a then 1 else 0)"
  using assms by (auto simp: responders_def filter_diff_mset size_Diff_singleton)

lemma responders_pos: "Responding a d \<in># T \<Longrightarrow> 0 < responders a T"
  by (drule multi_member_split) auto

lemma tabled_le: "tabled a h \<le> 1"
  by (simp add: tabled_def)

lemma handler_invD:
  assumes "handler_inv h ids"
  shows "length ids = length (rh_chans h)"
    and "a < length (rh_chans h) \<Longrightarrow> \<not> ch_closed (rh_chans h ! a)"
    and "a < length (rh_chans h) \<Longrightarrow> ch_cap (rh_chans h ! a) = 1"
    and "map_of (rh_pending h) i = Some a \<Longrightarrow> a < length (rh_chans h) \<and> ids ! a = i"
    and "(i, a) \<in> set (rh_pending h) \<Longrightarrow> a < length (rh_chans h) \<and> ids ! a = i"
  using assms by (auto simp: handler_inv_def dest!: map_of_SomeD)

lemma tokens_invD:
  assumes "tokens_inv c"
  shows "a < length (rh_chans (rc_handler c)) \<Longrightarrow>
      tabled a (rc_handler c) + responders a (rc_threads c) +
          length (ch_buf (rh_chans (rc_handler c) ! a)) + length (rc_got c a) \<le> 1"
    and "\<not> a < length (rh_chans (rc_handler c)) \<Longrightarrow> rc_got c a = [] \<and> responders a (rc_threads c) = 0"
  using assms unfolding tokens_inv_def tokens_ok_def by (drule_tac spec [of _ a], simp)+

lemma handler_inv_unique:
  assumes "handler_inv h ids" and "(i, a) \<in> set (rh_pending h)" and "(j, a) \<in> set (rh_pending h)"
  shows "j = i"
proof -
  have "ids ! a = i" using handler_invD(5) [OF assms(1,2)] by blast
  moreover have "ids ! a = j" using handler_invD(5) [OF assms(1,3)] by blast
  ultimately show ?thesis by (simp only:)
qed

lemma tabled_remove:
  assumes inv: "handler_inv h ids"
  shows "tabled a (remove_pending i h) = (if map_of (rh_pending h) i = Some a then 0 else tabled a h)"
proof -
  have ent: "map_of (rh_pending h) i = Some a \<longleftrightarrow> (i, a) \<in> set (rh_pending h)"
    using inv by (simp add: handler_inv_def map_of_eq_Some_iff)
  have uniq: "j = i" if "(i, a) \<in> set (rh_pending h)" "(j, a) \<in> set (rh_pending h)" for j
    by (rule handler_inv_unique [OF inv that])
  have "a \<in> snd ` set (AList.delete i (rh_pending h)) \<longleftrightarrow>
      a \<in> snd ` set (rh_pending h) \<and> (i, a) \<notin> set (rh_pending h)"
  proof
    assume "a \<in> snd ` set (AList.delete i (rh_pending h))"
    then obtain j where "(j, a) \<in> set (rh_pending h)" "j \<noteq> i" by (auto simp: AList.delete_eq)
    then show "a \<in> snd ` set (rh_pending h) \<and> (i, a) \<notin> set (rh_pending h)"
      using uniq by (metis image_eqI snd_conv)
  next
    assume asm: "a \<in> snd ` set (rh_pending h) \<and> (i, a) \<notin> set (rh_pending h)"
    then obtain j where j: "(j, a) \<in> set (rh_pending h)" by auto
    then have "j \<noteq> i" using asm by blast
    with j have "(j, a) \<in> set (AList.delete i (rh_pending h))" by (simp add: AList.delete_eq)
    then show "a \<in> snd ` set (AList.delete i (rh_pending h))" by force
  qed
  with ent show ?thesis by (simp add: tabled_def)
qed

lemma handler_inv_remove:
  "handler_inv h ids \<Longrightarrow> handler_inv (remove_pending i h) ids"
  by (auto simp: handler_inv_def AList.delete_eq distinct_map_filter)

lemma handler_inv_chan:
  "handler_inv h ids \<Longrightarrow> \<not> ch_closed c \<Longrightarrow> ch_cap c = 1 \<Longrightarrow>
     handler_inv (h\<lparr>rh_chans := (rh_chans h)[a := c]\<rparr>) ids"
  unfolding handler_inv_def by (auto dest!: set_update_subset_insert [THEN subsetD])


section \<open>Preservation\<close>

lemma select_received:
  assumes "(Response d, h') \<in> set (WaitForResponse_select a fired h)"
    and "handler_inv h ids" and "a < length (rh_chans h)"
  obtains ds where "ch_buf (rh_chans h ! a) = d # ds"
    "h' = h\<lparr>rh_chans := (rh_chans h)[a := (rh_chans h ! a)\<lparr>ch_buf := ds\<rparr>]\<rparr>"
  using assms handler_invD(2) [OF assms(2,3)]
  by (auto simp: WaitForResponse_select_def Let_def recv_ready_def split: list.splits if_splits)

lemma select_fired: "(WaitTimeout, h') \<in> set (WaitForResponse_select a fired h) \<longleftrightarrow> fired \<and> h' = h"
  by (cases "chan_recv (rh_chans h ! a)")
     (auto simp: WaitForResponse_select_def Let_def simp del: chan_recv.simps)

lemma HandleResponse_sent:
  assumes "handler_inv h ids" and "a < length (rh_chans h)"
  shows "HandleResponse_send a d h =
    (if ch_buf (rh_chans h ! a) = []
     then [Ret (h\<lparr>rh_chans := (rh_chans h)[a := (rh_chans h ! a)\<lparr>ch_buf := [d]\<rparr>]\<rparr>)] else [])"
  using handler_invD(2,3) [OF assms]
  by (auto simp: HandleResponse_send_def send_ready_def chan_send_def)

lemma HandleResponse_lock_Some:
  "HandleResponse_lock i h = (Some a, h') \<longleftrightarrow>
     map_of (rh_pending h) i = Some a \<and> h' = remove_pending i h"
  by (auto simp: HandleResponse_lock_def split: option.splits)

lemma HandleResponse_lock_None:
  "HandleResponse_lock i h = (None, h') \<longleftrightarrow> map_of (rh_pending h) i = None \<and> h' = h"
  by (auto simp: HandleResponse_lock_def split: option.splits)

lemma req_inv_init: "req_inv (req_init t)"
  by (simp add: req_inv_def req_init_def handler_inv_def tokens_inv_def tokens_ok_def
      history_inv_def NewRequestHandler_def)

lemma update_entries:
  "set (AList.update k v al) \<subseteq> insert (k, v) (set al)"
  by (induction al) auto

lemma tokens_create:
  assumes "handler_inv h ids" "snd ` set p \<subseteq> insert (length (rh_chans h)) (snd ` set (rh_pending h))"
    "a < length (rh_chans h)"
  shows "tabled a (h\<lparr>rh_chans := cs, rh_next := n, rh_pending := p\<rparr>) \<le> tabled a h"
  using assms by (auto simp: tabled_def)

lemma handler_inv_create:
  assumes "handler_inv h ids"
  shows "handler_inv (h\<lparr>rh_next := i, rh_chans := rh_chans h @ [make_chan 1],
     rh_pending := AList.update i (length (rh_chans h)) (rh_pending h)\<rparr>) (ids @ [i])"
proof -
  have keys: "distinct (map fst (AList.update i (length (rh_chans h)) (rh_pending h)))"
    using assms by (simp add: handler_inv_def distinct_update)
  have new: "length (rh_chans h) \<notin> snd ` set (rh_pending h)"
    using handler_invD(5) [OF assms] by fastforce
  have vals: "distinct (map snd (AList.update i b al))"
    if "distinct (map snd al)" "b \<notin> snd ` set al" for b :: nat and al
    using that update_entries [of i b] by (induction al) (auto, force)
  show ?thesis
    using assms keys vals [OF _ new] update_entries [of i "length (rh_chans h)" "rh_pending h"]
    by (auto simp: handler_inv_def nth_append; fastforce)
qed


lemma req_invD:
  assumes "req_inv c"
  shows "handler_inv (rc_handler c) (rc_ids c)" "tokens_inv c" "history_inv c"
    "length (rc_ids c) = length (rh_chans (rc_handler c))"
  using assms by (auto simp: req_inv_def handler_inv_def)

lemma history_waiting: "history_inv c \<Longrightarrow> Waiting i a \<in># rc_threads c \<Longrightarrow> a < length (rc_ids c) \<and> rc_ids c ! a = i"
  by (simp add: history_inv_def)

lemma responding_live:
  assumes "req_inv c" and "Responding a d \<in># rc_threads c"
  shows "a < length (rh_chans (rc_handler c))"
proof (rule ccontr)
  assume "\<not> a < length (rh_chans (rc_handler c))"
  then have "responders a (rc_threads c) = 0" using tokens_invD(2) [OF req_invD(2) [OF assms(1)]] by blast
  with responders_pos [OF assms(2)] show False by simp
qed

lemma responding_empty:
  assumes "req_inv c" and "Responding a d \<in># rc_threads c"
  shows "ch_buf (rh_chans (rc_handler c) ! a) = []"
    and "rc_got c a = []" and "tabled a (rc_handler c) = 0" and "responders a (rc_threads c) = 1"
proof -
  have t: "tabled a (rc_handler c) + responders a (rc_threads c) +
      length (ch_buf (rh_chans (rc_handler c) ! a)) + length (rc_got c a) \<le> 1"
    by (rule tokens_invD(1) [OF req_invD(2) [OF assms(1)] responding_live [OF assms]])
  have p: "0 < responders a (rc_threads c)" by (rule responders_pos [OF assms(2)])
  have "length (ch_buf (rh_chans (rc_handler c) ! a)) = 0" "length (rc_got c a) = 0"
    using t p by linarith+
  then show "ch_buf (rh_chans (rc_handler c) ! a) = []" "rc_got c a = []" by auto
  show "tabled a (rc_handler c) = 0" "responders a (rc_threads c) = 1" using t p by linarith+
qed

lemma req_create_inv:
  assumes "req_inv c" and "CreateRequest (rc_handler c) = ((i, a), h)"
  shows "req_inv (c\<lparr>rc_handler := h, rc_ids := rc_ids c @ [i],
    rc_threads := add_mset (Waiting i a) (rc_threads c)\<rparr>)"
proof -
  let ?h = "rc_handler c"
  note inv = req_invD [OF assms(1)]
  have i: "i = rh_next ?h + 1" and a: "a = length (rh_chans ?h)"
    and h: "h = ?h\<lparr>rh_next := i, rh_chans := rh_chans ?h @ [make_chan 1],
      rh_pending := AList.update i a (rh_pending ?h)\<rparr>"
    using assms(2) by (auto simp: CreateRequest_def Let_def)
  have hi: "handler_inv h (rc_ids c @ [i])"
    unfolding h a by (rule handler_inv_create [OF inv(1)])
  have tab: "tabled b h \<le> tabled b ?h" if "b < length (rh_chans ?h)" for b
    using update_entries [of i a "rh_pending ?h"] that
    by (auto simp: tabled_def h a)
  have "tokens_ok h (add_mset (Waiting i a) (rc_threads c)) (rc_got c) b" for b
  proof -
    consider "b < a" | "b = a" | "a < b" by linarith
    then show ?thesis
    proof cases
      case 1
      with tokens_invD(1) [OF inv(2), of b] tab [of b] show ?thesis
        by (simp add: tokens_ok_def h a nth_append)
    next
      case 2
      with tokens_invD(2) [OF inv(2), of b] tabled_le [of b h] show ?thesis
        by (simp add: tokens_ok_def h a)
    next
      case 3
      with tokens_invD(2) [OF inv(2), of b] show ?thesis by (simp add: tokens_ok_def h a)
    qed
  qed
  then have "tokens_inv (c\<lparr>rc_handler := h, rc_ids := rc_ids c @ [i],
      rc_threads := add_mset (Waiting i a) (rc_threads c)\<rparr>)"
    by (simp add: tokens_inv_def)
  moreover have "history_inv (c\<lparr>rc_handler := h, rc_ids := rc_ids c @ [i],
      rc_threads := add_mset (Waiting i a) (rc_threads c)\<rparr>)"
    using inv(3,4) tokens_invD(2) [OF inv(2), of a] responding_live [OF assms(1)]
    by (auto simp: history_inv_def nth_append h a less_Suc_eq)
  ultimately show ?thesis using hi by (simp add: req_inv_def)
qed

lemma req_received_inv:
  assumes "req_inv c" and "Waiting i a \<in># rc_threads c"
    and "(Response d, h) \<in> set (WaitForResponse_select a fired (rc_handler c))"
  shows "req_inv (c\<lparr>rc_handler := h, rc_threads := rc_threads c - {#Waiting i a#},
    rc_got := (rc_got c)(a := rc_got c a @ [d])\<rparr>)"
proof -
  let ?h = "rc_handler c"
  note inv = req_invD [OF assms(1)]
  have a: "a < length (rh_chans ?h)" using history_waiting [OF inv(3) assms(2)] inv(4) by simp
  obtain ds where buf: "ch_buf (rh_chans ?h ! a) = d # ds"
    and h: "h = ?h\<lparr>rh_chans := (rh_chans ?h)[a := (rh_chans ?h ! a)\<lparr>ch_buf := ds\<rparr>]\<rparr>"
    by (rule select_received [OF assms(3) inv(1) a])
  have "handler_inv h (rc_ids c)"
    unfolding h by (rule handler_inv_chan [OF inv(1)]) (simp_all add: handler_invD [OF inv(1)] a)
  moreover have "tabled b h = tabled b ?h" for b by (simp add: tabled_def h)
  then have "tokens_ok h (rc_threads c - {#Waiting i a#}) ((rc_got c)(a := rc_got c a @ [d])) b" for b
    using tokens_invD [OF inv(2), of b] a buf
    by (cases "b = a") (auto simp: tokens_ok_def responders_remove [OF assms(2)] h)
  then have "tokens_inv (c\<lparr>rc_handler := h, rc_threads := rc_threads c - {#Waiting i a#},
      rc_got := (rc_got c)(a := rc_got c a @ [d])\<rparr>)"
    by (simp add: tokens_inv_def)
  moreover have "history_inv (c\<lparr>rc_handler := h, rc_threads := rc_threads c - {#Waiting i a#},
      rc_got := (rc_got c)(a := rc_got c a @ [d])\<rparr>)"
    using inv(3) a buf by (auto simp: history_inv_def h nth_list_update dest: in_diffD)
  ultimately show ?thesis by (simp add: req_inv_def)
qed


text \<open>Steps that only exchange a waiter for another waiting state or retire it.\<close>

lemma req_waiters_inv:
  assumes "req_inv c" and "\<And>a. responders a T = responders a (rc_threads c)"
    and "\<And>i a. Waiting i a \<in># T \<Longrightarrow> Waiting i a \<in># rc_threads c"
    and "\<And>a d. Responding a d \<in># T \<Longrightarrow> Responding a d \<in># rc_threads c"
  shows "req_inv (c\<lparr>rc_threads := T\<rparr>)"
proof -
  note inv = req_invD [OF assms(1)]
  have "tokens_ok (rc_handler c) T (rc_got c) b" for b
    using tokens_invD [OF inv(2), of b] assms(2) [of b] by (simp add: tokens_ok_def)
  moreover have "history_inv (c\<lparr>rc_threads := T\<rparr>)"
    using inv(3) unfolding history_inv_def by (auto dest: assms(3,4))
  ultimately show ?thesis using inv(1) by (simp add: req_inv_def tokens_inv_def)
qed

lemma req_remove_inv:
  assumes "req_inv c"
  shows "req_inv (c\<lparr>rc_handler := remove_pending i (rc_handler c)\<rparr>)"
proof -
  note inv = req_invD [OF assms]
  have "tokens_ok (remove_pending i (rc_handler c)) (rc_threads c) (rc_got c) b" for b
    using tokens_invD [OF inv(2), of b]
    by (cases "b < length (rh_chans (rc_handler c))") (auto simp: tokens_ok_def tabled_remove [OF inv(1)])
  then show ?thesis using inv(3) handler_inv_remove [OF inv(1)]
    by (simp add: req_inv_def tokens_inv_def history_inv_def)
qed

lemma req_accept_inv:
  assumes "req_inv c" and "HandleResponse_lock i (rc_handler c) = (Some a, h)"
  shows "req_inv (c\<lparr>rc_handler := h, rc_accepted := insert (i, d) (rc_accepted c),
    rc_threads := add_mset (Responding a d) (rc_threads c)\<rparr>)"
proof -
  let ?h = "rc_handler c"
  note inv = req_invD [OF assms(1)]
  have m: "map_of (rh_pending ?h) i = Some a" and h: "h = remove_pending i ?h"
    using assms(2) by (auto simp: HandleResponse_lock_Some)
  have a: "a < length (rh_chans ?h)" and ia: "rc_ids c ! a = i"
    using handler_invD(4) [OF inv(1) m] by auto
  have "(i, a) \<in> set (rh_pending ?h)" using m by (rule map_of_SomeD)
  then have tab: "tabled a ?h = 1" by (force simp: tabled_def)
  have "tokens_ok h (add_mset (Responding a d) (rc_threads c)) (rc_got c) b" for b
    using tokens_invD [OF inv(2), of b] a m tab
    by (cases "b = a") (auto simp: tokens_ok_def h tabled_remove [OF inv(1)])
  moreover have "history_inv (c\<lparr>rc_handler := h, rc_accepted := insert (i, d) (rc_accepted c),
      rc_threads := add_mset (Responding a d) (rc_threads c)\<rparr>)"
    using inv(3) ia by (auto simp: history_inv_def h)
  ultimately show ?thesis using handler_inv_remove [OF inv(1)]
    by (simp add: req_inv_def tokens_inv_def h)
qed

lemma req_send_inv:
  assumes "req_inv c" and "Responding a d \<in># rc_threads c"
    and "Ret h \<in> set (HandleResponse_send a d (rc_handler c))"
  shows "req_inv (c\<lparr>rc_handler := h, rc_threads := rc_threads c - {#Responding a d#}\<rparr>)"
proof -
  let ?h = "rc_handler c"
  note inv = req_invD [OF assms(1)]
  note a = responding_live [OF assms(1,2)] and e = responding_empty [OF assms(1,2)]
  have h: "h = ?h\<lparr>rh_chans := (rh_chans ?h)[a := (rh_chans ?h ! a)\<lparr>ch_buf := [d]\<rparr>]\<rparr>"
    using assms(3) by (simp add: HandleResponse_sent [OF inv(1) a] e)
  have "handler_inv h (rc_ids c)"
    unfolding h by (rule handler_inv_chan [OF inv(1)]) (simp_all add: handler_invD [OF inv(1)] a)
  moreover have tab: "tabled b h = tabled b ?h" for b by (simp add: tabled_def h)
  have "tokens_ok h (rc_threads c - {#Responding a d#}) (rc_got c) b" for b
    using tokens_invD [OF inv(2), of b] a e
    by (cases "b = a"; cases "b < length (rh_chans ?h)")
       (auto simp: tokens_ok_def responders_remove [OF assms(2)] tab [unfolded h] h)
  moreover have "(rc_ids c ! a, d) \<in> rc_accepted c"
    using inv(3) assms(2) by (simp add: history_inv_def)
  then have "history_inv (c\<lparr>rc_handler := h, rc_threads := rc_threads c - {#Responding a d#}\<rparr>)"
    using inv(3) a by (auto simp: history_inv_def h nth_list_update dest: in_diffD)
  ultimately show ?thesis by (simp add: req_inv_def tokens_inv_def)
qed

text \<open>A cleanup leaves the table empty and one nil on every channel it was for.\<close>

lemma CleanupPending_result:
  assumes "handler_inv h ids" and "mset es = mset (rh_pending h)"
  shows "CleanupPending es h = h\<lparr>rh_pending := [],
    rh_chans := map (\<lambda>a. if a \<in> snd ` set (rh_pending h) then nilled (rh_chans h ! a) else rh_chans h ! a)
      [0..<length (rh_chans h)]\<rparr>"
proof -
  have set: "set es = set (rh_pending h)" using assms(2) by (metis set_mset_mset)
  have "mset (map snd es) = mset (map snd (rh_pending h))" using assms(2) by simp
  then have dist: "distinct (map snd es)"
    using assms(1) by (metis handler_inv_def mset_eq_imp_distinct_iff)
  have "rh_pending (CleanupPending es h) = []"
    by (auto simp: CleanupPending_pending set filter_empty_conv)
  then show ?thesis
    using CleanupPending_chans [OF dist, of h] by (simp add: set)
qed

lemma req_cleanup_inv:
  assumes "req_inv c" and "mset es = mset (rh_pending (rc_handler c))"
  shows "req_inv (c\<lparr>rc_handler := CleanupPending es (rc_handler c),
    rc_accepted := rc_accepted c \<union> (\<lambda>e. (fst e, None)) ` set es\<rparr>)"
proof -
  let ?h = "rc_handler c" and ?h' = "CleanupPending es (rc_handler c)"
  note inv = req_invD [OF assms(1)]
  note res = CleanupPending_result [OF inv(1) assms(2)]
  have set: "set es = set (rh_pending ?h)" using assms(2) by (metis set_mset_mset)
  have hi: "handler_inv ?h' (rc_ids c)"
    using inv(1) by (auto simp: handler_inv_def res nilled_def)
  have tab: "tabled b ?h' = 0" for b by (simp add: tabled_def res)
  have len: "length (rh_chans ?h') = length (rh_chans ?h)" by (simp add: res)
  have chan: "rh_chans ?h' ! b = (if b \<in> snd ` set (rh_pending ?h) then nilled (rh_chans ?h ! b)
      else rh_chans ?h ! b)" if "b < length (rh_chans ?h)" for b
    using that by (simp add: res)
  have "tokens_ok ?h' (rc_threads c) (rc_got c) b" for b
  proof (cases "b < length (rh_chans ?h)")
    case True
    then have "length (ch_buf (rh_chans ?h' ! b)) \<le> length (ch_buf (rh_chans ?h ! b)) + tabled b ?h"
      by (simp add: chan nilled_def tabled_def)
    with tokens_invD(1) [OF inv(2) True] True show ?thesis by (simp add: tokens_ok_def tab len)
  next
    case False
    with tokens_invD(2) [OF inv(2) False] show ?thesis by (simp add: tokens_ok_def len)
  qed
  moreover have "history_inv (c\<lparr>rc_handler := ?h',
      rc_accepted := rc_accepted c \<union> (\<lambda>e. (fst e, None)) ` set es\<rparr>)"
  proof -
    have "(rc_ids c ! b, None) \<in> (\<lambda>e. (fst e, None)) ` set es" if "b \<in> snd ` set (rh_pending ?h)" for b
      using that handler_invD(5) [OF inv(1)] by (force simp: set)
    then show ?thesis using inv(3,4)
      by (auto simp: history_inv_def chan nilled_def split: if_splits)
  qed
  ultimately show ?thesis using hi by (simp add: req_inv_def tokens_inv_def)
qed

lemma req_step_inv: "req_step c c' \<Longrightarrow> req_inv c \<Longrightarrow> req_inv c'"
proof (induction rule: req_step.induct)
  case (rq_fired i a c h)
  from rq_fired.hyps(2) have h: "h = rc_handler c" by (simp add: select_fired)
  from rq_fired.prems have "req_inv (c\<lparr>rc_threads := add_mset (TimedOut i) (rc_threads c - {#Waiting i a#})\<rparr>)"
    by (rule req_waiters_inv) (auto simp: responders_remove [OF rq_fired.hyps(1)] dest: in_diffD)
  then show ?case by (simp add: h)
next
  case (rq_timeout i c)
  have "req_inv (c\<lparr>rc_handler := remove_pending i (rc_handler c)\<rparr>)"
    by (rule req_remove_inv [OF rq_timeout.prems])
  from req_waiters_inv [OF this, of "rc_threads c - {#TimedOut i#}"]
  show ?case by (auto simp: responders_remove [OF rq_timeout.hyps] dest: in_diffD)
qed (simp_all add: req_create_inv req_received_inv req_accept_inv req_send_inv req_cleanup_inv
    HandleResponse_lock_None)

lemma req_reachable_inv: "req_reachable c \<Longrightarrow> req_inv c"
  by (induction rule: req_reachable.induct) (simp_all add: req_inv_init req_step_inv)

end
