(* ===== verification/RequestProps.thy ===== *)
theory RequestProps
  imports Requests
begin

text \<open>
  What the request handler guarantees: a response is delivered without blocking, to the
  request it answers and at most once; request identifiers are distinct; a cleanup
  completes every pending request.
\<close>

section \<open>The pending requests as a handle table\<close>

definition request_alloc :: "unit \<Rightarrow> req_handler \<Rightarrow> int64 \<times> req_handler" where
  "request_alloc u h = (let ((i, a), h') = CreateRequest h in (i, h'))"

definition request_remove :: "int64 \<Rightarrow> req_handler \<Rightarrow> req_handler" where
  "request_remove i h = snd (HandleResponse_lock i h)"

definition request_room :: "req_handler \<Rightarrow> nat" where
  "request_room h = 2 ^ 64 - 1 - unat (rh_next h)"

definition request_ids_inv :: "req_handler \<Rightarrow> bool" where
  "request_ids_inv h \<longleftrightarrow> (\<forall>i. map_of (rh_pending h) i \<noteq> None \<longrightarrow> unat i \<le> unat (rh_next h))"

lemma request_alloc_simp:
  "request_alloc u h = (rh_next h + 1, h\<lparr>rh_next := rh_next h + 1,
     rh_chans := rh_chans h @ [make_chan 1],
     rh_pending := AList.update (rh_next h + 1) (length (rh_chans h)) (rh_pending h)\<rparr>)"
  by (simp add: request_alloc_def CreateRequest_def Let_def)

lemma request_remove_simp: "request_remove i h =
    (if map_of (rh_pending h) i = None then h else remove_pending i h)"
  by (auto simp: request_remove_def HandleResponse_lock_def split: option.splits)

lemma request_room_pos: "0 < request_room h \<Longrightarrow> unat (rh_next h + 1) = Suc (unat (rh_next h))"
  by (rule unat_plus_one_less) (simp add: request_room_def)

interpretation requests: handle_table request_alloc "\<lambda>h i. map_of (rh_pending h) i" request_remove
  request_ids_inv request_room
proof
  fix h :: req_handler and u
  assume inv: "request_ids_inv h" and room: "0 < request_room h"
  note up = request_room_pos [OF room]
  show "map_of (rh_pending h) (fst (request_alloc u h)) = None"
    using inv up unfolding request_ids_inv_def
    by (metis Suc_n_not_le_n fst_conv request_alloc_simp)
  show "map_of (rh_pending (snd (request_alloc u h))) (fst (request_alloc u h)) \<noteq> None"
    by (simp add: request_alloc_simp update_conv)
  show "request_ids_inv (snd (request_alloc u h))"
    using inv up by (auto simp: request_alloc_simp request_ids_inv_def update_conv le_Suc_eq)
  show "request_room (snd (request_alloc u h)) = request_room h - 1"
    using up by (simp add: request_alloc_simp request_room_def)
qed (auto simp: request_alloc_simp request_remove_simp update_conv delete_conv request_ids_inv_def
      request_room_def)

section \<open>A concrete run\<close>

definition demo_asked :: req_conf where
  "demo_asked = (let ((i, a), h) = CreateRequest (rc_handler (req_init 10)) in
     (req_init 10)\<lparr>rc_handler := h, rc_ids := [i], rc_threads := {#Waiting i a#}\<rparr>)"

definition demo_answered :: req_conf where
  "demo_answered = demo_asked\<lparr>rc_handler := remove_pending 1 (rc_handler demo_asked),
     rc_accepted := {(1, Some [5])},
     rc_threads := add_mset (Responding 0 (Some [5])) (rc_threads demo_asked)\<rparr>"

lemma demo_asked_simps:
  "rh_pending (rc_handler demo_asked) = [(1, 0)]" "rh_chans (rc_handler demo_asked) = [make_chan 1]"
  "rc_ids demo_asked = [1]" "rc_threads demo_asked = {#Waiting 1 0#}" "rc_accepted demo_asked = {}"
  "rc_got demo_asked = (\<lambda>_. [])"
  by (simp_all add: demo_asked_def req_init_def NewRequestHandler_def CreateRequest_def Let_def)

lemma demo_asked_reachable: "req_reachable demo_asked"
proof -
  have "req_step (req_init 10) demo_asked"
    unfolding demo_asked_def Let_def
    by (cases "CreateRequest (rc_handler (req_init 10))")
       (auto simp: req_init_def split: prod.splits dest: rq_create [of "req_init 10", unfolded req_init_def, simplified])
  then show ?thesis by (rule rr_step [OF rr_init])
qed

lemma demo_answered_reachable: "req_reachable demo_answered"
proof -
  have "HandleResponse_lock 1 (rc_handler demo_asked) = (Some 0, remove_pending 1 (rc_handler demo_asked))"
    by (simp add: HandleResponse_lock_def demo_asked_simps)
  from rq_accept [OF this, of "Some [5]"] have "req_step demo_asked demo_answered"
    by (simp add: demo_answered_def demo_asked_simps)
  then show ?thesis by (rule rr_step [OF demo_asked_reachable])
qed

section \<open>Properties\<close>

text \<open>
  C9. However the operations interleave, a response that \<open>HandleResponse\<close> has taken out of
  the table is delivered: its send on the channel, made outside the lock, neither blocks
  nor panics, and it finds the channel empty.
\<close>

theorem response_never_blocks:
  assumes "req_reachable c" and "Responding a d \<in># rc_threads c"
  shows "HandleResponse_send a d (rc_handler c) =
    [Ret ((rc_handler c)\<lparr>rh_chans := (rh_chans (rc_handler c))
       [a := (rh_chans (rc_handler c) ! a)\<lparr>ch_buf := [d]\<rparr>]\<rparr>)]"
proof -
  have inv: "req_inv c" by (rule req_reachable_inv [OF assms(1)])
  show ?thesis
    using HandleResponse_sent [OF req_invD(1) [OF inv] responding_live [OF inv assms(2)]]
    by (simp add: responding_empty [OF inv assms(2)])
qed

theorem response_never_blocks_witness:
  "\<exists>h. HandleResponse_send 0 (Some [5]) (rc_handler demo_answered) = [Ret h] \<and>
     ch_buf (rh_chans h ! 0) = [Some [5]]"
proof -
  have "Responding 0 (Some [5]) \<in># rc_threads demo_answered" by (simp add: demo_answered_def)
  from response_never_blocks [OF demo_answered_reachable this] show ?thesis
    by (simp add: demo_answered_def demo_asked_simps)
qed

text \<open>
  C10. Correlation, at most once: under any interleaving, the waiter of a request returns at
  most one response, and that response is one that \<open>HandleResponse\<close> was called with for
  the very identifier of the request, or the nil of a \<open>CleanupPending\<close> that found the
  request pending.
\<close>

theorem response_at_most_once:
  assumes "req_reachable c" and "a < length (rc_ids c)"
  shows "length (rc_got c a) \<le> 1 \<and> (\<forall>d \<in> set (rc_got c a). (rc_ids c ! a, d) \<in> rc_accepted c)"
proof -
  have inv: "req_inv c" by (rule req_reachable_inv [OF assms(1)])
  have "a < length (rh_chans (rc_handler c))" using req_invD(4) [OF inv] assms(2) by simp
  from tokens_invD(1) [OF req_invD(2) [OF inv] this] have "length (rc_got c a) \<le> 1" by linarith
  moreover have "\<forall>d \<in> set (rc_got c a). (rc_ids c ! a, d) \<in> rc_accepted c"
    using req_invD(3) [OF inv] assms(2) by (simp add: history_inv_def)
  ultimately show ?thesis by blast
qed

definition demo_delivered :: req_conf where
  "demo_delivered = demo_answered\<lparr>rc_threads := {#}, rc_got := (\<lambda>_. [])(0 := [Some [5]])\<rparr>"

lemma demo_delivered_reachable: "req_reachable demo_delivered"
proof -
  let ?c = "demo_answered\<lparr>rc_handler := (rc_handler demo_answered)
      \<lparr>rh_chans := [(make_chan 1)\<lparr>ch_buf := [Some [5]]\<rparr>]\<rparr>, rc_threads := {#Waiting 1 0#}\<rparr>"
  have "req_step demo_answered ?c"
    using rq_send [of 0 "Some [5]" demo_answered "(rc_handler demo_answered)
      \<lparr>rh_chans := [(make_chan 1)\<lparr>ch_buf := [Some [5]]\<rparr>]\<rparr>"]
    by (simp add: demo_answered_def demo_asked_simps HandleResponse_send_def send_ready_def chan_send_def)
  then have r: "req_reachable ?c" by (rule rr_step [OF demo_answered_reachable])
  have "(make_chan 1)\<lparr>ch_buf := []\<rparr> = make_chan 1" by (simp add: make_chan_def)
  then have "(Response (Some [5]), rc_handler demo_answered) \<in> set (WaitForResponse_select 0 False (rc_handler ?c))"
    by (simp add: WaitForResponse_select_def recv_ready_def demo_answered_def demo_asked_simps)
  from rq_received [OF _ this, of 1] have "req_step ?c demo_delivered"
    by (simp add: demo_delivered_def demo_answered_def demo_asked_def req_init_def Let_def
        NewRequestHandler_def CreateRequest_def remove_pending_def)
  then show ?thesis by (rule rr_step [OF r])
qed

theorem response_at_most_once_witness:
  "rc_got demo_delivered 0 = [Some [5]] \<and>
   (rc_ids demo_delivered ! 0, Some [5]) \<in> rc_accepted demo_delivered"
  using response_at_most_once [OF demo_delivered_reachable, of 0]
  by (simp add: demo_delivered_def demo_answered_def demo_asked_simps)

text \<open>
  \<open>CleanupPending\<close> empties the table whatever order Go visits the map in, and completes
  every request that was waiting: its \<open>WaitForResponse\<close> returns at once, with a nil
  response and no error, as if Dart had answered.
\<close>

theorem CleanupPending_completes:
  assumes "handler_inv h ids" and "mset es = mset (rh_pending h)"
  shows "rh_pending (CleanupPending es h) = [] \<and>
    (mset es' = mset (rh_pending h) \<longrightarrow> CleanupPending es' h = CleanupPending es h) \<and>
    (\<forall>(i, a) \<in> set (rh_pending h). ch_buf (rh_chans h ! a) = [] \<longrightarrow>
       (\<exists>h'. WaitForResponse i a False (CleanupPending es h) = [(Response None, h')] \<and>
          rh_pending h' = []))"
proof (intro conjI impI ballI, goal_cases)
  case 1
  then show ?case by (simp add: CleanupPending_result [OF assms])
next
  case 2
  then show ?case by (simp add: CleanupPending_result [OF assms] CleanupPending_result [OF assms(1)])
next
  case (3 e)
  obtain i a where e: "e = (i, a)" by (cases e)
  have a: "a < length (rh_chans h)" using handler_invD(5) [OF assms(1)] 3 e by blast
  have "a \<in> snd ` set (rh_pending h)" using 3 e by force
  then show ?case
    using handler_invD(2,3) [OF assms(1) a] a
    by (auto simp: e WaitForResponse_def WaitForResponse_select_def CleanupPending_result [OF assms]
        nilled_def recv_ready_def)
qed

theorem CleanupPending_completes_witness:
  "handler_inv (rc_handler demo_asked) [1] \<and>
   rh_pending (CleanupPending [(1, 0)] (rc_handler demo_asked)) = [] \<and>
   (\<exists>h'. WaitForResponse 1 0 False (CleanupPending [(1, 0)] (rc_handler demo_asked)) = [(Response None, h')])"
proof -
  have inv: "handler_inv (rc_handler demo_asked) [1]" by (simp add: handler_inv_def demo_asked_simps)
  have "mset [(1, 0)] = mset (rh_pending (rc_handler demo_asked))" by (simp add: demo_asked_simps)
  from CleanupPending_completes [OF inv this] inv show ?thesis by (auto simp: demo_asked_simps)
qed

text \<open>
  A request is answered by its response: the request just created is pending under its
  identifier; handling a response for it takes it out of the table, leaves the other
  requests alone and makes \<open>WaitForResponse\<close> return exactly that response; a second
  response for it is dropped, and so is one that comes after the timeout.
\<close>

theorem request_roundtrip:
  assumes "handler_inv h ids" and "CreateRequest h = ((i, a), h1)"
  shows "map_of (rh_pending h1) i = Some a \<and>
    (\<exists>h2 h3. HandleResponse i d h1 = [Ret h2] \<and>
       rh_pending h2 = AList.delete i (rh_pending h1) \<and>
       WaitForResponse i a False h2 = [(Response d, h3)] \<and>
       HandleResponse i d' h2 = [Ret h2]) \<and>
    (\<exists>h4. WaitForResponse i a True h1 = [(WaitTimeout, h4)] \<and> HandleResponse i d h4 = [Ret h4])"
proof -
  have i: "i = rh_next h + 1" and a: "a = length (rh_chans h)"
    and h1: "h1 = h\<lparr>rh_next := i, rh_chans := rh_chans h @ [make_chan 1],
      rh_pending := AList.update i a (rh_pending h)\<rparr>"
    using assms(2) by (auto simp: CreateRequest_def Let_def)
  have m: "map_of (rh_pending h1) i = Some a" by (simp add: h1 update_conv)
  have gone: "map_of (AList.delete i p) i = None" for p :: "(int64 \<times> nat) list"
    by (simp add: delete_conv)
  have fresh: "rh_chans h1 ! a = make_chan 1" "a < length (rh_chans h1)" by (simp_all add: h1 a)
  have "HandleResponse i d h1 = [Ret (remove_pending i h1\<lparr>rh_chans := (rh_chans h1)[a := (make_chan 1)\<lparr>ch_buf := [d]\<rparr>]\<rparr>)]"
    using m fresh by (simp add: HandleResponse_def HandleResponse_lock_def HandleResponse_send_def
        send_ready_def chan_send_def)
  then have 1: "\<exists>h2 h3. HandleResponse i d h1 = [Ret h2] \<and>
       rh_pending h2 = AList.delete i (rh_pending h1) \<and>
       WaitForResponse i a False h2 = [(Response d, h3)] \<and> HandleResponse i d' h2 = [Ret h2]"
    using fresh gone by (auto simp: WaitForResponse_def WaitForResponse_select_def recv_ready_def
        HandleResponse_def HandleResponse_lock_def)
  have 2: "WaitForResponse i a True h1 = [(WaitTimeout, remove_pending i h1)]"
    using fresh by (simp add: WaitForResponse_def WaitForResponse_select_def recv_ready_def)
  have 3: "HandleResponse i d (remove_pending i h1) = [Ret (remove_pending i h1)]"
    by (simp add: HandleResponse_def HandleResponse_lock_def gone)
  from m 1 2 3 show ?thesis by blast
qed

theorem request_roundtrip_witness:
  "\<exists>h2 h3. HandleResponse 2 (Some [8]) (snd (CreateRequest (rc_handler demo_asked))) = [Ret h2] \<and>
     rh_pending h2 = [(1, 0)] \<and> WaitForResponse 2 1 False h2 = [(Response (Some [8]), h3)]"
proof -
  have inv: "handler_inv (rc_handler demo_asked) [1]" by (simp add: handler_inv_def demo_asked_simps)
  have c: "CreateRequest (rc_handler demo_asked) = ((2, 1), snd (CreateRequest (rc_handler demo_asked)))"
    by (simp add: CreateRequest_def demo_asked_def req_init_def NewRequestHandler_def)
  have "AList.delete 2 (rh_pending (snd (CreateRequest (rc_handler demo_asked)))) = [(1, 0)]"
    by (simp add: CreateRequest_def demo_asked_def req_init_def NewRequestHandler_def)
  with request_roundtrip [OF inv c, of "Some [8]" None] show ?thesis by auto
qed

text \<open>
  Requests created one after another, as long as the 64-bit counter does not wrap, have
  pairwise different identifiers, none of them of a request that was pending, and are all
  pending afterwards.
\<close>

theorem request_ids_distinct:
  assumes "request_ids_inv h" and "n \<le> 2 ^ 64 - 1 - unat (rh_next h)"
  shows "distinct (fst (alloc_all request_alloc (replicate n ()) h)) \<and>
    (\<forall>i \<in> set (fst (alloc_all request_alloc (replicate n ()) h)).
       map_of (rh_pending h) i = None \<and>
       map_of (rh_pending (snd (alloc_all request_alloc (replicate n ()) h))) i \<noteq> None)"
  using assms by (intro requests.alloc_all_distinct) (simp_all add: request_room_def)

theorem request_ids_distinct_witness:
  "request_ids_inv DefaultRequestHandler \<and>
   fst (alloc_all request_alloc (replicate 2 ()) DefaultRequestHandler) = [1, 2] \<and>
   distinct (fst (alloc_all request_alloc (replicate 2 ()) DefaultRequestHandler))"
proof -
  have inv: "request_ids_inv DefaultRequestHandler"
    by (simp add: request_ids_inv_def DefaultRequestHandler_def NewRequestHandler_def)
  have "2 \<le> 2 ^ 64 - 1 - unat (rh_next DefaultRequestHandler)"
    by (simp add: DefaultRequestHandler_def NewRequestHandler_def)
  from request_ids_distinct [OF inv this] inv show ?thesis
    by (simp add: numeral_2_eq_2 request_alloc_simp Let_def DefaultRequestHandler_def NewRequestHandler_def)
qed

end
