(* ===== verification/CBoundary.thy ===== *)
theory CBoundary
  imports Prelude
begin

text \<open>
  The values that cross between Go and C: a C \<open>int\<close>, which is 32 bits wide, the length of a Go
  slice converted to one, strings that end at a NUL, and the copy of C memory into a slice.
\<close>

type_synonym cint = "32 word"

definition MaxInt32 :: nat where
  "MaxInt32 = 2 ^ 31 - 1"

text \<open>\<open>C.int(len(x))\<close> keeps the lower half of the length.\<close>

definition C_int :: "nat \<Rightarrow> cint" where
  "C_int n = of_nat n"

text \<open>
  \<open>C.GoBytes(p, n)\<close> for memory that holds \<open>mem\<close>: it panics on a negative length. A length
  beyond the memory is undefined behaviour, which the model cuts off at its end.
\<close>

definition GoBytes :: "bytes \<Rightarrow> cint \<Rightarrow> bytes outcome" where
  "GoBytes mem n = (if sint n < 0 then Panic LengthOutOfRange else Ret (take (nat (sint n)) mem))"

text \<open>
  An exported function gets a length as a C \<open>long long\<close>, \<open>clen n\<close> for memory of size \<open>n\<close>,
  and copies \<open>C.int(dataLen)\<close> bytes, the lower half of it.
\<close>

definition clen :: "nat \<Rightarrow> int64" where
  "clen n = of_nat n"

definition copy_in :: "bytes \<Rightarrow> int64 \<Rightarrow> bytes outcome" where
  "copy_in data dataLen = GoBytes data (ucast dataLen)"

text \<open>\<open>C.CString\<close> appends a NUL to all of the string, \<open>C.GoString\<close> reads up to the first one.\<close>

definition NUL :: char where
  "NUL = CHR 0x00"

definition CString :: "string \<Rightarrow> string" where
  "CString s = s @ [NUL]"

definition GoString :: "string \<Rightarrow> string" where
  "GoString m = takeWhile (\<lambda>c. c \<noteq> NUL) m"

lemma GoString_CString: "NUL \<notin> set s \<Longrightarrow> GoString (CString s) = s"
  unfolding GoString_def CString_def by (subst takeWhile_append2) auto

lemma uint_C_int: "uint (C_int n) = int (n mod 2 ^ 32)"
  by (simp add: C_int_def unsigned_of_nat take_bit_eq_mod of_nat_mod)

lemma sint_C_int: "sint (C_int n) = (if n mod 2 ^ 32 < 2 ^ 31 then int (n mod 2 ^ 32) else int (n mod 2 ^ 32) - 2 ^ 32)"
proof -
  have u: "uint (C_int n) < 2 ^ 32" using uint_lt2p [of "C_int n"] by simp
  show ?thesis
  proof (cases "n mod 2 ^ 32 < 2 ^ 31")
    case True
    then have "uint (C_int n) < 2 ^ 31" by (simp add: uint_C_int)
    moreover have "- (2 ^ 31) \<le> uint (C_int n)" by (rule order_trans [OF _ uint_ge_0]) simp
    ultimately have "sint (C_int n) = uint (C_int n)"
      using signed_take_bit_int_eq_self [of 31 "uint (C_int n)"] by (simp add: sint_uint)
    with True show ?thesis by (simp add: uint_C_int)
  next
    case False
    have "sint (C_int n) = signed_take_bit 31 (uint (C_int n))" by (simp add: sint_uint)
    also have "\<dots> = signed_take_bit 31 (uint (C_int n) - 2 ^ 32)"
      by (rule signed_take_bit_eq_iff_take_bit_eq [THEN iffD2]) (simp add: take_bit_eq_mod mod_diff_right_eq [symmetric])
    also have "\<dots> = uint (C_int n) - 2 ^ 32"
      using False u by (intro signed_take_bit_int_eq_self) (auto simp: uint_C_int)
    finally show ?thesis using False by (simp add: uint_C_int)
  qed
qed

lemma sint_C_int_small [simp]: "n \<le> MaxInt32 \<Longrightarrow> sint (C_int n) = int n"
  by (simp add: sint_C_int MaxInt32_def)

text \<open>Memory copied with the length that Go's side of the boundary wrote.\<close>

lemma GoBytes_length:
  "GoBytes mem (C_int (length mem)) =
     (let n = length mem mod 2 ^ 32 in if 2 ^ 31 \<le> n then Panic LengthOutOfRange else Ret (take n mem))"
proof -
  have "length mem mod 2 ^ 32 < 2 ^ 32" by simp
  then show ?thesis by (auto simp: GoBytes_def sint_C_int Let_def)
qed

lemma GoBytes_exact [simp]: "length mem \<le> MaxInt32 \<Longrightarrow> GoBytes mem (C_int (length mem)) = Ret mem"
  by (simp add: GoBytes_def)

lemma ucast_clen: "ucast (clen n) = C_int n"
  by (rule word_uint_eqI) (simp add: clen_def C_int_def unsigned_ucast_eq unsigned_of_nat take_bit_take_bit)

lemma copy_in_exact [simp]: "length mem \<le> MaxInt32 \<Longrightarrow> copy_in mem (clen (length mem)) = Ret mem"
  by (simp add: copy_in_def ucast_clen)

text \<open>From \<open>2 ^ 31\<close> bytes on, the call panics, and from \<open>2 ^ 32\<close> on it may lose data instead.\<close>

lemma copy_in_large:
  "copy_in mem (clen (length mem)) =
     (let n = length mem mod 2 ^ 32 in if 2 ^ 31 \<le> n then Panic LengthOutOfRange else Ret (take n mem))"
  by (simp add: copy_in_def ucast_clen GoBytes_length)

end
