(* ===== verification/PluginServer.thy ===== *)
theory PluginServer
  imports Channels Handles CBoundary
begin

text \<open>
  The plugin side of the plugin transport (\<open>pkg/plugin/server.go\<close>): the table of open
  streams and the exported C functions, with the helpers of the generated plugin code
  (\<open>test/plugin/api/example_ffi.pb.go\<close>) through which a handler uses a stream. The C
  boundary is modelled by its values: a \<open>char*\<close> is an optional byte list, the memory it
  points to, and comes with a length and a status of type \<open>int\<close>, which is 32 bits wide.
\<close>

section \<open>Streams\<close>

record plugin_stream =
  ps_method :: string
  ps_cancelled :: bool
  ps_send_ch :: "bytes chan"
  ps_recv_ch :: "bytes chan"
  ps_err_ch :: "string chan"
  ps_close_send :: bool
  ps_close_recv :: bool

record plugin_world =
  pw_counter :: uint64
  pw_handles :: "uint64 \<Rightarrow> nat option"
  pw_streams :: "plugin_stream list"

definition init_plugin_world :: plugin_world where
  "init_plugin_world = \<lparr>pw_counter = 0, pw_handles = Map.empty, pw_streams = []\<rparr>"

definition new_plugin_stream :: "string \<Rightarrow> plugin_stream" where
  "new_plugin_stream method =
     \<lparr>ps_method = method, ps_cancelled = False, ps_send_ch = make_chan 16, ps_recv_ch = make_chan 16,
      ps_err_ch = make_chan 1, ps_close_send = False, ps_close_recv = False\<rparr>"

definition NewStream :: "string \<Rightarrow> plugin_world \<Rightarrow> (uint64 \<times> nat) \<times> plugin_world" where
  "NewStream method w =
     (let handle = pw_counter w + 1; a = length (pw_streams w) in
      ((handle, a),
       w\<lparr>pw_counter := handle, pw_handles := (pw_handles w)(handle \<mapsto> a),
         pw_streams := pw_streams w @ [new_plugin_stream method]\<rparr>))"

definition getStream :: "uint64 \<Rightarrow> plugin_world \<Rightarrow> nat option" where
  "getStream handle w = pw_handles w handle"

definition cToBytes :: "bytes option \<Rightarrow> cint \<Rightarrow> bytes" where
  "cToBytes data dataLen =
     (case data of Some d \<Rightarrow> if 0 < sint dataLen then take (nat (sint dataLen)) d else [] | None \<Rightarrow> [])"

definition set_stream :: "nat \<Rightarrow> plugin_stream \<Rightarrow> plugin_world \<Rightarrow> plugin_world" where
  "set_stream a s w = w\<lparr>pw_streams := (pw_streams w)[a := s]\<rparr>"

section \<open>Sending to the plugin\<close>

text \<open>The critical section: \<open>Inl\<close> is an early return with its code.\<close>

definition Stream_Send_check :: "uint64 \<Rightarrow> plugin_world \<Rightarrow> cint + nat" where
  "Stream_Send_check handle w =
     (case getStream handle w of
        None \<Rightarrow> Inl 1
      | Some a \<Rightarrow> if ps_close_send (pw_streams w ! a) then Inl 3 else Inr a)"

text \<open>The select, whose panic the deferred function turns into the code 3.\<close>

definition Stream_Send_select :: "bytes \<Rightarrow> plugin_stream \<Rightarrow> (cint \<times> plugin_stream) list" where
  "Stream_Send_select d s = select_ready
     [(send_ready (ps_send_ch s),
       (case chan_send d (ps_send_ch s) of Ret c \<Rightarrow> (0, s\<lparr>ps_send_ch := c\<rparr>) | Panic p \<Rightarrow> (3, s))),
      (ps_cancelled s, (2, s))]"

definition Synurang_Stream_Send ::
    "uint64 \<Rightarrow> bytes option \<Rightarrow> cint \<Rightarrow> plugin_world \<Rightarrow> (cint \<times> plugin_world) list" where
  "Synurang_Stream_Send handle data dataLen w =
     (case Stream_Send_check handle w of
        Inl code \<Rightarrow> [(code, w)]
      | Inr a \<Rightarrow> map (\<lambda>(code, s). (code, set_stream a s w))
                  (Stream_Send_select (cToBytes data dataLen) (pw_streams w ! a)))"

section \<open>Receiving from the plugin\<close>

text \<open>
  What one receive yields, and the C result that carries it: the frame with its leading type
  byte, its length as a C \<open>int\<close> (left alone, and so 0, when there is no frame), and the status.
\<close>

datatype recv_result = RecvFrame bytes | RecvError string | RecvEOF

type_synonym c_response = "bytes option \<times> cint \<times> cint"

fun recv_wire :: "recv_result \<Rightarrow> c_response" where
  "recv_wire (RecvFrame data) = (let result = 0 # data in (Some result, C_int (length result), 0))"
| "recv_wire (RecvError e) = (let result = 1 # str_bytes e in (Some result, C_int (length result), 0))"
| "recv_wire RecvEOF = (None, 0, 1)"

text \<open>\<open>ErrCh\<close> is never closed, so a receive is ready exactly when an error is queued.\<close>

definition try_recv_err :: "plugin_stream \<Rightarrow> (recv_result \<times> plugin_stream) option" where
  "try_recv_err s =
     (case chan_recv (ps_err_ch s) of
        (Some e, c) \<Rightarrow> Some (RecvError e, s\<lparr>ps_err_ch := c\<rparr>)
      | (None, c) \<Rightarrow> None)"

definition recv_data :: "plugin_stream \<Rightarrow> recv_result \<times> plugin_stream" where
  "recv_data s =
     (case chan_recv (ps_recv_ch s) of
        (Some d, c) \<Rightarrow> (RecvFrame d, s\<lparr>ps_recv_ch := c\<rparr>)
      | (None, c) \<Rightarrow> (case try_recv_err s of Some r \<Rightarrow> r | None \<Rightarrow> (RecvEOF, s)))"

definition recv_phase1 :: "plugin_stream \<Rightarrow> (recv_result \<times> plugin_stream) option" where
  "recv_phase1 s = (if recv_ready (ps_recv_ch s) then Some (recv_data s) else None)"

definition recv_phase2 :: "plugin_stream \<Rightarrow> (recv_result \<times> plugin_stream) option" where
  "recv_phase2 s = try_recv_err s"

definition recv_cancelled :: "plugin_stream \<Rightarrow> recv_result \<times> plugin_stream" where
  "recv_cancelled s =
     (case chan_recv (ps_recv_ch s) of
        (Some d, c) \<Rightarrow> (RecvFrame d, s\<lparr>ps_recv_ch := c\<rparr>)
      | (None, c) \<Rightarrow> (RecvEOF, s))"

definition recv_phase3 :: "plugin_stream \<Rightarrow> (recv_result \<times> plugin_stream) list" where
  "recv_phase3 s =
     (if recv_ready (ps_recv_ch s) then [recv_data s] else []) @
     (case try_recv_err s of Some r \<Rightarrow> [r] | None \<Rightarrow> []) @
     (if ps_cancelled s then [recv_cancelled s] else [])"

text \<open>One call with nothing else happening in between; no result means that it blocks.\<close>

definition recv_phases :: "plugin_stream \<Rightarrow> (recv_result \<times> plugin_stream) list" where
  "recv_phases s =
     (case recv_phase1 s of
        Some r \<Rightarrow> [r]
      | None \<Rightarrow> (case recv_phase2 s of Some r \<Rightarrow> [r] | None \<Rightarrow> recv_phase3 s))"

definition Synurang_Stream_Recv :: "uint64 \<Rightarrow> plugin_world \<Rightarrow> (c_response \<times> plugin_world) list" where
  "Synurang_Stream_Recv handle w =
     (case getStream handle w of
        None \<Rightarrow> [((None, 0, 2), w)]
      | Some a \<Rightarrow> map (\<lambda>(r, s). (recv_wire r, set_stream a s w)) (recv_phases (pw_streams w ! a)))"

section \<open>Closing\<close>

definition stream_cancel :: "plugin_stream \<Rightarrow> plugin_stream" where
  "stream_cancel s = s\<lparr>ps_cancelled := True\<rparr>"

definition closeSendCh :: "plugin_stream \<Rightarrow> plugin_stream outcome" where
  "closeSendCh s =
     (if \<not> ps_close_send s
      then bind_outcome (chan_close (ps_send_ch s)) (\<lambda>c. Ret (s\<lparr>ps_close_send := True, ps_send_ch := c\<rparr>))
      else Ret s)"

definition CloseRecvCh :: "plugin_stream \<Rightarrow> plugin_stream outcome" where
  "CloseRecvCh s =
     (if \<not> ps_close_recv s
      then bind_outcome (chan_close (ps_recv_ch s)) (\<lambda>c. Ret (s\<lparr>ps_close_recv := True, ps_recv_ch := c\<rparr>))
      else Ret s)"

definition Synurang_Stream_CloseSend :: "uint64 \<Rightarrow> plugin_world \<Rightarrow> plugin_world outcome" where
  "Synurang_Stream_CloseSend handle w =
     (case getStream handle w of
        None \<Rightarrow> Ret w
      | Some a \<Rightarrow> bind_outcome (closeSendCh (pw_streams w ! a)) (\<lambda>s. Ret (set_stream a s w)))"

definition Synurang_Stream_Close :: "uint64 \<Rightarrow> plugin_world \<Rightarrow> plugin_world outcome" where
  "Synurang_Stream_Close handle w =
     (case pw_handles w handle of
        None \<Rightarrow> Ret w
      | Some a \<Rightarrow>
          bind_outcome (closeSendCh (stream_cancel (pw_streams w ! a))) (\<lambda>s.
          bind_outcome (CloseRecvCh s) (\<lambda>s'.
          Ret (set_stream a s' (w\<lparr>pw_handles := (pw_handles w)(handle := None)\<rparr>)))))"

section \<open>The handler's side\<close>

text \<open>
  The stream wrappers of the generated plugin code, with the message codec left out: a send
  of marshalled data (\<open>None\<close>: sent, \<open>Some ()\<close>: the context was cancelled), a receive
  (\<open>None\<close> inside the result is the end of the input), and the non-blocking report of an
  error.
\<close>

definition handler_Send :: "bytes \<Rightarrow> plugin_stream \<Rightarrow> (unit option \<times> plugin_stream) outcome list" where
  "handler_Send data s = select_ready
     [(send_ready (ps_recv_ch s),
       bind_outcome (chan_send data (ps_recv_ch s)) (\<lambda>c. Ret (None, s\<lparr>ps_recv_ch := c\<rparr>))),
      (ps_cancelled s, Ret (Some (), s))]"

datatype handler_input = Input bytes | InputEOF | InputCancelled

definition handler_Recv :: "plugin_stream \<Rightarrow> (handler_input \<times> plugin_stream) list" where
  "handler_Recv s = select_ready
     [(recv_ready (ps_send_ch s),
       (case chan_recv (ps_send_ch s) of
          (Some d, c) \<Rightarrow> (Input d, s\<lparr>ps_send_ch := c\<rparr>) | (None, c) \<Rightarrow> (InputEOF, s))),
      (ps_cancelled s, (InputCancelled, s))]"

definition trySendErr :: "string \<Rightarrow> plugin_stream \<Rightarrow> plugin_stream" where
  "trySendErr e s =
     (if send_ready (ps_err_ch s)
      then (case chan_send e (ps_err_ch s) of Ret c \<Rightarrow> s\<lparr>ps_err_ch := c\<rparr> | Panic p \<Rightarrow> s)
      else s)"

text \<open>
  How the handler goroutine ends: its error, if it has one to report, then the two deferred
  calls that remain.
\<close>

definition handler_goroutine_exit :: "string option \<Rightarrow> plugin_stream \<Rightarrow> plugin_stream outcome" where
  "handler_goroutine_exit err s =
     CloseRecvCh (stream_cancel (case err of Some e \<Rightarrow> trySendErr e s | None \<Rightarrow> s))"

section \<open>The stream invariant\<close>

definition pstream_inv :: "plugin_stream \<Rightarrow> bool" where
  "pstream_inv s \<longleftrightarrow>
     ch_closed (ps_send_ch s) = ps_close_send s \<and> ch_closed (ps_recv_ch s) = ps_close_recv s \<and>
     \<not> ch_closed (ps_err_ch s) \<and>
     ch_cap (ps_send_ch s) = 16 \<and> ch_cap (ps_recv_ch s) = 16 \<and> ch_cap (ps_err_ch s) = 1 \<and>
     chan_wf (ps_send_ch s) \<and> chan_wf (ps_recv_ch s) \<and> chan_wf (ps_err_ch s)"

lemma pstream_inv_new [simp]: "pstream_inv (new_plugin_stream m)"
  by (simp add: pstream_inv_def new_plugin_stream_def)

lemma pstream_inv_cancel [simp]: "pstream_inv (stream_cancel s) = pstream_inv s"
  by (simp add: pstream_inv_def stream_cancel_def)

lemma stream_cancel_simps [simp]:
  "ps_send_ch (stream_cancel s) = ps_send_ch s" "ps_recv_ch (stream_cancel s) = ps_recv_ch s"
  "ps_err_ch (stream_cancel s) = ps_err_ch s" "ps_cancelled (stream_cancel s)"
  "ps_close_send (stream_cancel s) = ps_close_send s" "ps_close_recv (stream_cancel s) = ps_close_recv s"
  by (simp_all add: stream_cancel_def)

lemma closeSendCh_ok:
  assumes "pstream_inv s"
  shows "closeSendCh s = Ret (s\<lparr>ps_close_send := True, ps_send_ch := (ps_send_ch s)\<lparr>ch_closed := True\<rparr>\<rparr>)"
  using assms by (auto simp: closeSendCh_def chan_close_def pstream_inv_def)

lemma CloseRecvCh_ok:
  assumes "pstream_inv s"
  shows "CloseRecvCh s = Ret (s\<lparr>ps_close_recv := True, ps_recv_ch := (ps_recv_ch s)\<lparr>ch_closed := True\<rparr>\<rparr>)"
  using assms by (auto simp: CloseRecvCh_def chan_close_def pstream_inv_def)

lemma try_recv_err_cases:
  "try_recv_err s = (case ch_buf (ps_err_ch s) of [] \<Rightarrow> None
     | e # es \<Rightarrow> Some (RecvError e, s\<lparr>ps_err_ch := (ps_err_ch s)\<lparr>ch_buf := es\<rparr>\<rparr>))"
  by (simp add: try_recv_err_def split: list.splits)

end
