(* ===== verification/PluginSteps.thy ===== *)
theory PluginSteps
  imports PluginServer
begin

text \<open>
  The plugin side under concurrency: host threads in \<open>Synurang_Stream_Send\<close> and
  \<open>Synurang_Stream_Recv\<close>, which are split at their lock region and between their selects,
  closes, and the goroutines of the handlers. The three calls of \<open>Synurang_Stream_Close\<close>
  and the deferred calls of a handler goroutine are single steps that may happen at any
  time. The history of a stream records what went in and out of its three channels.
\<close>

section \<open>The step relation\<close>

datatype plugin_thread = PSending nat bytes | PRecv2 nat | PRecv3 nat

fun thread_stream :: "plugin_thread \<Rightarrow> nat" where
  "thread_stream (PSending a d) = a"
| "thread_stream (PRecv2 a) = a"
| "thread_stream (PRecv3 a) = a"

record stream_history =
  hi_in :: "bytes list"
  hi_taken :: "bytes list"
  hi_out :: "bytes list"
  hi_frames :: "bytes list"
  hi_errs :: "string list"
  hi_seen :: "string list"

definition no_history :: stream_history where
  "no_history = \<lparr>hi_in = [], hi_taken = [], hi_out = [], hi_frames = [], hi_errs = [], hi_seen = []\<rparr>"

record plugin_conf =
  pc_world :: plugin_world
  pc_threads :: "plugin_thread multiset"
  pc_hist :: "nat \<Rightarrow> stream_history"

definition plugin_init :: plugin_conf where
  "plugin_init = \<lparr>pc_world = init_plugin_world, pc_threads = {#}, pc_hist = (\<lambda>_. no_history)\<rparr>"

abbreviation pstream :: "plugin_conf \<Rightarrow> nat \<Rightarrow> plugin_stream" where
  "pstream c a \<equiv> pw_streams (pc_world c) ! a"

definition is_stream :: "plugin_conf \<Rightarrow> nat \<Rightarrow> bool" where
  "is_stream c a \<longleftrightarrow> a < length (pw_streams (pc_world c))"

definition upd :: "nat \<Rightarrow> plugin_stream \<Rightarrow> (stream_history \<Rightarrow> stream_history) \<Rightarrow> plugin_conf \<Rightarrow> plugin_conf" where
  "upd a s f c = c\<lparr>pc_world := set_stream a s (pc_world c), pc_hist := (pc_hist c)(a := f (pc_hist c a))\<rparr>"

definition add_thread :: "plugin_thread \<Rightarrow> plugin_conf \<Rightarrow> plugin_conf" where
  "add_thread t c = c\<lparr>pc_threads := add_mset t (pc_threads c)\<rparr>"

definition end_thread :: "plugin_thread \<Rightarrow> plugin_conf \<Rightarrow> plugin_conf" where
  "end_thread t c = c\<lparr>pc_threads := pc_threads c - {#t#}\<rparr>"

fun note_recv :: "recv_result \<Rightarrow> stream_history \<Rightarrow> stream_history" where
  "note_recv (RecvFrame d) h = h\<lparr>hi_frames := hi_frames h @ [d]\<rparr>"
| "note_recv (RecvError e) h = h\<lparr>hi_seen := hi_seen h @ [e]\<rparr>"
| "note_recv RecvEOF h = h"

inductive plugin_step :: "plugin_conf \<Rightarrow> plugin_conf \<Rightarrow> bool" where
  pl_new: "NewStream m (pc_world c) = (r, w) \<Longrightarrow> plugin_step c (c\<lparr>pc_world := w\<rparr>)"
| pl_check: "Stream_Send_check h (pc_world c) = Inr a \<Longrightarrow> plugin_step c (add_thread (PSending a d) c)"
| pl_sent: "PSending a d \<in># pc_threads c \<Longrightarrow> (0, s) \<in> set (Stream_Send_select d (pstream c a)) \<Longrightarrow>
     plugin_step c (end_thread (PSending a d) (upd a s (\<lambda>h. h\<lparr>hi_in := hi_in h @ [d]\<rparr>) c))"
| pl_not_sent: "PSending a d \<in># pc_threads c \<Longrightarrow> (code, s) \<in> set (Stream_Send_select d (pstream c a)) \<Longrightarrow>
     code \<noteq> 0 \<Longrightarrow> plugin_step c (end_thread (PSending a d) c)"
| pl_recv1: "getStream h (pc_world c) = Some a \<Longrightarrow> recv_phase1 (pstream c a) = Some (r, s) \<Longrightarrow>
     plugin_step c (upd a s (note_recv r) c)"
| pl_recv1_default: "getStream h (pc_world c) = Some a \<Longrightarrow> recv_phase1 (pstream c a) = None \<Longrightarrow>
     plugin_step c (add_thread (PRecv2 a) c)"
| pl_recv2: "PRecv2 a \<in># pc_threads c \<Longrightarrow> recv_phase2 (pstream c a) = Some (r, s) \<Longrightarrow>
     plugin_step c (end_thread (PRecv2 a) (upd a s (note_recv r) c))"
| pl_recv2_default: "PRecv2 a \<in># pc_threads c \<Longrightarrow> recv_phase2 (pstream c a) = None \<Longrightarrow>
     plugin_step c (add_thread (PRecv3 a) (end_thread (PRecv2 a) c))"
| pl_recv3: "PRecv3 a \<in># pc_threads c \<Longrightarrow> (r, s) \<in> set (recv_phase3 (pstream c a)) \<Longrightarrow>
     plugin_step c (end_thread (PRecv3 a) (upd a s (note_recv r) c))"
| pl_unregister: "plugin_step c
     (c\<lparr>pc_world := (pc_world c)\<lparr>pw_handles := (pw_handles (pc_world c))(h := None)\<rparr>\<rparr>)"
| pl_cancel: "is_stream c a \<Longrightarrow> plugin_step c (upd a (stream_cancel (pstream c a)) id c)"
| pl_close_send: "is_stream c a \<Longrightarrow> closeSendCh (pstream c a) = Ret s \<Longrightarrow> plugin_step c (upd a s id c)"
| pl_close_recv: "is_stream c a \<Longrightarrow> CloseRecvCh (pstream c a) = Ret s \<Longrightarrow> plugin_step c (upd a s id c)"
| pl_handler_send: "is_stream c a \<Longrightarrow> Ret (None, s) \<in> set (handler_Send d (pstream c a)) \<Longrightarrow>
     plugin_step c (upd a s (\<lambda>h. h\<lparr>hi_out := hi_out h @ [d]\<rparr>) c)"
| pl_handler_recv: "is_stream c a \<Longrightarrow> (Input d, s) \<in> set (handler_Recv (pstream c a)) \<Longrightarrow>
     plugin_step c (upd a s (\<lambda>h. h\<lparr>hi_taken := hi_taken h @ [d]\<rparr>) c)"
| pl_error: "is_stream c a \<Longrightarrow> plugin_step c (upd a (trySendErr e (pstream c a))
     (\<lambda>h. if send_ready (ps_err_ch (pstream c a)) then h\<lparr>hi_errs := hi_errs h @ [e]\<rparr> else h) c)"

inductive plugin_reachable :: "plugin_conf \<Rightarrow> bool" where
  pr_init: "plugin_reachable plugin_init"
| pr_step: "plugin_reachable c \<Longrightarrow> plugin_step c c' \<Longrightarrow> plugin_reachable c'"

text \<open>The panics of a close, and of the send of a handler, which its goroutine recovers.\<close>

inductive plugin_close_panics :: "plugin_conf \<Rightarrow> go_panic \<Rightarrow> bool" where
  pp_close_send: "is_stream c a \<Longrightarrow> closeSendCh (pstream c a) = Panic p \<Longrightarrow> plugin_close_panics c p"
| pp_close_recv: "is_stream c a \<Longrightarrow> CloseRecvCh (pstream c a) = Panic p \<Longrightarrow> plugin_close_panics c p"

section \<open>The invariant\<close>

definition hist_ok :: "plugin_stream \<Rightarrow> stream_history \<Rightarrow> bool" where
  "hist_ok s h \<longleftrightarrow> pstream_inv s \<and>
     hi_in h = hi_taken h @ ch_buf (ps_send_ch s) \<and>
     hi_out h = hi_frames h @ ch_buf (ps_recv_ch s) \<and>
     hi_errs h = hi_seen h @ ch_buf (ps_err_ch s)"

definition plugin_inv :: "plugin_conf \<Rightarrow> bool" where
  "plugin_inv c \<longleftrightarrow>
     (\<forall>a. if is_stream c a then hist_ok (pstream c a) (pc_hist c a) else pc_hist c a = no_history) \<and>
     (\<forall>h a. pw_handles (pc_world c) h = Some a \<longrightarrow> is_stream c a) \<and>
     (\<forall>t \<in># pc_threads c. is_stream c (thread_stream t))"

lemma plugin_invD:
  assumes "plugin_inv c"
  shows "is_stream c a \<Longrightarrow> hist_ok (pstream c a) (pc_hist c a)"
    and "is_stream c a \<Longrightarrow> pstream_inv (pstream c a)"
    and "\<not> is_stream c a \<Longrightarrow> pc_hist c a = no_history"
    and "pw_handles (pc_world c) h = Some a \<Longrightarrow> is_stream c a"
    and "t \<in># pc_threads c \<Longrightarrow> is_stream c (thread_stream t)"
proof -
  have all: "if is_stream c a then hist_ok (pstream c a) (pc_hist c a) else pc_hist c a = no_history"
    for a using assms by (simp add: plugin_inv_def)
  show 1: "is_stream c a \<Longrightarrow> hist_ok (pstream c a) (pc_hist c a)" using all [of a] by simp
  show "is_stream c a \<Longrightarrow> pstream_inv (pstream c a)" using 1 by (simp add: hist_ok_def)
  show "\<not> is_stream c a \<Longrightarrow> pc_hist c a = no_history" using all [of a] by simp
qed (use assms in \<open>auto simp: plugin_inv_def\<close>)

lemma conf_upd_simps [simp]:
  "pw_handles (pc_world (upd a s f c)) = pw_handles (pc_world c)"
  "pc_threads (upd a s f c) = pc_threads c"
  "is_stream (upd a s f c) b = is_stream c b"
  "is_stream (add_thread t c) b = is_stream c b" "is_stream (end_thread t c) b = is_stream c b"
  "pc_world (add_thread t c) = pc_world c" "pc_hist (add_thread t c) = pc_hist c"
  "pc_world (end_thread t c) = pc_world c" "pc_hist (end_thread t c) = pc_hist c"
  "pc_threads (add_thread t c) = add_mset t (pc_threads c)"
  "pc_threads (end_thread t c) = pc_threads c - {#t#}"
  by (simp_all add: upd_def set_stream_def is_stream_def add_thread_def end_thread_def)

lemma upd_inv:
  assumes "plugin_inv c" and "is_stream c a" and "hist_ok s (f (pc_hist c a))"
  shows "plugin_inv (upd a s f c)"
proof -
  have "if is_stream c b then hist_ok (pstream (upd a s f c) b) (pc_hist (upd a s f c) b)
      else pc_hist (upd a s f c) b = no_history" for b
    using assms plugin_invD(1,3) [OF assms(1), of b]
    by (auto simp: upd_def set_stream_def is_stream_def nth_list_update)
  then show ?thesis using plugin_invD(4,5) [OF assms(1)] unfolding plugin_inv_def by simp
qed

lemma end_thread_inv: "plugin_inv c \<Longrightarrow> plugin_inv (end_thread t c)"
  by (auto simp: plugin_inv_def dest: in_diffD)

lemma add_thread_inv: "plugin_inv c \<Longrightarrow> is_stream c (thread_stream t) \<Longrightarrow> plugin_inv (add_thread t c)"
  by (simp add: plugin_inv_def)

lemma plugin_init_inv: "plugin_inv plugin_init"
  by (simp add: plugin_inv_def plugin_init_def init_plugin_world_def is_stream_def)

section \<open>The effect of the channel operations on a stream and its history\<close>

lemma try_recv_err_hist:
  "hist_ok s h \<Longrightarrow> try_recv_err s = Some (r, s') \<Longrightarrow> hist_ok s' (note_recv r h)"
  by (auto simp: try_recv_err_cases hist_ok_def pstream_inv_def chan_wf_def split: list.splits)

lemma recv_data_hist:
  assumes "hist_ok s h" and "recv_data s = (r, s')"
  shows "hist_ok s' (note_recv r h)"
proof (cases "ch_buf (ps_recv_ch s)")
  case Nil
  with assms show ?thesis
    by (auto simp: recv_data_def split: option.splits dest: try_recv_err_hist)
next
  case (Cons d ds)
  with assms show ?thesis by (auto simp: recv_data_def hist_ok_def pstream_inv_def chan_wf_def)
qed

lemma recv_cancelled_hist:
  "hist_ok s h \<Longrightarrow> recv_cancelled s = (r, s') \<Longrightarrow> hist_ok s' (note_recv r h)"
  by (auto simp: recv_cancelled_def hist_ok_def pstream_inv_def chan_wf_def split: list.splits)

lemma recv_phase1_hist:
  "hist_ok s h \<Longrightarrow> recv_phase1 s = Some (r, s') \<Longrightarrow> hist_ok s' (note_recv r h)"
  by (auto simp: recv_phase1_def split: if_splits dest: recv_data_hist)

lemma recv_phase3_hist:
  "hist_ok s h \<Longrightarrow> (r, s') \<in> set (recv_phase3 s) \<Longrightarrow> hist_ok s' (note_recv r h)"
  by (auto simp: recv_phase3_def split: if_splits option.splits
      dest: recv_data_hist [OF _ sym] recv_cancelled_hist [OF _ sym] try_recv_err_hist [OF _ sym])

lemma Send_select_hist:
  "hist_ok s h \<Longrightarrow> (0, s') \<in> set (Stream_Send_select d s) \<Longrightarrow> hist_ok s' (h\<lparr>hi_in := hi_in h @ [d]\<rparr>)"
  by (auto simp: Stream_Send_select_def hist_ok_def pstream_inv_def chan_defs chan_wf_def split: if_splits)

lemma handler_Send_hist:
  "hist_ok s h \<Longrightarrow> Ret (None, s') \<in> set (handler_Send d s) \<Longrightarrow> hist_ok s' (h\<lparr>hi_out := hi_out h @ [d]\<rparr>)"
  by (auto simp: handler_Send_def hist_ok_def pstream_inv_def chan_defs chan_wf_def split: if_splits)

lemma handler_Recv_hist:
  "hist_ok s h \<Longrightarrow> (Input d, s') \<in> set (handler_Recv s) \<Longrightarrow> hist_ok s' (h\<lparr>hi_taken := hi_taken h @ [d]\<rparr>)"
  by (auto simp: handler_Recv_def hist_ok_def pstream_inv_def chan_wf_def split: if_splits list.splits)

lemma trySendErr_hist:
  "hist_ok s h \<Longrightarrow> hist_ok (trySendErr e s)
     (if send_ready (ps_err_ch s) then h\<lparr>hi_errs := hi_errs h @ [e]\<rparr> else h)"
  by (auto simp: trySendErr_def hist_ok_def pstream_inv_def chan_defs chan_wf_def)

lemma close_hist:
  "hist_ok s h \<Longrightarrow> closeSendCh s = Ret s' \<Longrightarrow> hist_ok s' h"
  "hist_ok s h \<Longrightarrow> CloseRecvCh s = Ret s' \<Longrightarrow> hist_ok s' h"
  "hist_ok s h \<Longrightarrow> hist_ok (stream_cancel s) h"
  by (auto simp: hist_ok_def closeSendCh_ok CloseRecvCh_ok pstream_inv_def chan_wf_def)

lemmas hist_intros = try_recv_err_hist recv_phase1_hist recv_phase3_hist Send_select_hist
  handler_Send_hist handler_Recv_hist trySendErr_hist close_hist

lemma plugin_new_inv:
  assumes "plugin_inv c" and "NewStream m (pc_world c) = (r, w)"
  shows "plugin_inv (c\<lparr>pc_world := w\<rparr>)"
proof -
  let ?n = "length (pw_streams (pc_world c))"
  have w: "w = (pc_world c)\<lparr>pw_counter := pw_counter (pc_world c) + 1,
      pw_handles := (pw_handles (pc_world c))(pw_counter (pc_world c) + 1 \<mapsto> ?n),
      pw_streams := pw_streams (pc_world c) @ [new_plugin_stream m]\<rparr>"
    using assms(2) by (auto simp: NewStream_def Let_def)
  have "hist_ok (new_plugin_stream m) no_history"
    by (simp add: hist_ok_def no_history_def) (simp add: new_plugin_stream_def)
  then have 1: "if is_stream (c\<lparr>pc_world := w\<rparr>) b
      then hist_ok (pstream (c\<lparr>pc_world := w\<rparr>) b) (pc_hist (c\<lparr>pc_world := w\<rparr>) b)
      else pc_hist (c\<lparr>pc_world := w\<rparr>) b = no_history" for b
    using plugin_invD(1,3) [OF assms(1), of b] plugin_invD(3) [OF assms(1), of ?n]
    by (auto simp: w is_stream_def nth_append less_Suc_eq)
  have old: "is_stream c b \<Longrightarrow> is_stream (c\<lparr>pc_world := w\<rparr>) b" for b
    by (simp add: is_stream_def w)
  have "is_stream (c\<lparr>pc_world := w\<rparr>) ?n" by (simp add: is_stream_def w)
  then have 2: "pw_handles w h = Some b \<Longrightarrow> is_stream (c\<lparr>pc_world := w\<rparr>) b" for h b
    using plugin_invD(4) [OF assms(1)] old by (auto simp: w split: if_splits)
  have 3: "t \<in># pc_threads c \<Longrightarrow> is_stream (c\<lparr>pc_world := w\<rparr>) (thread_stream t)" for t
    using plugin_invD(5) [OF assms(1)] old by blast
  show ?thesis unfolding plugin_inv_def
    by (intro conjI allI ballI impI, rule 1) (simp_all add: 2 3)
qed

lemma Send_check_stream: "plugin_inv c \<Longrightarrow> Stream_Send_check h (pc_world c) = Inr a \<Longrightarrow> is_stream c a"
  by (auto simp: Stream_Send_check_def getStream_def plugin_invD(4) split: option.splits if_splits)

lemma thread_is_stream:
  assumes "plugin_inv c"
  shows "PSending a d \<in># pc_threads c \<Longrightarrow> is_stream c a"
    and "PRecv2 a \<in># pc_threads c \<Longrightarrow> is_stream c a"
    and "PRecv3 a \<in># pc_threads c \<Longrightarrow> is_stream c a"
  using plugin_invD(5) [OF assms] by fastforce+

lemma upd_hist_inv:
  assumes "plugin_inv c" and "is_stream c a"
    and "hist_ok (pstream c a) (pc_hist c a) \<Longrightarrow> hist_ok s (f (pc_hist c a))"
  shows "plugin_inv (upd a s f c)"
  using assms plugin_invD(1) by (blast intro: upd_inv)

lemma plugin_step_inv: "plugin_step c c' \<Longrightarrow> plugin_inv c \<Longrightarrow> plugin_inv c'"
proof (induction rule: plugin_step.induct)
  case (pl_new m c r w)
  then show ?case by (simp add: plugin_new_inv)
next
  case (pl_check h c a d)
  then show ?case by (simp add: add_thread_inv Send_check_stream)
next
  case (pl_unregister c h)
  then show ?case by (auto simp: plugin_inv_def is_stream_def)
qed (auto intro!: upd_hist_inv end_thread_inv add_thread_inv simp: recv_phase2_def getStream_def
      intro: hist_intros thread_is_stream plugin_invD(4))

lemma plugin_reachable_inv: "plugin_reachable c \<Longrightarrow> plugin_inv c"
  by (induction rule: plugin_reachable.induct) (simp_all add: plugin_init_inv plugin_step_inv)

end
