(* ===== verification/PluginServerProps.thy ===== *)
theory PluginServerProps
  imports PluginSteps
begin

text \<open>
  What the plugin side of a stream guarantees: order and completeness of what crosses it,
  what an end of stream means, that closing is safe and final, and that handles are
  distinct.
\<close>

section \<open>The streams as a handle table\<close>

definition plugin_alloc :: "string \<Rightarrow> plugin_world \<Rightarrow> uint64 \<times> plugin_world" where
  "plugin_alloc m w = (let ((h, a), w') = NewStream m w in (h, w'))"

definition plugin_remove :: "uint64 \<Rightarrow> plugin_world \<Rightarrow> plugin_world" where
  "plugin_remove h w = (case Synurang_Stream_Close h w of Ret w' \<Rightarrow> w' | Panic p \<Rightarrow> w)"

definition plugin_room :: "plugin_world \<Rightarrow> nat" where
  "plugin_room w = 2 ^ 64 - 1 - unat (pw_counter w)"

definition plugin_table_inv :: "plugin_world \<Rightarrow> bool" where
  "plugin_table_inv w \<longleftrightarrow>
     (\<forall>h a. pw_handles w h = Some a \<longrightarrow> unat h \<le> unat (pw_counter w) \<and> a < length (pw_streams w)) \<and>
     (\<forall>s \<in> set (pw_streams w). pstream_inv s)"

lemma plugin_alloc_simp:
  "plugin_alloc m w = (pw_counter w + 1, w\<lparr>pw_counter := pw_counter w + 1,
     pw_handles := (pw_handles w)(pw_counter w + 1 \<mapsto> length (pw_streams w)),
     pw_streams := pw_streams w @ [new_plugin_stream m]\<rparr>)"
  by (simp add: plugin_alloc_def NewStream_def Let_def)

text \<open>A close of a registered stream, from the invariant.\<close>

definition closed_stream :: "plugin_stream \<Rightarrow> plugin_stream" where
  "closed_stream s = s\<lparr>ps_cancelled := True, ps_close_send := True,
     ps_send_ch := (ps_send_ch s)\<lparr>ch_closed := True\<rparr>, ps_close_recv := True,
     ps_recv_ch := (ps_recv_ch s)\<lparr>ch_closed := True\<rparr>\<rparr>"

lemma closed_stream_inv: "pstream_inv s \<Longrightarrow> pstream_inv (closed_stream s)"
  by (simp add: pstream_inv_def closed_stream_def chan_wf_def)

lemma Synurang_Stream_Close_Ret:
  assumes "plugin_table_inv w"
  shows "Synurang_Stream_Close h w = Ret (case pw_handles w h of None \<Rightarrow> w
     | Some a \<Rightarrow> set_stream a (closed_stream (pw_streams w ! a))
                 (w\<lparr>pw_handles := (pw_handles w)(h := None)\<rparr>))"
proof (cases "pw_handles w h")
  case None
  then show ?thesis by (simp add: Synurang_Stream_Close_def)
next
  case (Some a)
  then have "pstream_inv (pw_streams w ! a)" using assms by (simp add: plugin_table_inv_def)
  then have 1: "pstream_inv (stream_cancel (pw_streams w ! a))" by simp
  have 2: "pstream_inv (stream_cancel (pw_streams w ! a)\<lparr>ps_close_send := True,
      ps_send_ch := (ps_send_ch (pw_streams w ! a))\<lparr>ch_closed := True\<rparr>\<rparr>)"
    using 1 by (simp add: pstream_inv_def chan_wf_def)
  show ?thesis
    using Some closeSendCh_ok [OF 1] CloseRecvCh_ok [OF 2]
    by (simp add: Synurang_Stream_Close_def closed_stream_def) (simp add: stream_cancel_def)
qed

lemma plugin_remove_simp:
  assumes "plugin_table_inv w"
  shows "plugin_remove h w = (case pw_handles w h of None \<Rightarrow> w
     | Some a \<Rightarrow> set_stream a (closed_stream (pw_streams w ! a))
                 (w\<lparr>pw_handles := (pw_handles w)(h := None)\<rparr>))"
  by (simp add: plugin_remove_def Synurang_Stream_Close_Ret [OF assms])

lemma set_stream_simps [simp]:
  "pw_handles (set_stream a s w) = pw_handles w" "pw_counter (set_stream a s w) = pw_counter w"
  "pw_streams (set_stream a s w) = (pw_streams w)[a := s]"
  by (simp_all add: set_stream_def)

interpretation plugin_streams: handle_table plugin_alloc "\<lambda>w h. getStream h w" plugin_remove
  plugin_table_inv plugin_room
proof
  fix w m
  assume inv: "plugin_table_inv w" and room: "0 < plugin_room w"
  have up: "unat (pw_counter w + 1) = Suc (unat (pw_counter w))"
    using room by (intro unat_plus_one_less) (simp add: plugin_room_def)
  show "getStream (fst (plugin_alloc m w)) w = None"
    using inv up by (cases "pw_handles w (pw_counter w + 1)")
      (force simp: plugin_table_inv_def getStream_def plugin_alloc_simp)+
  show "getStream (fst (plugin_alloc m w)) (snd (plugin_alloc m w)) \<noteq> None"
    by (simp add: getStream_def plugin_alloc_simp)
  show "plugin_table_inv (snd (plugin_alloc m w))"
    using inv up by (auto simp: plugin_alloc_simp plugin_table_inv_def le_Suc_eq less_Suc_eq)
  show "plugin_room (snd (plugin_alloc m w)) = plugin_room w - 1"
    using up by (simp add: plugin_alloc_simp plugin_room_def)
next
  fix h m w
  assume "h \<noteq> fst (plugin_alloc m w)"
  then show "getStream h (snd (plugin_alloc m w)) = getStream h w"
    by (simp add: getStream_def plugin_alloc_simp)
next
  fix w h h'
  assume inv: "plugin_table_inv w"
  show "getStream h (plugin_remove h w) = None"
    by (simp add: plugin_remove_simp [OF inv] getStream_def split: option.splits)
  show "plugin_room (plugin_remove h w) = plugin_room w"
    by (simp add: plugin_remove_simp [OF inv] plugin_room_def split: option.splits)
  show "plugin_table_inv (plugin_remove h w)"
    using inv closed_stream_inv
    by (auto simp: plugin_remove_simp [OF inv] plugin_table_inv_def split: option.splits if_splits
        dest!: set_update_subset_insert [THEN subsetD])
  assume "h' \<noteq> h"
  then show "getStream h' (plugin_remove h w) = getStream h' w"
    by (simp add: plugin_remove_simp [OF inv] getStream_def split: option.splits)
qed

section \<open>Concrete runs\<close>

definition plugin_opened :: plugin_conf where
  "plugin_opened = plugin_init\<lparr>pc_world := snd (NewStream ''/s/M'' init_plugin_world)\<rparr>"

lemma plugin_opened_simps:
  "pw_streams (pc_world plugin_opened) = [new_plugin_stream ''/s/M'']"
  "pw_handles (pc_world plugin_opened) = [1 \<mapsto> 0]" "pw_counter (pc_world plugin_opened) = 1"
  "pc_threads plugin_opened = {#}" "pc_hist plugin_opened = (\<lambda>_. no_history)"
  "is_stream plugin_opened 0"
  by (simp_all add: plugin_opened_def plugin_init_def NewStream_def init_plugin_world_def is_stream_def)

lemma plugin_opened_reachable: "plugin_reachable plugin_opened"
proof -
  have "plugin_step plugin_init plugin_opened"
    unfolding plugin_opened_def
    by (rule pl_new [of "''/s/M''" _ "fst (NewStream ''/s/M'' init_plugin_world)"])
       (simp add: plugin_init_def)
  then show ?thesis by (rule pr_step [OF pr_init])
qed

text \<open>The host is before the last select of a receive when the handler goes on.\<close>

definition plugin_receiving :: plugin_conf where
  "plugin_receiving = add_thread (PRecv3 0) (end_thread (PRecv2 0) (add_thread (PRecv2 0) plugin_opened))"

lemma plugin_receiving_reachable: "plugin_reachable plugin_receiving"
proof -
  have new: "ps_recv_ch (pstream plugin_opened 0) = make_chan 16"
    "ps_err_ch (pstream plugin_opened 0) = make_chan 1"
    by (simp_all add: plugin_opened_simps new_plugin_stream_def)
  have "plugin_step plugin_opened (add_thread (PRecv2 0) plugin_opened)"
    by (rule pl_recv1_default [of 1])
       (simp_all add: getStream_def plugin_opened_simps recv_phase1_def recv_ready_def new_plugin_stream_def)
  then have "plugin_reachable (add_thread (PRecv2 0) plugin_opened)"
    by (rule pr_step [OF plugin_opened_reachable])
  moreover have "plugin_step (add_thread (PRecv2 0) plugin_opened) plugin_receiving"
    unfolding plugin_receiving_def
    by (rule pl_recv2_default) (simp_all add: recv_phase2_def try_recv_err_cases new)
  ultimately show ?thesis by (rule pr_step)
qed

lemma plugin_receiving_simps:
  "pw_streams (pc_world plugin_receiving) = [new_plugin_stream ''/s/M'']"
  "pc_threads plugin_receiving = {#PRecv3 0#}" "is_stream plugin_receiving 0"
  "pc_hist plugin_receiving = (\<lambda>_. no_history)"
  by (simp_all add: plugin_receiving_def plugin_opened_simps)

text \<open>The handler sends a chunk, then reports an error.\<close>

definition plugin_sent :: plugin_conf where
  "plugin_sent = upd 0 ((new_plugin_stream ''/s/M'')\<lparr>ps_recv_ch := (make_chan 16)\<lparr>ch_buf := [[7]]\<rparr>\<rparr>)
     (\<lambda>h. h\<lparr>hi_out := hi_out h @ [[7]]\<rparr>) plugin_receiving"

lemma plugin_sent_reachable: "plugin_reachable plugin_sent"
proof -
  have "plugin_step plugin_receiving plugin_sent"
    unfolding plugin_sent_def
    by (rule pl_handler_send)
       (simp_all add: plugin_receiving_simps handler_Send_def send_ready_def chan_send_def new_plugin_stream_def)
  then show ?thesis by (rule pr_step [OF plugin_receiving_reachable])
qed

lemma plugin_sent_simps:
  "pstream plugin_sent 0 = (new_plugin_stream ''/s/M'')\<lparr>ps_recv_ch := (make_chan 16)\<lparr>ch_buf := [[7]]\<rparr>\<rparr>"
  "is_stream plugin_sent 0" "pc_threads plugin_sent = {#PRecv3 0#}"
  "pc_hist plugin_sent 0 = no_history\<lparr>hi_out := [[7]]\<rparr>"
  by (simp_all add: plugin_sent_def plugin_receiving_simps is_stream_def)
     (simp_all add: upd_def set_stream_def plugin_receiving_simps is_stream_def no_history_def)

lemma error_step:
  assumes "plugin_reachable c" and "is_stream c a"
  shows "\<exists>c'. plugin_reachable c' \<and> is_stream c' a \<and> pstream c' a = trySendErr e (pstream c a) \<and>
    pc_threads c' = pc_threads c"
  using assms(2)
  by (intro exI conjI, rule_tac pr_step [OF assms(1) pl_error [OF assms(2), of e]])
     (simp_all add: upd_def set_stream_def is_stream_def)

lemma cancel_step:
  assumes "plugin_reachable c" and "is_stream c a"
  shows "\<exists>c'. plugin_reachable c' \<and> is_stream c' a \<and> pstream c' a = stream_cancel (pstream c a) \<and>
    pc_threads c' = pc_threads c"
  using assms(2)
  by (intro exI conjI, rule_tac pr_step [OF assms(1) pl_cancel [OF assms(2)]])
     (simp_all add: upd_def set_stream_def is_stream_def)


section \<open>Properties\<close>

text \<open>
  C11. Nothing that crosses a plugin stream is lost, duplicated or reordered, whatever the
  interleaving: what the host has sent is what the handler has taken followed by what is
  queued, and so in the other direction for the chunks and for the errors.
\<close>

theorem plugin_stream_fifo:
  assumes "plugin_reachable c" and "is_stream c a"
  shows "hi_in (pc_hist c a) = hi_taken (pc_hist c a) @ ch_buf (ps_send_ch (pstream c a)) \<and>
    hi_out (pc_hist c a) = hi_frames (pc_hist c a) @ ch_buf (ps_recv_ch (pstream c a)) \<and>
    hi_errs (pc_hist c a) = hi_seen (pc_hist c a) @ ch_buf (ps_err_ch (pstream c a))"
  using plugin_invD(1) [OF plugin_reachable_inv [OF assms(1)] assms(2)] by (simp add: hist_ok_def)

theorem plugin_stream_fifo_witness:
  "hi_out (pc_hist plugin_sent 0) = hi_frames (pc_hist plugin_sent 0) @ [[7]] \<and>
   hi_out (pc_hist plugin_sent 0) = [[7]]"
  using plugin_stream_fifo [OF plugin_sent_reachable plugin_sent_simps(2)]
  by (simp add: plugin_sent_simps)

text \<open>
  C12. An end of stream is reported only when everything the handler sent has been received:
  if a receive in any reachable state yields the end of the stream, the frames the host got
  are exactly the chunks the handler sent.
\<close>

theorem plugin_eof_complete:
  assumes "plugin_reachable c" and "is_stream c a"
    and "recv_phase1 (pstream c a) = Some (RecvEOF, s) \<or> (RecvEOF, s) \<in> set (recv_phase3 (pstream c a))"
  shows "hi_frames (pc_hist c a) = hi_out (pc_hist c a) \<and>
    (ps_close_recv (pstream c a) \<or> ps_cancelled (pstream c a))"
proof -
  have ok: "hist_ok (pstream c a) (pc_hist c a)"
    by (rule plugin_invD(1) [OF plugin_reachable_inv [OF assms(1)] assms(2)])
  have "ch_buf (ps_recv_ch (pstream c a)) = [] \<and>
      (ch_closed (ps_recv_ch (pstream c a)) \<or> ps_cancelled (pstream c a))"
    using assms(3)
    by (auto simp: recv_phase1_def recv_phase3_def recv_data_def recv_cancelled_def recv_ready_def
        try_recv_err_cases split: list.splits if_splits)
  with ok show ?thesis by (auto simp: hist_ok_def pstream_inv_def)
qed

theorem plugin_eof_complete_witness:
  "\<exists>c. plugin_reachable c \<and> recv_phase3 (pstream c 0) = [(RecvEOF, pstream c 0)] \<and>
     hi_frames (pc_hist c 0) = hi_out (pc_hist c 0)"
proof -
  obtain c where c: "plugin_reachable c" "is_stream c 0"
    "pstream c 0 = stream_cancel (new_plugin_stream ''/s/M'')"
    using cancel_step [OF plugin_receiving_reachable plugin_receiving_simps(3)]
    by (auto simp: plugin_receiving_simps)
  have p: "recv_phase3 (pstream c 0) = [(RecvEOF, pstream c 0)]"
    by (simp add: c recv_phase3_def recv_ready_def try_recv_err_cases recv_cancelled_def)
       (simp add: new_plugin_stream_def)
  then have "(RecvEOF, pstream c 0) \<in> set (recv_phase3 (pstream c 0))" by simp
  from plugin_eof_complete [OF c(1,2) disjI2 [OF this]] c p show ?thesis by blast
qed

text \<open>
  Two defects of the blocking select of \<open>Synurang_Stream_Recv\<close>: an error can overtake a
  chunk the handler sent before it, so that the host stops with data undelivered; and when
  the handler fails while the host waits, the cancellation of the context can win over the
  error, so that the host sees a regular end of stream.
\<close>

theorem plugin_recv_races:
  "(\<exists>c s. plugin_reachable c \<and> PRecv3 0 \<in># pc_threads c \<and>
      ch_buf (ps_recv_ch (pstream c 0)) = [[7]] \<and>
      (RecvError ''e'', s) \<in> set (recv_phase3 (pstream c 0)) \<and> ch_buf (ps_recv_ch s) = [[7]]) \<and>
   (\<exists>c. plugin_reachable c \<and> PRecv3 0 \<in># pc_threads c \<and>
      ch_buf (ps_err_ch (pstream c 0)) = [''e''] \<and>
      (RecvEOF, pstream c 0) \<in> set (recv_phase3 (pstream c 0)))"
proof (intro conjI)
  obtain c where "plugin_reachable c" "pstream c 0 = trySendErr ''e'' (pstream plugin_sent 0)"
    "pc_threads c = {#PRecv3 0#}"
    using error_step [OF plugin_sent_reachable plugin_sent_simps(2)] by (auto simp: plugin_sent_simps)
  then show "\<exists>c s. plugin_reachable c \<and> PRecv3 0 \<in># pc_threads c \<and>
      ch_buf (ps_recv_ch (pstream c 0)) = [[7]] \<and>
      (RecvError ''e'', s) \<in> set (recv_phase3 (pstream c 0)) \<and> ch_buf (ps_recv_ch s) = [[7]]"
    by (intro exI [of _ c])
       (simp add: plugin_sent_simps new_plugin_stream_def trySendErr_def send_ready_def chan_send_def
          recv_phase3_def recv_ready_def try_recv_err_cases recv_data_def)
next
  obtain c1 where c1: "plugin_reachable c1" "is_stream c1 0"
    "pstream c1 0 = trySendErr ''e'' (new_plugin_stream ''/s/M'')" "pc_threads c1 = {#PRecv3 0#}"
    using error_step [OF plugin_receiving_reachable plugin_receiving_simps(3)]
    by (auto simp: plugin_receiving_simps)
  obtain c where "plugin_reachable c" "pstream c 0 = stream_cancel (pstream c1 0)"
    "pc_threads c = {#PRecv3 0#}"
    using cancel_step [OF c1(1,2)] c1(4) by auto
  then show "\<exists>c. plugin_reachable c \<and> PRecv3 0 \<in># pc_threads c \<and>
      ch_buf (ps_err_ch (pstream c 0)) = [''e''] \<and>
      (RecvEOF, pstream c 0) \<in> set (recv_phase3 (pstream c 0))"
    by (intro exI [of _ c])
       (simp add: c1 new_plugin_stream_def trySendErr_def send_ready_def chan_send_def
          stream_cancel_def recv_phase3_def recv_ready_def try_recv_err_cases recv_cancelled_def)
qed

text \<open>
  One receive, undisturbed: an unknown handle has status 2; a queued chunk comes first,
  whatever else is ready, with its type byte 0; then a queued error, with the type byte 1;
  then the end of the stream when the channel is closed or the stream cancelled; and
  otherwise the call blocks.
\<close>

theorem Synurang_Stream_Recv_spec:
  assumes "plugin_table_inv w"
  shows "map fst (Synurang_Stream_Recv h w) =
    (case getStream h w of
       None \<Rightarrow> [(None, 0, 2)]
     | Some a \<Rightarrow>
         (let s = pw_streams w ! a in
          case ch_buf (ps_recv_ch s) of
            d # ds \<Rightarrow> [(Some (0 # d), C_int (Suc (length d)), 0)]
          | [] \<Rightarrow> (case ch_buf (ps_err_ch s) of
                e # es \<Rightarrow> [(Some (1 # str_bytes e), C_int (Suc (length e)), 0)]
              | [] \<Rightarrow> if ps_close_recv s \<or> ps_cancelled s then [(None, 0, 1)] else [])))"
proof (cases "getStream h w")
  case None
  then show ?thesis by (simp add: Synurang_Stream_Recv_def)
next
  case (Some a)
  then have "pstream_inv (pw_streams w ! a)"
    using assms by (simp add: plugin_table_inv_def getStream_def)
  with Some show ?thesis
    by (auto simp: Synurang_Stream_Recv_def recv_phases_def recv_phase1_def recv_phase2_def
        recv_phase3_def recv_data_def recv_cancelled_def try_recv_err_cases recv_ready_def Let_def
        pstream_inv_def split: list.splits)
qed

theorem Synurang_Stream_Recv_spec_witness:
  "plugin_table_inv (pc_world plugin_sent) \<and>
   map fst (Synurang_Stream_Recv 1 (pc_world plugin_sent)) = [(Some [0, 7], 2, 0)] \<and>
   map fst (Synurang_Stream_Recv 2 (pc_world plugin_sent)) = [(None, 0, 2)]"
proof -
  have h: "pw_handles (pc_world plugin_sent) = [1 \<mapsto> 0]" "pw_counter (pc_world plugin_sent) = 1"
    "pw_streams (pc_world plugin_sent) =
       [(new_plugin_stream ''/s/M'')\<lparr>ps_recv_ch := (make_chan 16)\<lparr>ch_buf := [[7]]\<rparr>\<rparr>]"
    by (simp_all add: plugin_sent_def upd_def set_stream_def plugin_receiving_def plugin_opened_simps)
  have inv: "plugin_table_inv (pc_world plugin_sent)"
    by (simp add: plugin_table_inv_def h)
       (simp add: pstream_inv_def new_plugin_stream_def chan_wf_def)
  from Synurang_Stream_Recv_spec [OF inv, of 1] Synurang_Stream_Recv_spec [OF inv, of 2] inv
  show ?thesis by (simp add: getStream_def h Let_def C_int_def)
qed


text \<open>
  One send, undisturbed: the code is 1 for an unknown handle and 3 after the send side
  was closed; otherwise the chunk is appended to the queue (code 0) while it has fewer than
  16 chunks, a cancelled stream may answer with code 2 and drop it, and with the queue full
  on a stream that is not cancelled the call blocks.
\<close>

theorem Synurang_Stream_Send_spec:
  assumes "plugin_table_inv w" and "length d \<le> MaxInt32"
  shows "Synurang_Stream_Send h (Some d) (C_int (length d)) w =
    (case getStream h w of
       None \<Rightarrow> [(1, w)]
     | Some a \<Rightarrow>
         (let s = pw_streams w ! a in
          if ps_close_send s then [(3, w)]
          else (if length (ch_buf (ps_send_ch s)) < 16
                then [(0, set_stream a (s\<lparr>ps_send_ch := (ps_send_ch s)\<lparr>ch_buf := ch_buf (ps_send_ch s) @ [d]\<rparr>\<rparr>) w)]
                else []) @
               (if ps_cancelled s then [(2, w)] else [])))"
proof (cases "getStream h w")
  case None
  then show ?thesis by (simp add: Synurang_Stream_Send_def Stream_Send_check_def)
next
  case (Some a)
  then have "pstream_inv (pw_streams w ! a)" "cToBytes (Some d) (C_int (length d)) = d"
    using assms by (auto simp: plugin_table_inv_def getStream_def cToBytes_def)
  moreover have "set_stream a (pw_streams w ! a) w = w" by (simp add: set_stream_def)
  ultimately show ?thesis using Some
    by (auto simp: Synurang_Stream_Send_def Stream_Send_check_def Stream_Send_select_def
        send_ready_def chan_send_def Let_def pstream_inv_def)
qed

theorem Synurang_Stream_Send_spec_witness:
  "plugin_table_inv (pc_world plugin_opened) \<and>
   map fst (Synurang_Stream_Send 1 (Some [5, 6]) 2 (pc_world plugin_opened)) = [0] \<and>
   map fst (Synurang_Stream_Send 9 (Some [5, 6]) 2 (pc_world plugin_opened)) = [1]"
proof -
  have inv: "plugin_table_inv (pc_world plugin_opened)"
    by (simp add: plugin_table_inv_def plugin_opened_simps)
  have len: "length [5, 6 :: byte] \<le> MaxInt32" by (simp add: MaxInt32_def)
  from Synurang_Stream_Send_spec [OF inv len, of 1] Synurang_Stream_Send_spec [OF inv len, of 9] inv
  show ?thesis by (simp add: getStream_def plugin_opened_simps Let_def new_plugin_stream_def C_int_def)
qed

text \<open>
  C16. Closing is safe: in no reachable state does closing either channel panic, whoever
  closes it and however often.
\<close>

theorem plugin_close_never_panics:
  assumes "plugin_reachable c"
  shows "\<not> plugin_close_panics c p"
proof
  assume "plugin_close_panics c p"
  then show False
  proof cases
    case (pp_close_send a)
    then show False
      using closeSendCh_ok [OF plugin_invD(2) [OF plugin_reachable_inv [OF assms]]] by simp
  next
    case (pp_close_recv a)
    then show False
      using CloseRecvCh_ok [OF plugin_invD(2) [OF plugin_reachable_inv [OF assms]]] by simp
  qed
qed

theorem plugin_close_never_panics_witness:
  "\<not> plugin_close_panics plugin_sent CloseOfClosed"
  by (rule plugin_close_never_panics [OF plugin_sent_reachable])

text \<open>
  Closing is final and strands nobody: after \<open>Synurang_Stream_Close\<close> the handle is
  unknown to every operation, a second close changes nothing, the other handles keep their
  streams, and the handler can no longer block on the stream: its receive is ready, and so
  is its send, which either reports the cancellation or panics inside the goroutine's
  recover.
\<close>

theorem Synurang_Stream_Close_final:
  assumes "plugin_table_inv w" and "getStream h w = Some a"
  shows "\<exists>w'. Synurang_Stream_Close h w = Ret w' \<and>
    Synurang_Stream_Close h w' = Ret w' \<and> Synurang_Stream_CloseSend h w' = Ret w' \<and>
    Synurang_Stream_Send h d n w' = [(1, w')] \<and>
    Synurang_Stream_Recv h w' = [((None, 0, 2), w')] \<and>
    (\<forall>h'. h' \<noteq> h \<longrightarrow> getStream h' w' = getStream h' w) \<and>
    handler_Recv (pw_streams w' ! a) \<noteq> [] \<and>
    set (handler_Send data (pw_streams w' ! a)) =
      {Panic SendOnClosed, Ret (Some (), pw_streams w' ! a)}"
proof -
  have h: "pw_handles w h = Some a" using assms(2) by (simp add: getStream_def)
  have a: "a < length (pw_streams w)" using assms(1) h by (simp add: plugin_table_inv_def)
  let ?w = "set_stream a (closed_stream (pw_streams w ! a)) (w\<lparr>pw_handles := (pw_handles w)(h := None)\<rparr>)"
  have "Synurang_Stream_Close h w = Ret ?w" by (simp add: Synurang_Stream_Close_Ret [OF assms(1)] h)
  moreover have "getStream h ?w = None" by (simp add: getStream_def)
  moreover have "pw_streams ?w ! a = closed_stream (pw_streams w ! a)" using a by simp
  moreover have "handler_Recv (closed_stream s) \<noteq> []" for s
    by (simp add: handler_Recv_def closed_stream_def)
  moreover have "set (handler_Send data (closed_stream s)) = {Panic SendOnClosed, Ret (Some (), closed_stream s)}"
    for s by (auto simp: handler_Send_def closed_stream_def send_ready_def chan_send_def)
  ultimately show ?thesis
    by (intro exI [of _ ?w])
       (auto simp: Synurang_Stream_Close_def Synurang_Stream_CloseSend_def Synurang_Stream_Send_def
          Stream_Send_check_def Synurang_Stream_Recv_def getStream_def)
qed

theorem Synurang_Stream_Close_final_witness:
  "\<exists>w'. Synurang_Stream_Close 1 (pc_world plugin_opened) = Ret w' \<and>
     Synurang_Stream_Close 1 w' = Ret w' \<and> Synurang_Stream_Recv 1 w' = [((None, 0, 2), w')]"
proof -
  have inv: "plugin_table_inv (pc_world plugin_opened)"
    by (simp add: plugin_table_inv_def plugin_opened_simps)
  have "getStream 1 (pc_world plugin_opened) = Some 0" by (simp add: getStream_def plugin_opened_simps)
  from Synurang_Stream_Close_final [OF inv this, of None 0 "[]"] show ?thesis by blast
qed

text \<open>
  Streams opened one after another, as long as the 64-bit counter does not wrap, get
  pairwise different handles that were not in use, and all of them are open afterwards.
\<close>

theorem plugin_handles_distinct:
  assumes "plugin_table_inv w" and "length ms \<le> 2 ^ 64 - 1 - unat (pw_counter w)"
  shows "distinct (fst (alloc_all plugin_alloc ms w)) \<and>
    (\<forall>h \<in> set (fst (alloc_all plugin_alloc ms w)).
       getStream h w = None \<and> getStream h (snd (alloc_all plugin_alloc ms w)) \<noteq> None)"
  using assms by (intro plugin_streams.alloc_all_distinct) (simp_all add: plugin_room_def)

theorem plugin_handles_distinct_witness:
  "plugin_table_inv init_plugin_world \<and>
   fst (alloc_all plugin_alloc [''a'', ''b''] init_plugin_world) = [1, 2] \<and>
   distinct (fst (alloc_all plugin_alloc [''a'', ''b''] init_plugin_world))"
proof -
  have inv: "plugin_table_inv init_plugin_world" by (simp add: plugin_table_inv_def init_plugin_world_def)
  have "length [''a'', ''b''] \<le> 2 ^ 64 - 1 - unat (pw_counter init_plugin_world)"
    by (simp add: init_plugin_world_def)
  from plugin_handles_distinct [OF inv this] inv show ?thesis
    by (simp add: plugin_alloc_simp Let_def init_plugin_world_def)
qed

end
