(* ===== verification/PluginHost.thy ===== *)
theory PluginHost
  imports CBoundary
begin

text \<open>
  The host side of the plugin transport (\<open>pkg/synurang/plugin.go\<close>): a \<open>Plugin\<close> with its
  caches of function pointers, its active streams, its wait group and its closed flag. The
  functions that call through the operating system's loader and the C boundary
  (\<open>platformOpen\<close> and its eight siblings, variables of the package) are a parameter: a
  record of functions on the state \<open>'l\<close> of the loaded library. A call that may block
  returns the list of its possible results. Reading an answer out of the memory of the library
  panics when the library gave it a negative length; the deferred \<open>wg.Done\<close> still runs.
\<close>

section \<open>Data\<close>

type_synonym uintptr = "64 word"

record 'l platform =
  pf_open :: "string \<Rightarrow> 'l \<Rightarrow> uintptr option \<times> 'l"
  pf_sym :: "uintptr \<Rightarrow> string \<Rightarrow> uintptr option"
  pf_close :: "uintptr \<Rightarrow> 'l \<Rightarrow> 'l"
  pf_invoke :: "uintptr \<Rightarrow> uintptr \<Rightarrow> string \<Rightarrow> bytes \<Rightarrow> 'l \<Rightarrow> (string + bytes) outcome \<times> 'l"
  pf_stream_open :: "uintptr \<Rightarrow> string \<Rightarrow> 'l \<Rightarrow> uint64 \<times> 'l"
  pf_stream_send :: "uintptr \<Rightarrow> uint64 \<Rightarrow> bytes \<Rightarrow> 'l \<Rightarrow> (int \<times> 'l) list"
  pf_stream_recv :: "uintptr \<Rightarrow> uintptr \<Rightarrow> uint64 \<Rightarrow> 'l \<Rightarrow> ((bytes \<times> int \<times> int) outcome \<times> 'l) list"
  pf_stream_close_send :: "uintptr \<Rightarrow> uint64 \<Rightarrow> 'l \<Rightarrow> 'l"
  pf_stream_close :: "uintptr \<Rightarrow> uint64 \<Rightarrow> 'l \<Rightarrow> 'l"

record globalStreamFuncs =
  sf_send :: uintptr
  sf_recv :: uintptr
  sf_closeSend :: uintptr
  sf_close :: uintptr

record plugin =
  pl_handle :: uintptr
  pl_freePtr :: uintptr
  pl_invokers :: "string \<Rightarrow> uintptr option"
  pl_streamOpeners :: "string \<Rightarrow> uintptr option"
  pl_streamFuncs :: "globalStreamFuncs option"
  pl_activeStreams :: "uint64 list"
  pl_wg :: nat
  pl_closed :: bool

text \<open>The errors the package returns, with what their messages are made of.\<close>

datatype host_error =
    LoadFailed string | MissingFree string | ErrPluginClosed | ErrDataTooLarge
  | ServiceNotFound string | InvokeFailed string | EmptyResponse string | PluginError string
  | IncompleteStreaming | StreamingNotSupported string | OpenFailed string | NoStreamFuncs
  | SendFailed int | EmptyStreamResponse | EndOfFile | StreamError string | StreamStatus int

text \<open>A symbol that is not found, or found at address 0, is missing.\<close>

definition find_sym :: "'l platform \<Rightarrow> uintptr \<Rightarrow> string \<Rightarrow> uintptr option" where
  "find_sym pf handle name =
     (case pf_sym pf handle name of Some ptr \<Rightarrow> if ptr = 0 then None else Some ptr | None \<Rightarrow> None)"

section \<open>Loading and symbol lookup\<close>

definition new_plugin :: "uintptr \<Rightarrow> uintptr \<Rightarrow> plugin" where
  "new_plugin handle freePtr =
     \<lparr>pl_handle = handle, pl_freePtr = freePtr, pl_invokers = Map.empty, pl_streamOpeners = Map.empty,
      pl_streamFuncs = None, pl_activeStreams = [], pl_wg = 0, pl_closed = False\<rparr>"

definition LoadPlugin :: "'l platform \<Rightarrow> string \<Rightarrow> 'l \<Rightarrow> (host_error + plugin) \<times> 'l" where
  "LoadPlugin pf path l =
     (case pf_open pf path l of
        (None, l1) \<Rightarrow> (Inl (LoadFailed path), l1)
      | (Some handle, l1) \<Rightarrow>
          (case find_sym pf handle ''Synurang_Free'' of
             None \<Rightarrow> (Inl (MissingFree path), pf_close pf handle l1)
           | Some freePtr \<Rightarrow> (Inr (new_plugin handle freePtr), l1)))"

definition getInvoker :: "'l platform \<Rightarrow> string \<Rightarrow> plugin \<Rightarrow> (host_error + uintptr) \<times> plugin" where
  "getInvoker pf serviceName p =
     (case pl_invokers p serviceName of
        Some ptr \<Rightarrow> (Inr ptr, p)
      | None \<Rightarrow>
          if pl_closed p \<or> pl_handle p = 0 then (Inl ErrPluginClosed, p)
          else (case find_sym pf (pl_handle p) (''Synurang_Invoke_'' @ serviceName) of
                  None \<Rightarrow> (Inl (ServiceNotFound serviceName), p)
                | Some ptr \<Rightarrow> (Inr ptr, p\<lparr>pl_invokers := (pl_invokers p)(serviceName \<mapsto> ptr)\<rparr>)))"

definition ensureStreamFuncs :: "'l platform \<Rightarrow> plugin \<Rightarrow> host_error option \<times> plugin" where
  "ensureStreamFuncs pf p =
     (case pl_streamFuncs p of
        Some sf \<Rightarrow> (None, p)
      | None \<Rightarrow>
          (case (find_sym pf (pl_handle p) ''Synurang_Stream_Send'',
                 find_sym pf (pl_handle p) ''Synurang_Stream_Recv'',
                 find_sym pf (pl_handle p) ''Synurang_Stream_CloseSend'',
                 find_sym pf (pl_handle p) ''Synurang_Stream_Close'') of
             (Some s, Some r, Some cs, Some c) \<Rightarrow>
               (None, p\<lparr>pl_streamFuncs := Some \<lparr>sf_send = s, sf_recv = r, sf_closeSend = cs, sf_close = c\<rparr>\<rparr>)
           | _ \<Rightarrow> (Some IncompleteStreaming, p)))"

definition getStreamOpener :: "'l platform \<Rightarrow> string \<Rightarrow> plugin \<Rightarrow> (host_error + uintptr) \<times> plugin" where
  "getStreamOpener pf serviceName p =
     (case pl_streamOpeners p serviceName of
        Some ptr \<Rightarrow> (Inr ptr, p)
      | None \<Rightarrow>
          if pl_closed p \<or> pl_handle p = 0 then (Inl ErrPluginClosed, p)
          else (case ensureStreamFuncs pf p of
                  (Some e, p1) \<Rightarrow> (Inl e, p1)
                | (None, p1) \<Rightarrow>
                    (case find_sym pf (pl_handle p1) (''Synurang_Stream_'' @ serviceName @ ''_Open'') of
                       None \<Rightarrow> (Inl (StreamingNotSupported serviceName), p1)
                     | Some ptr \<Rightarrow>
                         (Inr ptr, p1\<lparr>pl_streamOpeners := (pl_streamOpeners p1)(serviceName \<mapsto> ptr)\<rparr>))))"

section \<open>The wait group\<close>

text \<open>Entering a call: refused on a closed plugin, and otherwise counted; and \<open>wg.Done\<close>.\<close>

definition enter_call :: "plugin \<Rightarrow> host_error + plugin" where
  "enter_call p = (if pl_closed p then Inl ErrPluginClosed else Inr (p\<lparr>pl_wg := pl_wg p + 1\<rparr>))"

definition leave_call :: "plugin \<Rightarrow> plugin" where
  "leave_call p = p\<lparr>pl_wg := pl_wg p - 1\<rparr>"

text \<open>
  \<open>streamFuncs\<close> is set once and never reset, so what the caller reads after the lock is
  what the check saw: it is part of the result.
\<close>

definition acquireForStreamOp :: "plugin \<Rightarrow> host_error + (globalStreamFuncs \<times> plugin)" where
  "acquireForStreamOp p =
     (if pl_closed p then Inl ErrPluginClosed
      else case pl_streamFuncs p of
             None \<Rightarrow> Inl NoStreamFuncs
           | Some sf \<Rightarrow> Inr (sf, p\<lparr>pl_wg := pl_wg p + 1\<rparr>))"

section \<open>Unary calls\<close>

definition invokeInternal ::
    "'l platform \<Rightarrow> string \<Rightarrow> string \<Rightarrow> bytes \<Rightarrow> plugin \<Rightarrow> 'l \<Rightarrow>
     (host_error + bytes) outcome \<times> plugin \<times> 'l" where
  "invokeInternal pf serviceName method data p l =
     (case enter_call p of
        Inl e \<Rightarrow> (Ret (Inl e), p, l)
      | Inr p1 \<Rightarrow>
          (case getInvoker pf serviceName p1 of
             (Inl e, p2) \<Rightarrow> (Ret (Inl e), leave_call p2, l)
           | (Inr invokePtr, p2) \<Rightarrow>
               if length data > MaxInt32 then (Ret (Inl ErrDataTooLarge), leave_call p2, l)
               else (case pf_invoke pf invokePtr (pl_freePtr p2) method data l of
                       (r, l') \<Rightarrow>
                         (bind_outcome r (\<lambda>x. Ret (case x of Inl e \<Rightarrow> Inl (InvokeFailed e) | Inr d \<Rightarrow> Inr d)),
                          leave_call p2, l'))))"

definition decode_response :: "string \<Rightarrow> bytes \<Rightarrow> host_error + bytes" where
  "decode_response method result =
     (case result of
        [] \<Rightarrow> Inl (EmptyResponse method)
      | b # payload \<Rightarrow> if b = 1 then Inl (PluginError (bytes_str payload)) else Inr payload)"

definition Plugin_Invoke ::
    "'l platform \<Rightarrow> string \<Rightarrow> string \<Rightarrow> bytes \<Rightarrow> plugin \<Rightarrow> 'l \<Rightarrow>
     (host_error + bytes) outcome \<times> plugin \<times> 'l" where
  "Plugin_Invoke pf serviceName method data p l =
     (case invokeInternal pf serviceName method data p l of
        (r, p', l') \<Rightarrow>
          (bind_outcome r (\<lambda>x. Ret (case x of Inl e \<Rightarrow> Inl e | Inr result \<Rightarrow> decode_response method result)),
           p', l'))"

section \<open>Streams\<close>

text \<open>The end of \<open>OpenStream\<close>, under the lock: a stream opened too late is closed at once.\<close>

definition OpenStream_register ::
    "'l platform \<Rightarrow> uint64 \<Rightarrow> plugin \<Rightarrow> 'l \<Rightarrow> (host_error + uint64) outcome \<times> plugin \<times> 'l" where
  "OpenStream_register pf handle p l =
     (if pl_closed p
      then (case pl_streamFuncs p of
              None \<Rightarrow> (Panic NilDeref, p, l)
            | Some sf \<Rightarrow> (Ret (Inl ErrPluginClosed), p, pf_stream_close pf (sf_close sf) handle l))
      else (Ret (Inr handle), p\<lparr>pl_activeStreams := List.insert handle (pl_activeStreams p)\<rparr>, l))"

definition OpenStream ::
    "'l platform \<Rightarrow> string \<Rightarrow> string \<Rightarrow> plugin \<Rightarrow> 'l \<Rightarrow> (host_error + uint64) outcome \<times> plugin \<times> 'l" where
  "OpenStream pf serviceName method p l =
     (case enter_call p of
        Inl e \<Rightarrow> (Ret (Inl e), p, l)
      | Inr p1 \<Rightarrow>
          (case getStreamOpener pf serviceName p1 of
             (Inl e, p2) \<Rightarrow> (Ret (Inl e), leave_call p2, l)
           | (Inr openPtr, p2) \<Rightarrow>
               (let (handle, l1) = pf_stream_open pf openPtr method l in
                if handle = 0 then (Ret (Inl (OpenFailed method)), leave_call p2, l1)
                else (let (r, p3, l2) = OpenStream_register pf handle p2 l1 in (r, leave_call p3, l2)))))"

definition StreamSend ::
    "'l platform \<Rightarrow> uint64 \<Rightarrow> bytes \<Rightarrow> plugin \<Rightarrow> 'l \<Rightarrow> (host_error option \<times> plugin \<times> 'l) list" where
  "StreamSend pf handle data p l =
     (case acquireForStreamOp p of
        Inl e \<Rightarrow> [(Some e, p, l)]
      | Inr (sf, p1) \<Rightarrow>
          if length data > MaxInt32 then [(Some ErrDataTooLarge, leave_call p1, l)]
          else map (\<lambda>(code, l'). (if code \<noteq> 0 then Some (SendFailed code) else None, leave_call p1, l'))
                 (pf_stream_send pf (sf_send sf) handle data l))"

definition decode_stream :: "bytes \<Rightarrow> int \<Rightarrow> int \<Rightarrow> host_error + bytes" where
  "decode_stream data respLen status =
     (if status = 0
      then (case data of
              [] \<Rightarrow> Inl EmptyStreamResponse
            | b # payload \<Rightarrow> if b = 1 then Inl (PluginError (bytes_str payload)) else Inr payload)
      else if status = 1 then Inl EndOfFile
      else if 0 < respLen \<and> data \<noteq> [] then Inl (StreamError (bytes_str data))
      else Inl (StreamStatus status))"

definition StreamRecv ::
    "'l platform \<Rightarrow> uint64 \<Rightarrow> plugin \<Rightarrow> 'l \<Rightarrow> ((host_error + bytes) outcome \<times> plugin \<times> 'l) list" where
  "StreamRecv pf handle p l =
     (case acquireForStreamOp p of
        Inl e \<Rightarrow> [(Ret (Inl e), p, l)]
      | Inr (sf, p1) \<Rightarrow>
          map (\<lambda>(r, l'). (bind_outcome r (\<lambda>(data, respLen, status). Ret (decode_stream data respLen status)),
                          leave_call p1, l'))
            (pf_stream_recv pf (sf_recv sf) (pl_freePtr p1) handle l))"

definition StreamCloseSend ::
    "'l platform \<Rightarrow> uint64 \<Rightarrow> plugin \<Rightarrow> 'l \<Rightarrow> host_error option \<times> plugin \<times> 'l" where
  "StreamCloseSend pf handle p l =
     (case acquireForStreamOp p of
        Inl e \<Rightarrow> (Some e, p, l)
      | Inr (sf, p1) \<Rightarrow> (None, leave_call p1, pf_stream_close_send pf (sf_closeSend sf) handle l))"

text \<open>
  \<open>StreamClose\<close>: under the lock the stream is taken out of the active ones, and what is
  left to do is the function to call, if the plugin is open and the stream was active.
\<close>

definition StreamClose_lock :: "uint64 \<Rightarrow> plugin \<Rightarrow> globalStreamFuncs option \<times> plugin" where
  "StreamClose_lock handle p =
     (if pl_closed p \<or> pl_handle p = 0 then (None, p)
      else if handle \<notin> set (pl_activeStreams p) then (None, p)
      else (let p1 = p\<lparr>pl_activeStreams := removeAll handle (pl_activeStreams p)\<rparr> in
            case pl_streamFuncs p of
              None \<Rightarrow> (None, p1)
            | Some sf \<Rightarrow> (Some sf, p1\<lparr>pl_wg := pl_wg p1 + 1\<rparr>)))"

definition StreamClose :: "'l platform \<Rightarrow> uint64 \<Rightarrow> plugin \<Rightarrow> 'l \<Rightarrow> plugin \<times> 'l" where
  "StreamClose pf handle p l =
     (case StreamClose_lock handle p of
        (None, p1) \<Rightarrow> (p1, l)
      | (Some sf, p1) \<Rightarrow> (leave_call p1, pf_stream_close pf (sf_close sf) handle l))"

section \<open>Closing the plugin\<close>

text \<open>
  The first critical section of \<open>Close\<close>: \<open>None\<close> when the plugin was closed already, and
  otherwise the handles to close (in the unspecified order \<open>ord\<close> of Go's map) and the
  function that closes them. \<open>Close_unload\<close> is the last one, after the wait.
\<close>

definition Close_lock :: "(uint64 list \<Rightarrow> uint64 list) \<Rightarrow> plugin \<Rightarrow> (uint64 list \<times> uintptr) option \<times> plugin" where
  "Close_lock ord p =
     (if pl_closed p then (None, p)
      else (Some (ord (pl_activeStreams p),
                  case pl_streamFuncs p of Some sf \<Rightarrow> sf_close sf | None \<Rightarrow> 0),
            p\<lparr>pl_closed := True, pl_activeStreams := []\<rparr>))"

definition Close_streams :: "'l platform \<Rightarrow> uint64 list \<Rightarrow> uintptr \<Rightarrow> 'l \<Rightarrow> 'l" where
  "Close_streams pf handles closeFunc l =
     (if closeFunc \<noteq> 0 then fold (pf_stream_close pf closeFunc) handles l else l)"

definition Close_unload :: "'l platform \<Rightarrow> plugin \<Rightarrow> 'l \<Rightarrow> plugin \<times> 'l" where
  "Close_unload pf p l =
     (if pl_handle p \<noteq> 0 then (p\<lparr>pl_handle := 0\<rparr>, pf_close pf (pl_handle p) l) else (p, l))"

text \<open>The whole of \<open>Close\<close>; no result while calls are under way.\<close>

definition Plugin_Close ::
    "'l platform \<Rightarrow> (uint64 list \<Rightarrow> uint64 list) \<Rightarrow> plugin \<Rightarrow> 'l \<Rightarrow> (plugin \<times> 'l) list" where
  "Plugin_Close pf ord p l =
     (case Close_lock ord p of
        (None, p1) \<Rightarrow> [(p1, l)]
      | (Some (handles, closeFunc), p1) \<Rightarrow>
          if pl_wg p1 = 0 then [Close_unload pf p1 (Close_streams pf handles closeFunc l)] else [])"

end
