(* ===== verification/PluginHostSteps.thy ===== *)
theory PluginHostSteps
  imports PluginHost "HOL-Library.Multiset"
begin

text \<open>
  The host side under concurrency: any number of goroutines call the operations of a
  \<open>Plugin\<close> while another closes it. A step is one critical section, the beginning or the end
  of one call into the library, or one move of the wait group. \<open>hc_loaded\<close> says whether the
  library is mapped; \<open>hc_opened\<close> and \<open>hc_closes\<close> record which streams the library has
  opened and how often \<open>platformStreamClose\<close> was called for each handle.
\<close>

section \<open>Threads\<close>

text \<open>
  Where a goroutine is: \<open>HInvoke\<close> and \<open>HOpen\<close> have entered (are counted) and look their
  function up; \<open>HOpening\<close>, \<open>HCall\<close>, \<open>HClosing\<close>, \<open>HLateClosing\<close> and \<open>HCloseIn\<close> are inside
  the library; \<open>HOpened\<close> has opened a stream and not registered it; \<open>HLeaving\<close> is before its
  \<open>wg.Done\<close>; \<open>HCloseLoop\<close> and \<open>HUnload\<close> are \<open>Close\<close> in its loop, and past its wait.
\<close>

datatype host_thread =
    HInvoke string | HOpen string | HOpening | HOpened uint64 | HCall | HClosing
  | HLateClosing | HLeaving | HCloseLoop "uint64 list" | HCloseIn "uint64 list" | HUnload

fun weight :: "host_thread \<Rightarrow> nat" where
  "weight (HCloseLoop hs) = 0"
| "weight HUnload = 0"
| "weight HLateClosing = 2"
| "weight t = 1"

fun in_library :: "host_thread \<Rightarrow> bool" where
  "in_library HOpening = True"
| "in_library HCall = True"
| "in_library HClosing = True"
| "in_library HLateClosing = True"
| "in_library (HCloseIn hs) = True"
| "in_library t = False"

fun is_closer :: "host_thread \<Rightarrow> nat" where
  "is_closer (HCloseLoop hs) = 1"
| "is_closer (HCloseIn hs) = 1"
| "is_closer HUnload = 1"
| "is_closer t = 0"

fun owed :: "uint64 \<Rightarrow> host_thread \<Rightarrow> nat" where
  "owed h (HOpened h') = (if h' = h then 1 else 0)"
| "owed h (HCloseLoop hs) = count_list hs h"
| "owed h (HCloseIn hs) = count_list hs h"
| "owed h t = 0"

definition tsum :: "(host_thread \<Rightarrow> nat) \<Rightarrow> host_thread multiset \<Rightarrow> nat" where
  "tsum f T = sum_mset (image_mset f T)"

lemma tsum_simps [simp]: "tsum f {#} = 0" "tsum f (add_mset t T) = f t + tsum f T"
  by (simp_all add: tsum_def)

lemma tsum_ge: "t \<in># T \<Longrightarrow> f t \<le> tsum f T"
  by (auto dest!: multi_member_split)

section \<open>The step relation\<close>

record host_conf =
  hc_plugin :: plugin
  hc_threads :: "host_thread multiset"
  hc_loaded :: bool
  hc_opened :: "uint64 set"
  hc_closes :: "uint64 \<Rightarrow> nat"

definition host_init :: "uintptr \<Rightarrow> uintptr \<Rightarrow> host_conf" where
  "host_init handle freePtr = \<lparr>hc_plugin = new_plugin handle freePtr, hc_threads = {#},
     hc_loaded = True, hc_opened = {}, hc_closes = (\<lambda>_. 0)\<rparr>"

definition hset :: "plugin \<Rightarrow> host_thread multiset \<Rightarrow> host_conf \<Rightarrow> host_conf" where
  "hset p T c = c\<lparr>hc_plugin := p, hc_threads := T\<rparr>"

definition count_close :: "uint64 \<Rightarrow> host_conf \<Rightarrow> host_conf" where
  "count_close h c = c\<lparr>hc_closes := (hc_closes c)(h := Suc (hc_closes c h))\<rparr>"

inductive host_step :: "'l platform \<Rightarrow> host_conf \<Rightarrow> host_conf \<Rightarrow> bool" for pf where
  hs_invoke: "enter_call (hc_plugin c) = Inr p \<Longrightarrow>
     host_step pf c (hset p (add_mset (HInvoke svc) (hc_threads c)) c)"
| hs_invoker: "hc_threads c = add_mset (HInvoke svc) T \<Longrightarrow>
     getInvoker pf svc (hc_plugin c) = (r, p) \<Longrightarrow> t = HLeaving \<or> (t = HCall \<and> (\<exists>fn. r = Inr fn)) \<Longrightarrow>
     host_step pf c (hset p (add_mset t T) c)"
| hs_open: "enter_call (hc_plugin c) = Inr p \<Longrightarrow>
     host_step pf c (hset p (add_mset (HOpen svc) (hc_threads c)) c)"
| hs_opener: "hc_threads c = add_mset (HOpen svc) T \<Longrightarrow>
     getStreamOpener pf svc (hc_plugin c) = (Inr fn, p) \<Longrightarrow>
     host_step pf c (hset p (add_mset HOpening T) c)"
| hs_no_opener: "hc_threads c = add_mset (HOpen svc) T \<Longrightarrow>
     getStreamOpener pf svc (hc_plugin c) = (Inl e, p) \<Longrightarrow>
     host_step pf c (hset p (add_mset HLeaving T) c)"
| hs_opened: "hc_threads c = add_mset HOpening T \<Longrightarrow> h \<noteq> 0 \<Longrightarrow> h \<notin> hc_opened c \<Longrightarrow>
     host_step pf c ((hset (hc_plugin c) (add_mset (HOpened h) T) c)\<lparr>hc_opened := insert h (hc_opened c)\<rparr>)"
| hs_open_failed: "hc_threads c = add_mset HOpening T \<Longrightarrow>
     host_step pf c (hset (hc_plugin c) (add_mset HLeaving T) c)"
| hs_register: "hc_threads c = add_mset (HOpened h) T \<Longrightarrow>
     OpenStream_register pf h (hc_plugin c) l = (Ret (Inr h), p, l') \<Longrightarrow>
     host_step pf c (hset p (add_mset HLeaving T) c)"
| hs_too_late: "hc_threads c = add_mset (HOpened h) T \<Longrightarrow>
     OpenStream_register pf h (hc_plugin c) l = (Ret (Inl e), p, l') \<Longrightarrow>
     host_step pf c (count_close h (hset (p\<lparr>pl_wg := pl_wg p + 1\<rparr>) (add_mset HLateClosing T) c))"
| hs_late_closed: "hc_threads c = add_mset HLateClosing T \<Longrightarrow>
     host_step pf c (hset (leave_call (hc_plugin c)) (add_mset HLeaving T) c)"
| hs_operation: "acquireForStreamOp (hc_plugin c) = Inr (sf, p) \<Longrightarrow> t = HCall \<or> t = HLeaving \<Longrightarrow>
     host_step pf c (hset p (add_mset t (hc_threads c)) c)"
| hs_returned: "hc_threads c = add_mset HCall T \<Longrightarrow>
     host_step pf c (hset (hc_plugin c) (add_mset HLeaving T) c)"
| hs_leave: "hc_threads c = add_mset HLeaving T \<Longrightarrow>
     host_step pf c (hset (leave_call (hc_plugin c)) T c)"
| hs_stream_close: "StreamClose_lock h (hc_plugin c) = (Some sf, p) \<Longrightarrow>
     host_step pf c (count_close h (hset p (add_mset HClosing (hc_threads c)) c))"
| hs_no_close: "StreamClose_lock h (hc_plugin c) = (None, p) \<Longrightarrow>
     host_step pf c (hset p (hc_threads c) c)"
| hs_stream_closed: "hc_threads c = add_mset HClosing T \<Longrightarrow>
     host_step pf c (hset (hc_plugin c) (add_mset HLeaving T) c)"
| hs_close: "Close_lock ord (hc_plugin c) = (Some (hs, cf), p) \<Longrightarrow>
     mset (ord (pl_activeStreams (hc_plugin c))) = mset (pl_activeStreams (hc_plugin c)) \<Longrightarrow>
     host_step pf c (hset p (add_mset (HCloseLoop (if cf \<noteq> 0 then hs else [])) (hc_threads c)) c)"
| hs_close_next: "hc_threads c = add_mset (HCloseLoop (h # hs)) T \<Longrightarrow>
     host_step pf c (count_close h
       (hset ((hc_plugin c)\<lparr>pl_wg := pl_wg (hc_plugin c) + 1\<rparr>) (add_mset (HCloseIn hs) T) c))"
| hs_close_one: "hc_threads c = add_mset (HCloseIn hs) T \<Longrightarrow>
     host_step pf c (hset (leave_call (hc_plugin c)) (add_mset (HCloseLoop hs) T) c)"
| hs_waited: "hc_threads c = add_mset (HCloseLoop []) T \<Longrightarrow> pl_wg (hc_plugin c) = 0 \<Longrightarrow>
     host_step pf c (hset (hc_plugin c) (add_mset HUnload T) c)"
| hs_unload: "hc_threads c = add_mset HUnload T \<Longrightarrow> Close_unload pf (hc_plugin c) l = (p, l') \<Longrightarrow>
     host_step pf c ((hset p T c)\<lparr>hc_loaded := False\<rparr>)"

inductive host_reachable :: "'l platform \<Rightarrow> host_conf \<Rightarrow> bool" for pf where
  hr_init: "handle \<noteq> 0 \<Longrightarrow> host_reachable pf (host_init handle freePtr)"
| hr_step: "host_reachable pf c \<Longrightarrow> host_step pf c c' \<Longrightarrow> host_reachable pf c'"

section \<open>The invariant\<close>

text \<open>
  The wait group counts the goroutines that may be in the library; there is one closer at
  most, and once it is past its wait the count stays at zero. Every stream the library has
  opened is in exactly one place: active, in the hand of the goroutine that opened it, in
  the list of the closer, or closed.
\<close>

definition funcs_inv :: "plugin \<Rightarrow> bool" where
  "funcs_inv p \<longleftrightarrow>
     (\<forall>svc fn. pl_streamOpeners p svc = Some fn \<longrightarrow> pl_streamFuncs p \<noteq> None) \<and>
     (\<forall>sf. pl_streamFuncs p = Some sf \<longrightarrow> sf_close sf \<noteq> 0) \<and>
     (pl_activeStreams p \<noteq> [] \<longrightarrow> pl_streamFuncs p \<noteq> None) \<and>
     (pl_closed p \<longrightarrow> pl_activeStreams p = []) \<and> distinct (pl_activeStreams p)"

fun needs_funcs :: "host_thread \<Rightarrow> bool" where
  "needs_funcs HOpening = True"
| "needs_funcs (HOpened h) = True"
| "needs_funcs t = False"

definition threads_inv :: "plugin \<Rightarrow> bool \<Rightarrow> host_thread multiset \<Rightarrow> bool" where
  "threads_inv p loaded T \<longleftrightarrow>
     pl_wg p = tsum weight T \<and>
     (loaded \<longleftrightarrow> pl_handle p \<noteq> 0) \<and>
     tsum is_closer T + (if loaded then 0 else 1) = (if pl_closed p then 1 else 0) \<and>
     (HUnload \<in># T \<or> \<not> loaded \<longrightarrow> tsum weight T = 0) \<and>
     (\<forall>t \<in># T. needs_funcs t \<longrightarrow> pl_streamFuncs p \<noteq> None)"

definition streams_inv :: "plugin \<Rightarrow> host_thread multiset \<Rightarrow> uint64 set \<Rightarrow> (uint64 \<Rightarrow> nat) \<Rightarrow> bool" where
  "streams_inv p T opened closes \<longleftrightarrow>
     (\<forall>h. (if h \<in> opened then 1 else 0) = count_list (pl_activeStreams p) h + tsum (owed h) T + closes h)"

definition host_inv :: "host_conf \<Rightarrow> bool" where
  "host_inv c \<longleftrightarrow> funcs_inv (hc_plugin c) \<and> threads_inv (hc_plugin c) (hc_loaded c) (hc_threads c) \<and>
     streams_inv (hc_plugin c) (hc_threads c) (hc_opened c) (hc_closes c)"

lemma host_simps [simp]:
  "hc_plugin (hset p T c) = p" "hc_threads (hset p T c) = T" "hc_loaded (hset p T c) = hc_loaded c"
  "hc_opened (hset p T c) = hc_opened c" "hc_closes (hset p T c) = hc_closes c"
  "hc_plugin (count_close h c) = hc_plugin c" "hc_threads (count_close h c) = hc_threads c"
  "hc_loaded (count_close h c) = hc_loaded c" "hc_opened (count_close h c) = hc_opened c"
  "hc_closes (count_close h c) = (hc_closes c)(h := Suc (hc_closes c h))"
  by (simp_all add: hset_def count_close_def)

lemma host_init_inv: "handle \<noteq> 0 \<Longrightarrow> host_inv (host_init handle freePtr)"
  by (simp add: host_inv_def host_init_def new_plugin_def funcs_inv_def threads_inv_def streams_inv_def)


section \<open>What the operations change\<close>

definition same_core :: "plugin \<Rightarrow> plugin \<Rightarrow> bool" where
  "same_core p p' \<longleftrightarrow> pl_wg p' = pl_wg p \<and> pl_handle p' = pl_handle p \<and> pl_closed p' = pl_closed p \<and>
     pl_activeStreams p' = pl_activeStreams p \<and>
     (pl_streamFuncs p \<noteq> None \<longrightarrow> pl_streamFuncs p' = pl_streamFuncs p)"

lemma getInvoker_effect:
  assumes "getInvoker pf svc p = (r, p')"
  shows "same_core p p'" and "funcs_inv p \<Longrightarrow> funcs_inv p'"
  using assms by (auto simp: getInvoker_def same_core_def funcs_inv_def split: option.splits if_splits)

lemma find_sym_nonzero: "find_sym pf h n = Some ptr \<Longrightarrow> ptr \<noteq> 0"
  by (auto simp: find_sym_def split: option.splits if_splits)

lemma ensureStreamFuncs_effect:
  assumes "ensureStreamFuncs pf p = (r, p')"
  shows "same_core p p'" and "funcs_inv p \<Longrightarrow> funcs_inv p'"
    and "r = None \<Longrightarrow> pl_streamFuncs p' \<noteq> None" and "pl_streamOpeners p' = pl_streamOpeners p"
  using assms by (auto simp: ensureStreamFuncs_def same_core_def funcs_inv_def find_sym_nonzero
      split: option.splits)

lemma getStreamOpener_effect:
  assumes "getStreamOpener pf svc p = (r, p')"
  shows "same_core p p'" and "funcs_inv p \<Longrightarrow> funcs_inv p'"
    and "funcs_inv p \<Longrightarrow> r = Inr fn \<Longrightarrow> pl_streamFuncs p' \<noteq> None"
proof -
  have eff: "same_core p p' \<and> (funcs_inv p \<longrightarrow> funcs_inv p') \<and>
      (funcs_inv p \<longrightarrow> r = Inr fn \<longrightarrow> pl_streamFuncs p' \<noteq> None)"
  proof (cases "pl_streamOpeners p svc = None \<and> \<not> (pl_closed p \<or> pl_handle p = 0)")
    case False
    with assms show ?thesis
      by (auto simp: getStreamOpener_def same_core_def funcs_inv_def split: option.splits if_splits)
  next
    case True
    obtain e p1 where e: "ensureStreamFuncs pf p = (e, p1)" by force
    note eff = ensureStreamFuncs_effect [OF e]
    show ?thesis
    proof (cases e)
      case (Some err)
      with assms True e eff show ?thesis by (auto simp: getStreamOpener_def)
    next
      case None
      note funcs = eff(3) [OF None]
      have "p' = p1 \<or> (\<exists>f. p' = p1\<lparr>pl_streamOpeners := f\<rparr>)"
        using assms True e None by (auto simp: getStreamOpener_def split: option.splits)
      moreover have "funcs_inv (p1\<lparr>pl_streamOpeners := f\<rparr>)" if "funcs_inv p1" for f
        using that funcs unfolding funcs_inv_def by simp
      moreover have "same_core p (p1\<lparr>pl_streamOpeners := f\<rparr>)" for f
        using eff(1) unfolding same_core_def by simp
      moreover have "pl_streamFuncs p' \<noteq> None" using calculation(1) funcs by auto
      ultimately show ?thesis using eff(1,2) by blast
    qed
  qed
  then show "same_core p p'" "funcs_inv p \<Longrightarrow> funcs_inv p'"
    "funcs_inv p \<Longrightarrow> r = Inr fn \<Longrightarrow> pl_streamFuncs p' \<noteq> None" by auto
qed

section \<open>Preservation\<close>

lemma threads_inv_active [simp]: "threads_inv (p\<lparr>pl_activeStreams := as\<rparr>) loaded T = threads_inv p loaded T"
  by (simp add: threads_inv_def)

lemma threads_inv_wg:
  assumes "threads_inv p loaded T"
  shows "pl_wg p = tsum weight T" and "loaded \<longleftrightarrow> pl_handle p \<noteq> 0"
    and "t \<in># T \<Longrightarrow> needs_funcs t \<Longrightarrow> pl_streamFuncs p \<noteq> None"
    and "HUnload \<in># T \<or> \<not> loaded \<Longrightarrow> tsum weight T = 0"
    and "tsum is_closer T + (if loaded then 0 else 1) = (if pl_closed p then 1 else 0)"
  using assms unfolding threads_inv_def by blast+

text \<open>A thread that is counted moves on and stays counted; the plugin keeps its core.\<close>

lemma threads_inv_move:
  assumes "threads_inv p loaded (add_mset t T)" and "same_core p p'"
    and "weight t' = weight t" and "is_closer t' = is_closer t" and "t' = HUnload \<longrightarrow> tsum weight T = 0 \<and> weight t = 0"
    and "needs_funcs t' \<Longrightarrow> pl_streamFuncs p' \<noteq> None"
  shows "threads_inv p' loaded (add_mset t' T)"
  using assms unfolding threads_inv_def same_core_def by (auto split: if_splits)

text \<open>A new counted thread, while the plugin is open.\<close>

lemma threads_inv_enter:
  assumes "threads_inv p loaded T" and "\<not> pl_closed p" and "weight t = 1" and "is_closer t = 0"
    and "needs_funcs t \<Longrightarrow> pl_streamFuncs p' \<noteq> None" and "same_core (p\<lparr>pl_wg := pl_wg p + 1\<rparr>) p'"
  shows "threads_inv p' loaded (add_mset t T)"
proof -
  have "tsum is_closer T = 0" "loaded" using assms(1,2) by (auto simp: threads_inv_def split: if_splits)
  then have "HUnload \<notin># T" using tsum_ge [of HUnload T is_closer] by auto
  moreover have "t \<noteq> HUnload" using assms(3) by auto
  ultimately show ?thesis using assms \<open>loaded\<close>
    unfolding threads_inv_def same_core_def by auto
qed

lemma streams_inv_move:
  "streams_inv p (add_mset t T) opened closes \<Longrightarrow> same_core p p' \<Longrightarrow> (\<And>h. owed h t' = owed h t) \<Longrightarrow>
     streams_inv p' (add_mset t' T) opened closes"
  by (simp add: streams_inv_def same_core_def)

lemma streams_inv_enter:
  "streams_inv p T opened closes \<Longrightarrow> pl_activeStreams p' = pl_activeStreams p \<Longrightarrow> (\<And>h. owed h t = 0) \<Longrightarrow>
     streams_inv p' (add_mset t T) opened closes"
  by (simp add: streams_inv_def)

lemma funcs_inv_core:
  "funcs_inv p \<Longrightarrow> funcs_inv (p\<lparr>pl_wg := n\<rparr>)"
  by (simp add: funcs_inv_def)

lemma same_core_refl [simp]: "same_core p p"
  by (simp add: same_core_def)

lemma host_move_inv:
  assumes "host_inv c" and "hc_threads c = add_mset t T" and "same_core (hc_plugin c) p" and "funcs_inv p"
    and "weight t' = weight t" and "is_closer t' = 0" and "is_closer t = 0" and "\<And>h. owed h t' = owed h t"
    and "needs_funcs t' \<Longrightarrow> pl_streamFuncs p \<noteq> None"
  shows "host_inv (hset p (add_mset t' T) c)"
proof -
  have "t' \<noteq> HUnload" using assms(6) by auto
  then show ?thesis
    using assms threads_inv_move [of "hc_plugin c" "hc_loaded c" t T p t']
      streams_inv_move [of "hc_plugin c" t T "hc_opened c" "hc_closes c" p t']
    by (simp add: host_inv_def)
qed

lemma host_enter_inv:
  assumes "host_inv c" and "\<not> pl_closed (hc_plugin c)"
    and "p = (hc_plugin c)\<lparr>pl_wg := pl_wg (hc_plugin c) + 1\<rparr>"
    and "weight t = 1" and "is_closer t = 0" and "\<not> needs_funcs t" and "\<And>h. owed h t = 0"
  shows "host_inv (hset p (add_mset t (hc_threads c)) c)"
proof -
  have "threads_inv p (hc_loaded c) (add_mset t (hc_threads c))"
    using assms by (intro threads_inv_enter [of "hc_plugin c"]) (auto simp: host_inv_def)
  then show ?thesis
    using assms streams_inv_enter [of "hc_plugin c" "hc_threads c" "hc_opened c" "hc_closes c" p t]
    by (simp add: host_inv_def funcs_inv_core)
qed

text \<open>A counted thread gives up one count.\<close>

lemma leave_threads_inv:
  assumes "threads_inv p loaded (add_mset t T)" and "weight t = Suc (tsum weight T' )"
    and "tsum is_closer T' = is_closer t" and "\<forall>t' \<in># T'. \<not> needs_funcs t' \<and> t' \<noteq> HUnload"
  shows "threads_inv (leave_call p) loaded (T' + T)"
proof -
  have tu: "tsum f (T' + T) = tsum f T' + tsum f T" for f by (simp add: tsum_def)
  have "HUnload \<notin># add_mset t T" "loaded"
    using assms(1,2) by (auto simp: threads_inv_def)
  then show ?thesis using assms unfolding threads_inv_def by (auto simp: tu leave_call_def)
qed


lemma host_invD:
  assumes "host_inv c"
  shows "funcs_inv (hc_plugin c)" "threads_inv (hc_plugin c) (hc_loaded c) (hc_threads c)"
    "streams_inv (hc_plugin c) (hc_threads c) (hc_opened c) (hc_closes c)"
  using assms by (auto simp: host_inv_def)

lemma streams_invD:
  "streams_inv p T opened closes \<Longrightarrow>
     (if h \<in> opened then 1 else 0) = count_list (pl_activeStreams p) h + tsum (owed h) T + closes h"
  by (simp add: streams_inv_def)

lemma opened_inv:
  assumes inv: "host_inv c" and T: "hc_threads c = add_mset HOpening T" and new: "h \<notin> hc_opened c"
  shows "host_inv ((hset (hc_plugin c) (add_mset (HOpened h) T) c)\<lparr>hc_opened := insert h (hc_opened c)\<rparr>)"
proof -
  note i = host_invD [OF inv, unfolded T]
  have "threads_inv (hc_plugin c) (hc_loaded c) (add_mset (HOpened h) T)"
    using i(2) by (rule threads_inv_move) (use threads_inv_wg(3) [OF i(2), of HOpening] in simp_all)
  moreover have "streams_inv (hc_plugin c) (add_mset (HOpened h) T) (insert h (hc_opened c)) (hc_closes c)"
    unfolding streams_inv_def
  proof
    fix g
    show "(if g \<in> insert h (hc_opened c) then 1 else 0) =
        count_list (pl_activeStreams (hc_plugin c)) g + tsum (owed g) (add_mset (HOpened h) T) + hc_closes c g"
      using streams_invD [OF i(3), of g] new by (cases "g = h") auto
  qed
  ultimately show ?thesis using i(1) by (simp add: host_inv_def hset_def)
qed

lemma register_inv:
  assumes inv: "host_inv c" and T: "hc_threads c = add_mset (HOpened h) T"
    and reg: "OpenStream_register pf h (hc_plugin c) l = (Ret (Inr h), p, l')"
  shows "host_inv (hset p (add_mset HLeaving T) c)"
proof -
  let ?p = "hc_plugin c"
  note i = host_invD [OF inv, unfolded T]
  have up: "\<not> pl_closed ?p" and p: "p = ?p\<lparr>pl_activeStreams := List.insert h (pl_activeStreams ?p)\<rparr>"
    using reg by (auto simp: OpenStream_register_def split: if_splits option.splits)
  have funcs: "pl_streamFuncs ?p \<noteq> None" using threads_inv_wg(3) [OF i(2), of "HOpened h"] by simp
  have "count_list (pl_activeStreams ?p) h = 0"
    using streams_invD [OF i(3), of h] by (simp split: if_splits)
  then have new: "h \<notin> set (pl_activeStreams ?p)" by (simp add: count_list_0_iff)
  have "threads_inv ?p (hc_loaded c) (add_mset HLeaving T)"
    using i(2) by (rule threads_inv_move) simp_all
  then have "threads_inv p (hc_loaded c) (add_mset HLeaving T)" unfolding p by simp
  moreover have "funcs_inv p" using i(1) up funcs new by (simp add: p funcs_inv_def)
  moreover have "streams_inv p (add_mset HLeaving T) (hc_opened c) (hc_closes c)"
    using i(3) new by (auto simp: p streams_inv_def List.insert_def)
  ultimately show ?thesis by (simp add: host_inv_def)
qed

lemma too_late_inv:
  assumes inv: "host_inv c" and T: "hc_threads c = add_mset (HOpened h) T"
    and reg: "OpenStream_register pf h (hc_plugin c) l = (Ret (Inl e), p, l')"
  shows "host_inv (count_close h (hset (p\<lparr>pl_wg := pl_wg p + 1\<rparr>) (add_mset HLateClosing T) c))"
proof -
  let ?p = "hc_plugin c"
  note i = host_invD [OF inv, unfolded T]
  have p: "p = ?p" using reg by (auto simp: OpenStream_register_def split: if_splits option.splits)
  have "HUnload \<notin># T" "hc_loaded c" using i(2) by (auto simp: threads_inv_def)
  then have "threads_inv (?p\<lparr>pl_wg := pl_wg ?p + 1\<rparr>) (hc_loaded c) (add_mset HLateClosing T)"
    using i(2) by (auto simp: threads_inv_def)
  moreover have "streams_inv (?p\<lparr>pl_wg := pl_wg ?p + 1\<rparr>) (add_mset HLateClosing T) (hc_opened c)
      ((hc_closes c)(h := Suc (hc_closes c h)))"
    using i(3) by (auto simp: streams_inv_def split: if_splits)
  ultimately show ?thesis using i(1) by (simp add: host_inv_def p funcs_inv_core)
qed

lemma leave_inv:
  assumes inv: "host_inv c" and T: "hc_threads c = add_mset t T" and "weight t = Suc (tsum weight T')"
    and "tsum is_closer T' = is_closer t" and "\<forall>t' \<in># T'. \<not> needs_funcs t' \<and> t' \<noteq> HUnload"
    and "\<And>h. tsum (owed h) T' = owed h t"
  shows "host_inv (hset (leave_call (hc_plugin c)) (T' + T) c)"
proof -
  note i = host_invD [OF inv, unfolded T]
  have "threads_inv (leave_call (hc_plugin c)) (hc_loaded c) (T' + T)"
    by (rule leave_threads_inv [OF i(2) assms(3,4,5)])
  moreover have "tsum f (T' + T) = tsum f T' + tsum f T" for f by (simp add: tsum_def)
  then have "streams_inv (leave_call (hc_plugin c)) (T' + T) (hc_opened c) (hc_closes c)"
    using i(3) assms(6) by (simp add: streams_inv_def leave_call_def)
  ultimately show ?thesis using i(1) by (simp add: host_inv_def leave_call_def funcs_inv_core)
qed

lemma count_list_removeAll [simp]:
  "count_list (removeAll x xs) y = (if x = y then 0 else count_list xs y)"
  by (induction xs) auto

lemma stream_close_inv:
  assumes inv: "host_inv c" and cl: "StreamClose_lock h (hc_plugin c) = (Some sf, p)"
  shows "host_inv (count_close h (hset p (add_mset HClosing (hc_threads c)) c))"
proof -
  let ?p = "hc_plugin c"
  note i = host_invD [OF inv]
  have up: "\<not> pl_closed ?p" and active: "h \<in> set (pl_activeStreams ?p)"
    and p: "p = ?p\<lparr>pl_activeStreams := removeAll h (pl_activeStreams ?p), pl_wg := pl_wg ?p + 1\<rparr>"
    using cl by (auto simp: StreamClose_lock_def Let_def split: if_splits option.splits)
  have "threads_inv (?p\<lparr>pl_wg := pl_wg ?p + 1\<rparr>) (hc_loaded c) (add_mset HClosing (hc_threads c))"
    by (rule threads_inv_enter [OF i(2) up]) simp_all
  moreover have "p = ?p\<lparr>pl_wg := pl_wg ?p + 1, pl_activeStreams := removeAll h (pl_activeStreams ?p)\<rparr>"
    by (simp add: p)
  ultimately have "threads_inv p (hc_loaded c) (add_mset HClosing (hc_threads c))" by simp
  moreover have "funcs_inv p" using i(1) by (auto simp: p funcs_inv_def distinct_removeAll)
  moreover have "count_list (pl_activeStreams ?p) h \<noteq> 0"
    using active by (simp add: count_list_0_iff)
  then have "count_list (pl_activeStreams ?p) h = 1"
    using streams_invD [OF i(3), of h] by (simp only: split: if_splits)
  then have "streams_inv p (add_mset HClosing (hc_threads c)) (hc_opened c)
      ((hc_closes c)(h := Suc (hc_closes c h)))"
    using i(3) by (auto simp: p streams_inv_def)
  ultimately show ?thesis by (simp add: host_inv_def)
qed

lemma no_close_inv:
  assumes inv: "host_inv c" and cl: "StreamClose_lock h (hc_plugin c) = (None, p)"
  shows "host_inv (hset p (hc_threads c) c)"
proof -
  have "pl_activeStreams (hc_plugin c) = [] \<or> pl_streamFuncs (hc_plugin c) \<noteq> None"
    using host_invD(1) [OF inv] unfolding funcs_inv_def by blast
  then have "p = hc_plugin c"
    using cl by (auto simp: StreamClose_lock_def Let_def split: if_splits option.splits)
  with inv show ?thesis by (simp add: hset_def)
qed

lemma close_inv:
  assumes inv: "host_inv c" and cl: "Close_lock ord (hc_plugin c) = (Some (hs, cf), p)"
    and ord: "mset (ord (pl_activeStreams (hc_plugin c))) = mset (pl_activeStreams (hc_plugin c))"
  shows "host_inv (hset p (add_mset (HCloseLoop (if cf \<noteq> 0 then hs else [])) (hc_threads c)) c)"
proof -
  let ?p = "hc_plugin c" and ?hs = "if cf \<noteq> 0 then hs else []"
  note i = host_invD [OF inv]
  have up: "\<not> pl_closed ?p" and p: "p = ?p\<lparr>pl_closed := True, pl_activeStreams := []\<rparr>"
    and hs: "hs = ord (pl_activeStreams ?p)"
    and cf: "cf = (case pl_streamFuncs ?p of Some sf \<Rightarrow> sf_close sf | None \<Rightarrow> 0)"
    using cl by (auto simp: Close_lock_def split: if_splits)
  have "pl_activeStreams ?p = []" if "cf = 0"
    using that i(1) cf by (cases "pl_streamFuncs ?p") (auto simp: funcs_inv_def)
  then have same: "mset ?hs = mset (pl_activeStreams ?p)" using ord hs by auto
  have count: "count_list ?hs g = count_list (pl_activeStreams ?p) g" for g
    using arg_cong [OF same, of "\<lambda>m. count m g"] by (simp only: count_mset)
  have "threads_inv p (hc_loaded c) (add_mset (HCloseLoop ?hs) (hc_threads c))"
    using i(2) up by (auto simp: p threads_inv_def split: if_splits)
  moreover have "streams_inv p (add_mset (HCloseLoop ?hs) (hc_threads c)) (hc_opened c) (hc_closes c)"
    using i(3) count by (simp add: p streams_inv_def)
  ultimately show ?thesis using i(1) by (simp add: host_inv_def p funcs_inv_def)
qed

lemma close_next_inv:
  assumes inv: "host_inv c" and T: "hc_threads c = add_mset (HCloseLoop (h # hs)) T"
  shows "host_inv (count_close h (hset ((hc_plugin c)\<lparr>pl_wg := pl_wg (hc_plugin c) + 1\<rparr>)
    (add_mset (HCloseIn hs) T) c))"
proof -
  let ?p = "hc_plugin c"
  note i = host_invD [OF inv, unfolded T]
  have "tsum is_closer T = 0" "hc_loaded c" using i(2) by (auto simp: threads_inv_def split: if_splits)
  then have "HUnload \<notin># T" using tsum_ge [of HUnload T is_closer] by auto
  then have "threads_inv (?p\<lparr>pl_wg := pl_wg ?p + 1\<rparr>) (hc_loaded c) (add_mset (HCloseIn hs) T)"
    using i(2) \<open>hc_loaded c\<close> by (auto simp: threads_inv_def)
  moreover have "streams_inv (?p\<lparr>pl_wg := pl_wg ?p + 1\<rparr>) (add_mset (HCloseIn hs) T) (hc_opened c)
      ((hc_closes c)(h := Suc (hc_closes c h)))"
    using i(3) by (auto simp: streams_inv_def split: if_splits)
  ultimately show ?thesis using i(1) by (simp add: host_inv_def funcs_inv_core)
qed

lemma unload_inv:
  assumes inv: "host_inv c" and T: "hc_threads c = add_mset HUnload T"
    and un: "Close_unload pf (hc_plugin c) l = (p, l')"
  shows "host_inv ((hset p T c)\<lparr>hc_loaded := False\<rparr>)"
proof -
  note i = host_invD [OF inv, unfolded T]
  have loaded: "hc_loaded c" and one: "pl_closed (hc_plugin c)" "tsum is_closer T = 0" and zero: "tsum weight T = 0"
    using i(2) by (auto simp: threads_inv_def split: if_splits)
  have p: "p = (hc_plugin c)\<lparr>pl_handle := 0\<rparr>"
    using un loaded i(2) by (auto simp: Close_unload_def threads_inv_def split: if_splits)
  have "threads_inv p False T" using i(2) loaded one zero by (simp add: threads_inv_def p)
  moreover have "streams_inv p T (hc_opened c) (hc_closes c)" using i(3) by (simp add: streams_inv_def p)
  moreover have "funcs_inv p" using i(1) by (simp add: funcs_inv_def p)
  ultimately show ?thesis by (simp add: host_inv_def hset_def)
qed


lemma host_step_inv: "host_step pf c c' \<Longrightarrow> host_inv c \<Longrightarrow> host_inv c'"
proof (induction rule: host_step.induct)
  case (hs_invoke c p svc)
  then show ?case by (intro host_enter_inv) (auto simp: enter_call_def split: if_splits)
next
  case (hs_invoker c svc T r p t)
  note eff = getInvoker_effect [OF hs_invoker.hyps(2)]
  show ?case
    by (rule host_move_inv [OF hs_invoker.prems hs_invoker.hyps(1) eff(1) eff(2)])
       (use hs_invoker.hyps(3) host_invD(1) [OF hs_invoker.prems] in auto)
next
  case (hs_open c p svc)
  then show ?case by (intro host_enter_inv) (auto simp: enter_call_def split: if_splits)
next
  case (hs_opener c svc T fn p)
  note eff = getStreamOpener_effect [OF hs_opener.hyps(2)] and f = host_invD(1) [OF hs_opener.prems]
  show ?case
    by (rule host_move_inv [OF hs_opener.prems hs_opener.hyps(1) eff(1) eff(2)])
       (use f eff(3) [OF f refl] in auto)
next
  case (hs_no_opener c svc T e p)
  note eff = getStreamOpener_effect [OF hs_no_opener.hyps(2)]
  show ?case
    by (rule host_move_inv [OF hs_no_opener.prems hs_no_opener.hyps(1) eff(1) eff(2)])
       (use host_invD(1) [OF hs_no_opener.prems] in auto)
next
  case (hs_opened c T h)
  then show ?case by (intro opened_inv)
next
  case (hs_open_failed c T)
  then show ?case by (intro host_move_inv) (auto dest: host_invD)
next
  case (hs_register c h T l p l')
  then show ?case by (intro register_inv)
next
  case (hs_too_late c h T l e p l')
  then show ?case by (intro too_late_inv)
next
  case (hs_late_closed c T)
  from leave_inv [OF hs_late_closed.prems hs_late_closed.hyps, of "{#HLeaving#}"] show ?case by simp
next
  case (hs_operation c sf p t)
  then show ?case
    by (intro host_enter_inv) (auto simp: acquireForStreamOp_def split: if_splits option.splits)
next
  case (hs_returned c T)
  then show ?case by (intro host_move_inv) (auto dest: host_invD)
next
  case (hs_leave c T)
  from leave_inv [OF hs_leave.prems hs_leave.hyps, of "{#}"] show ?case by simp
next
  case (hs_stream_close h c sf p)
  then show ?case by (intro stream_close_inv)
next
  case (hs_no_close h c p)
  then show ?case by (intro no_close_inv)
next
  case (hs_stream_closed c T)
  then show ?case by (intro host_move_inv) (auto dest: host_invD)
next
  case (hs_close ord c hs cf p)
  then show ?case by (intro close_inv)
next
  case (hs_close_next c h hs T)
  then show ?case by (intro close_next_inv)
next
  case (hs_close_one c hs T)
  from leave_inv [OF hs_close_one.prems hs_close_one.hyps, of "{#HCloseLoop hs#}"] show ?case by simp
next
  case (hs_waited c T)
  note i = host_invD [OF hs_waited.prems, unfolded hs_waited.hyps(1)]
  have "tsum weight T = 0" using threads_inv_wg(1) [OF i(2)] hs_waited.hyps(2) by simp
  then have "threads_inv (hc_plugin c) (hc_loaded c) (add_mset HUnload T)"
    using i(2) by (intro threads_inv_move [OF i(2)]) auto
  moreover have "streams_inv (hc_plugin c) (add_mset HUnload T) (hc_opened c) (hc_closes c)"
    using i(3) by (simp add: streams_inv_def)
  ultimately show ?case using i(1) by (simp add: host_inv_def)
next
  case (hs_unload c T l p l')
  then show ?case by (intro unload_inv)
qed

lemma host_reachable_inv: "host_reachable pf c \<Longrightarrow> host_inv c"
  by (induction rule: host_reachable.induct) (simp_all add: host_init_inv host_step_inv)

end
