(* ===== verification/PluginLink.thy ===== *)
theory PluginLink
  imports PluginHostSteps PluginServer
begin

text \<open>
  The two sides of the plugin transport put together: the wrappers of
  \<open>pkg/synurang/plugin_unix.go\<close> around the C calls, as functions of the exported function
  they call, and the unary entry point of the generated plugin code. A platform whose
  stream functions are these wrappers around the functions of \<open>PluginServer\<close> is a Go host
  with a Go plugin.
\<close>

section \<open>The wrappers\<close>

definition c_data :: "bytes \<Rightarrow> bytes option" where
  "c_data data = (if 0 < length data then Some data else None)"

definition unixStreamOpen :: "(string \<Rightarrow> 'l \<Rightarrow> uint64 \<times> 'l) \<Rightarrow> string \<Rightarrow> 'l \<Rightarrow> uint64 \<times> 'l" where
  "unixStreamOpen fn method l = fn (CString method) l"

definition unixStreamSend ::
    "(uint64 \<Rightarrow> bytes option \<Rightarrow> cint \<Rightarrow> 'l \<Rightarrow> (cint \<times> 'l) list) \<Rightarrow> uint64 \<Rightarrow> bytes \<Rightarrow> 'l \<Rightarrow> (int \<times> 'l) list" where
  "unixStreamSend fn handle data l =
     map (\<lambda>(code, l'). (sint code, l')) (fn handle (c_data data) (C_int (length data)) l)"

definition unixStreamRecv ::
    "(uint64 \<Rightarrow> 'l \<Rightarrow> (c_response \<times> 'l) list) \<Rightarrow> uint64 \<Rightarrow> 'l \<Rightarrow>
     ((bytes \<times> int \<times> int) outcome \<times> 'l) list" where
  "unixStreamRecv fn handle l =
     map (\<lambda>((cResp, cRespLen, cStatus), l').
            (case cResp of
               None \<Rightarrow> Ret ([], sint cRespLen, sint cStatus)
             | Some mem \<Rightarrow> bind_outcome (GoBytes mem cRespLen) (\<lambda>data. Ret (data, sint cRespLen, sint cStatus)), l'))
       (fn handle l)"

definition unixStreamCloseSend :: "(uint64 \<Rightarrow> 'l \<Rightarrow> 'l) \<Rightarrow> uint64 \<Rightarrow> 'l \<Rightarrow> 'l" where
  "unixStreamCloseSend fn handle l = fn handle l"

definition unixStreamClose :: "(uint64 \<Rightarrow> 'l \<Rightarrow> 'l) \<Rightarrow> uint64 \<Rightarrow> 'l \<Rightarrow> 'l" where
  "unixStreamClose fn handle l = fn handle l"

definition unixInvoke ::
    "(string \<Rightarrow> bytes option \<Rightarrow> cint \<Rightarrow> 'l \<Rightarrow> (bytes option \<times> cint) \<times> 'l) \<Rightarrow> string \<Rightarrow> bytes \<Rightarrow> 'l \<Rightarrow>
     (string + bytes) outcome \<times> 'l" where
  "unixInvoke fn method data l =
     (case fn (CString method) (c_data data) (C_int (length data)) l of
        ((None, respLen), l') \<Rightarrow> (Ret (Inl ''plugin returned nil''), l')
      | ((Some cResp, respLen), l') \<Rightarrow> (bind_outcome (GoBytes cResp respLen) (\<lambda>d. Ret (Inr d)), l'))"

section \<open>The entry points of a generated plugin\<close>

text \<open>
  \<open>Synurang_Invoke_<Service>\<close>: \<open>disp\<close> is the generated dispatcher with the plugin's methods
  behind it, which answers a message or an error. The answer goes out with its length as a C
  \<open>int\<close>. \<open>Synurang_Stream_<Service>_Open\<close> refuses a service that has not been registered.
\<close>

definition Synurang_Invoke ::
    "(string \<Rightarrow> bytes \<Rightarrow> 'l \<Rightarrow> (string + bytes) \<times> 'l) \<Rightarrow>
     string \<Rightarrow> bytes option \<Rightarrow> cint \<Rightarrow> 'l \<Rightarrow> (bytes option \<times> cint) \<times> 'l" where
  "Synurang_Invoke disp method data dataLen l =
     (case disp (GoString method) (cToBytes data dataLen) l of
        (Inl err, l') \<Rightarrow> (let result = 1 # str_bytes err in ((Some result, C_int (length result)), l'))
      | (Inr res, l') \<Rightarrow> (let result = 0 # res in ((Some result, C_int (length result)), l')))"

definition Synurang_Stream_Open :: "bool \<Rightarrow> string \<Rightarrow> plugin_world \<Rightarrow> uint64 \<times> plugin_world" where
  "Synurang_Stream_Open registered method w =
     (if \<not> registered then (0, w)
      else (case NewStream (GoString method) w of ((handle, ps), w') \<Rightarrow> (handle, w')))"

lemma cToBytes_c_data [simp]: "length d \<le> MaxInt32 \<Longrightarrow> cToBytes (c_data d) (C_int (length d)) = d"
  by (simp add: cToBytes_def c_data_def)

section \<open>What the host sees of the plugin's results\<close>

fun host_view :: "recv_result \<Rightarrow> host_error + bytes" where
  "host_view (RecvFrame d) = Inr d"
| "host_view (RecvError e) = Inl (PluginError e)"
| "host_view RecvEOF = Inl EndOfFile"

text \<open>
  The length of the frame of a result, and what the host reads of it: a frame whose length does
  not fit is cut to what is left of it modulo \<open>2 ^ 32\<close>, or has a negative length.
\<close>

fun frame_length :: "recv_result \<Rightarrow> nat" where
  "frame_length (RecvFrame d) = Suc (length d)"
| "frame_length (RecvError e) = Suc (length e)"
| "frame_length RecvEOF = 0"

fun cut_result :: "nat \<Rightarrow> recv_result \<Rightarrow> recv_result" where
  "cut_result n (RecvFrame d) = RecvFrame (take n d)"
| "cut_result n (RecvError e) = RecvError (take n e)"
| "cut_result n RecvEOF = RecvEOF"

definition carried :: "recv_result \<Rightarrow> (host_error + bytes) outcome" where
  "carried r =
     (let n = frame_length r mod 2 ^ 32 in
      if r = RecvEOF then Ret (Inl EndOfFile)
      else if 2 ^ 31 \<le> n then Panic LengthOutOfRange
      else if n = 0 then Ret (Inl EmptyStreamResponse)
      else Ret (host_view (cut_result (n - 1) r)))"

lemma carried_exact: "frame_length r \<le> MaxInt32 \<Longrightarrow> carried r = Ret (host_view r)"
  by (cases r) (auto simp: carried_def Let_def MaxInt32_def)

text \<open>Decoding undoes the wire format of a receive as far as its length goes.\<close>

lemma bytes_str_take [simp]: "bytes_str (take n bs) = take n (bytes_str bs)"
  by (simp add: bytes_str_def take_map)

lemma decode_recv_wire:
  "(case recv_wire r of (cResp, cRespLen, cStatus) \<Rightarrow>
      bind_outcome
        (case cResp of
           None \<Rightarrow> Ret ([], sint cRespLen, sint cStatus)
         | Some mem \<Rightarrow> bind_outcome (GoBytes mem cRespLen) (\<lambda>data. Ret (data, sint cRespLen, sint cStatus)))
        (\<lambda>(data, respLen, status). Ret (decode_stream data respLen status))) = carried r"
proof (cases r)
  case (RecvFrame d)
  have "GoBytes (0 # d) (C_int (length (0 # d))) =
      (let n = length (0 # d) mod 2 ^ 32 in if 2 ^ 31 \<le> n then Panic LengthOutOfRange else Ret (take n (0 # d)))"
    by (rule GoBytes_length)
  then show ?thesis
    by (auto simp: RecvFrame carried_def decode_stream_def Let_def take_Cons split: nat.splits)
next
  case (RecvError e)
  have "GoBytes (1 # str_bytes e) (C_int (length (1 # str_bytes e))) =
      (let n = length (1 # str_bytes e) mod 2 ^ 32
       in if 2 ^ 31 \<le> n then Panic LengthOutOfRange else Ret (take n (1 # str_bytes e)))"
    by (rule GoBytes_length)
  then show ?thesis
    by (auto simp: RecvError carried_def decode_stream_def Let_def take_Cons split: nat.splits)
next
  case RecvEOF
  then show ?thesis by (simp add: carried_def decode_stream_def Let_def)
qed

lemma leave_enter [simp]: "leave_call (p\<lparr>pl_wg := Suc (pl_wg p)\<rparr>) = p"
  by (simp add: leave_call_def)

lemma acquire_Inr:
  "acquireForStreamOp p = Inr (sf, p1) \<longleftrightarrow>
     \<not> pl_closed p \<and> pl_streamFuncs p = Some sf \<and> p1 = p\<lparr>pl_wg := Suc (pl_wg p)\<rparr>"
  by (auto simp: acquireForStreamOp_def split: option.splits)

lemma map_recv:
  assumes "acquireForStreamOp p = Inr (sf, p1)"
    and "pf_stream_recv pf (sf_recv sf) (pl_freePtr p1) = unixStreamRecv fn"
  shows "StreamRecv pf h p w =
    map (\<lambda>((cResp, cRespLen, cStatus), w').
          (bind_outcome
            (case cResp of
               None \<Rightarrow> Ret ([], sint cRespLen, sint cStatus)
             | Some mem \<Rightarrow> bind_outcome (GoBytes mem cRespLen) (\<lambda>data. Ret (data, sint cRespLen, sint cStatus)))
            (\<lambda>(data, respLen, status). Ret (decode_stream data respLen status)), p, w')) (fn h w)"
proof -
  have p1: "p1 = p\<lparr>pl_wg := Suc (pl_wg p)\<rparr>" using assms(1) by (simp add: acquire_Inr)
  have fr: "pl_freePtr p1 = pl_freePtr p" by (simp add: p1)
  show ?thesis
    unfolding StreamRecv_def assms(1) using assms(2)
    by (simp add: unixStreamRecv_def p1 comp_def split_beta)
qed

end
