(* ===== verification/PluginHostProps.thy ===== *)
theory PluginHostProps
  imports PluginLink PluginSteps
begin

text \<open>
  What the host side of the plugin transport guarantees: no call into an unloaded library,
  every stream closed exactly once, and a faithful view of what the plugin answers.
\<close>

section \<open>A Go host with a Go plugin\<close>

text \<open>A platform made of the wrappers, whose library finds every symbol.\<close>

definition go_platform ::
    "(string \<Rightarrow> bytes \<Rightarrow> plugin_world \<Rightarrow> (string + bytes) \<times> plugin_world) \<Rightarrow> plugin_world platform" where
  "go_platform disp =
     \<lparr>pf_open = (\<lambda>path l. (Some 1, l)), pf_sym = (\<lambda>h name. Some 1), pf_close = (\<lambda>h l. l),
      pf_invoke = (\<lambda>fn free. unixInvoke (Synurang_Invoke disp)),
      pf_stream_open = (\<lambda>fn. unixStreamOpen (Synurang_Stream_Open True)),
      pf_stream_send = (\<lambda>fn. unixStreamSend Synurang_Stream_Send),
      pf_stream_recv = (\<lambda>fn free. unixStreamRecv Synurang_Stream_Recv),
      pf_stream_close_send = (\<lambda>fn. unixStreamCloseSend
         (\<lambda>h w. case Synurang_Stream_CloseSend h w of Ret w' \<Rightarrow> w' | Panic p \<Rightarrow> w)),
      pf_stream_close = (\<lambda>fn. unixStreamClose
         (\<lambda>h w. case Synurang_Stream_Close h w of Ret w' \<Rightarrow> w' | Panic p \<Rightarrow> w))\<rparr>"

definition echo :: "string \<Rightarrow> bytes \<Rightarrow> plugin_world \<Rightarrow> (string + bytes) \<times> plugin_world" where
  "echo m d w = (if d = [] then Inl ''empty'' else Inr d, w)"

definition demo_plugin :: plugin where
  "demo_plugin = new_plugin 1 1"

definition demo_funcs :: globalStreamFuncs where
  "demo_funcs = \<lparr>sf_send = 1, sf_recv = 1, sf_closeSend = 1, sf_close = 1\<rparr>"

section \<open>A run that opens a stream, closes the plugin and unloads it\<close>

definition demo_streaming :: plugin where
  "demo_streaming = demo_plugin\<lparr>pl_streamFuncs := Some demo_funcs, pl_streamOpeners := [''S'' \<mapsto> 1]\<rparr>"

lemma demo_opener:
  "getStreamOpener (go_platform echo) ''S'' (demo_plugin\<lparr>pl_wg := 1\<rparr>) = (Inr 1, demo_streaming\<lparr>pl_wg := 1\<rparr>)"
  by (simp add: getStreamOpener_def ensureStreamFuncs_def find_sym_def go_platform_def demo_plugin_def
      new_plugin_def demo_streaming_def demo_funcs_def)

definition demo_opening :: host_conf where
  "demo_opening = hset (demo_streaming\<lparr>pl_wg := 1\<rparr>) {#HOpened 5#} (host_init 1 1)\<lparr>hc_opened := {5}\<rparr>"

lemma demo_opening_reachable: "host_reachable (go_platform echo) demo_opening"
proof -
  let ?pf = "go_platform echo"
  let ?c0 = "host_init 1 1"
  let ?c1 = "hset (demo_plugin\<lparr>pl_wg := 1\<rparr>) {#HOpen ''S''#} ?c0"
  let ?c2 = "hset (demo_streaming\<lparr>pl_wg := 1\<rparr>) {#HOpening#} ?c0"
  have p: "hc_plugin ?c0 = demo_plugin" "hc_threads ?c0 = {#}" "hc_opened ?c0 = {}"
    by (simp_all add: host_init_def demo_plugin_def)
  have "host_step ?pf ?c0 ?c1"
    using hs_open [of ?c0 "demo_plugin\<lparr>pl_wg := 1\<rparr>" ?pf "''S''"]
    by (simp add: p enter_call_def) (simp add: demo_plugin_def new_plugin_def)
  moreover have "host_step ?pf ?c1 ?c2"
    using hs_opener [of ?c1 "''S''" "{#}" ?pf 1 "demo_streaming\<lparr>pl_wg := 1\<rparr>"]
    by (simp add: demo_opener [simplified] hset_def)
  moreover have "host_step ?pf ?c2 demo_opening"
    using hs_opened [of ?c2 "{#}" 5 ?pf] by (simp add: p demo_opening_def) (simp add: hset_def)
  ultimately show ?thesis using hr_init [of 1 ?pf 1] by (metis hr_step one_neq_zero)
qed

definition demo_closed :: host_conf where
  "demo_closed = \<lparr>hc_plugin = demo_streaming\<lparr>pl_closed := True, pl_handle := 0\<rparr>, hc_threads = {#},
     hc_loaded = False, hc_opened = {5}, hc_closes = (\<lambda>_. 0)(5 := 1)\<rparr>"

lemma demo_closed_reachable: "host_reachable (go_platform echo) demo_closed"
proof -
  let ?pf = "go_platform echo"
  let ?p = "\<lambda>n. demo_streaming\<lparr>pl_wg := n, pl_activeStreams := [5]\<rparr>"
  let ?q = "\<lambda>n. demo_streaming\<lparr>pl_wg := n, pl_closed := True\<rparr>"
  let ?c1 = "hset (?p 1) {#HLeaving#} demo_opening"
  let ?c2 = "hset (?p 0) {#} demo_opening"
  let ?c3 = "hset (?q 0) {#HCloseLoop [5]#} demo_opening"
  let ?c4 = "count_close 5 (hset (?q 1) {#HCloseIn []#} demo_opening)"
  let ?c5 = "count_close 5 (hset (?q 0) {#HCloseLoop []#} demo_opening)"
  let ?c6 = "count_close 5 (hset (?q 0) {#HUnload#} demo_opening)"
  note d = demo_opening_def demo_streaming_def demo_plugin_def new_plugin_def demo_funcs_def
    hset_def count_close_def host_init_def
  have "host_step ?pf demo_opening ?c1"
    using hs_register [of demo_opening 5 "{#}" ?pf init_plugin_world "?p 1" init_plugin_world]
    by (simp add: OpenStream_register_def d)
  moreover have "host_step ?pf ?c1 ?c2"
    using hs_leave [of ?c1 "{#}" ?pf] by (simp add: leave_call_def d)
  moreover have "host_step ?pf ?c2 ?c3"
    using hs_close [of id ?c2 "[5]" 1 "?q 0" ?pf] by (simp add: Close_lock_def d)
  moreover have "host_step ?pf ?c3 ?c4"
    using hs_close_next [of ?c3 5 "[]" "{#}" ?pf] by (simp add: d)
  moreover have "host_step ?pf ?c4 ?c5"
    using hs_close_one [of ?c4 "[]" "{#}" ?pf] by (simp add: leave_call_def d)
  moreover have "host_step ?pf ?c5 ?c6"
    using hs_waited [of ?c5 "{#}" ?pf] by (simp add: d)
  moreover have "host_step ?pf ?c6 demo_closed"
    using hs_unload [of ?c6 "{#}" ?pf init_plugin_world "?q 0\<lparr>pl_handle := 0\<rparr>" init_plugin_world]
    by (simp add: Close_unload_def demo_closed_def go_platform_def d)
  ultimately show ?thesis using demo_opening_reachable by (metis hr_step)
qed


section \<open>Properties\<close>

text \<open>
  C1. No use after unload: whatever goroutines call the plugin while it is closed, a
  goroutine that is inside the library, or is about to look a symbol up in it, finds it
  mapped. So \<open>Close\<close> unloads only when nobody is left inside, and nobody enters after.
\<close>

theorem host_no_use_after_unload:
  assumes "host_reachable pf c" and "t \<in># hc_threads c"
    and "in_library t \<or> (\<exists>svc. t = HInvoke svc \<or> t = HOpen svc)"
  shows "hc_loaded c \<and> pl_handle (hc_plugin c) \<noteq> 0"
proof -
  have inv: "threads_inv (hc_plugin c) (hc_loaded c) (hc_threads c)"
    by (rule host_invD(2) [OF host_reachable_inv [OF assms(1)]])
  have "0 < weight t" using assms(3) by (cases t) auto
  then have "tsum weight (hc_threads c) \<noteq> 0" using tsum_ge [OF assms(2), of weight] by simp
  then have "hc_loaded c" using threads_inv_wg(4) [OF inv] by auto
  with threads_inv_wg(2) [OF inv] show ?thesis by blast
qed

theorem host_no_use_after_unload_witness:
  "\<exists>c. host_reachable (go_platform echo) c \<and> HOpening \<in># hc_threads c \<and> hc_loaded c"
proof -
  let ?pf = "go_platform echo"
  let ?c1 = "hset (demo_plugin\<lparr>pl_wg := 1\<rparr>) {#HOpen ''S''#} (host_init 1 1)"
  let ?c2 = "hset (demo_streaming\<lparr>pl_wg := 1\<rparr>) {#HOpening#} (host_init 1 1)"
  have "host_step ?pf (host_init 1 1) ?c1"
    using hs_open [of "host_init 1 1" "demo_plugin\<lparr>pl_wg := 1\<rparr>" ?pf "''S''"]
    by (simp add: enter_call_def host_init_def demo_plugin_def new_plugin_def)
  moreover have "host_step ?pf ?c1 ?c2"
    using hs_opener [of ?c1 "''S''" "{#}" ?pf 1 "demo_streaming\<lparr>pl_wg := 1\<rparr>"]
    by (simp add: demo_opener [simplified] hset_def)
  ultimately have "host_reachable ?pf ?c2" using hr_init [of 1 ?pf 1] by (metis hr_step one_neq_zero)
  moreover from host_no_use_after_unload [OF this, of HOpening] have "hc_loaded ?c2" by simp
  ultimately show ?thesis by (intro exI [of _ ?c2]) simp
qed

text \<open>
  C2. No stream leaks and none is closed twice: in every reachable state each handle has
  been closed at most once, and only if the library opened it; and when the library is
  unloaded, every stream it ever opened has been closed exactly once. A stream that was
  opened while \<open>Close\<close> ran is included.
\<close>

theorem host_streams_closed_once:
  assumes "host_reachable pf c"
  shows "hc_closes c h \<le> (if h \<in> hc_opened c then 1 else 0) \<and>
    (\<not> hc_loaded c \<longrightarrow> h \<in> hc_opened c \<longrightarrow> hc_closes c h = 1)"
proof -
  note i = host_invD [OF host_reachable_inv [OF assms]]
  have sum: "(if h \<in> hc_opened c then 1 else 0) =
      count_list (pl_activeStreams (hc_plugin c)) h + tsum (owed h) (hc_threads c) + hc_closes c h"
    by (rule streams_invD [OF i(3)])
  moreover have "count_list (pl_activeStreams (hc_plugin c)) h = 0 \<and> tsum (owed h) (hc_threads c) = 0"
    if unloaded: "\<not> hc_loaded c"
  proof -
    have closers: "tsum is_closer (hc_threads c) = 0" and cl: "pl_closed (hc_plugin c)"
      using threads_inv_wg(5) [OF i(2)] unloaded by (auto split: if_splits)
    have zero: "tsum weight (hc_threads c) = 0" using threads_inv_wg(4) [OF i(2)] unloaded by blast
    have "owed h t = 0" if "t \<in># hc_threads c" for t
      using tsum_ge [OF that, of weight] tsum_ge [OF that, of is_closer] zero closers by (cases t) auto
    then have "tsum (owed h) (hc_threads c) = 0" by (simp add: tsum_def)
    moreover have "pl_activeStreams (hc_plugin c) = []" using i(1) cl by (simp add: funcs_inv_def)
    ultimately show ?thesis by simp
  qed
  ultimately show ?thesis by (auto split: if_splits)
qed

theorem host_streams_closed_once_witness:
  "\<not> hc_loaded demo_closed \<and> 5 \<in> hc_opened demo_closed \<and> hc_closes demo_closed 5 = 1"
  using host_streams_closed_once [OF demo_closed_reachable, of 5] by (simp add: demo_closed_def)

text \<open>
  The last step of \<open>OpenStream\<close> is safe: whenever a goroutine has opened a stream and
  registers it, the stream functions are known, so that the close of a stream opened too
  late does not dereference nil.
\<close>

theorem OpenStream_no_nil_deref:
  assumes "host_reachable pf c" and "HOpened h \<in># hc_threads c"
  shows "\<exists>r p l'. OpenStream_register pf h (hc_plugin c) l = (Ret r, p, l') \<and>
    (r = Inl ErrPluginClosed \<longleftrightarrow> pl_closed (hc_plugin c)) \<and>
    (\<not> pl_closed (hc_plugin c) \<longrightarrow> r = Inr h \<and> h \<in> set (pl_activeStreams p))"
proof -
  have "threads_inv (hc_plugin c) (hc_loaded c) (hc_threads c)"
    by (rule host_invD(2) [OF host_reachable_inv [OF assms(1)]])
  from threads_inv_wg(3) [OF this assms(2)] obtain sf where "pl_streamFuncs (hc_plugin c) = Some sf"
    by auto
  then show ?thesis by (simp add: OpenStream_register_def)
qed

theorem OpenStream_no_nil_deref_witness:
  "\<exists>r p l'. OpenStream_register (go_platform echo) 5 (hc_plugin demo_opening) init_plugin_world = (Ret r, p, l') \<and>
     5 \<in> set (pl_activeStreams p)"
proof -
  have "HOpened 5 \<in># hc_threads demo_opening" and "\<not> pl_closed (hc_plugin demo_opening)"
    by (simp_all add: demo_opening_def hset_def demo_streaming_def demo_plugin_def new_plugin_def)
  with OpenStream_no_nil_deref [OF demo_opening_reachable, of 5 init_plugin_world] show ?thesis by blast
qed

text \<open>
  Unary calls are transparent: with the Unix wrapper around the entry point of a plugin,
  an \<open>Invoke\<close> on an open plugin whose service is found returns exactly what the plugin's
  dispatcher answers for the method and the data, a message as it is and an error as a
  \<open>PluginError\<close> with its text; the library is left in the state the dispatcher leaves, and
  the wait group is back where it was. The method must have no NUL, and the answer with its
  status byte must have a length that fits a C \<open>int\<close>.
\<close>

definition answer_length :: "string + bytes \<Rightarrow> nat" where
  "answer_length r = Suc (case r of Inl e \<Rightarrow> length e | Inr m \<Rightarrow> length m)"

lemma unixInvoke_dispatches:
  assumes "length data \<le> MaxInt32" and "NUL \<notin> set meth" and "answer_length (fst (disp meth data w)) \<le> MaxInt32"
  shows "unixInvoke (Synurang_Invoke disp) meth data w =
    (Ret (Inr (case fst (disp meth data w) of Inl e \<Rightarrow> 1 # str_bytes e | Inr m \<Rightarrow> 0 # m)), snd (disp meth data w))"
proof -
  obtain r w' where d: "disp meth data w = (r, w')" by force
  have exact: "GoBytes (b # bs) (C_int n) = Ret (b # bs)" if "n \<le> MaxInt32" "n = Suc (length bs)" for b bs n
    using GoBytes_exact [of "b # bs"] that by simp
  show ?thesis using assms
    by (cases r) (simp_all add: unixInvoke_def Synurang_Invoke_def GoString_CString d answer_length_def Let_def exact)
qed

lemma Plugin_Invoke_dispatches:
  assumes "\<not> pl_closed p" and "pl_wg p = 0" and "length data \<le> MaxInt32"
    and "NUL \<notin> set meth" and "answer_length (fst (disp meth data w)) \<le> MaxInt32"
    and "getInvoker pf svc (p\<lparr>pl_wg := 1\<rparr>) = (Inr fn, p2)"
    and "pf_invoke pf fn (pl_freePtr p2) = unixInvoke (Synurang_Invoke disp)"
  shows "case Plugin_Invoke pf svc meth data p w of
    (r, p', w') \<Rightarrow>
      r = Ret (case fst (disp meth data w) of Inr m \<Rightarrow> Inr m | Inl e \<Rightarrow> Inl (PluginError e)) \<and>
      w' = snd (disp meth data w) \<and> pl_wg p' = 0"
proof -
  have wg: "pl_wg p2 = 1" using getInvoker_effect(1) [OF assms(6)] by (simp add: same_core_def)
  have e: "enter_call p = Inr (p\<lparr>pl_wg := 1\<rparr>)" using assms(1,2) by (simp add: enter_call_def)
  note inv = unixInvoke_dispatches [where disp = disp, OF assms(3-5)]
  show ?thesis
    using assms(3,7) wg unfolding Plugin_Invoke_def invokeInternal_def e
    by (simp add: assms(6) [simplified] inv decode_response_def leave_call_def split: sum.splits)
qed

text \<open>
  C18. Receiving on the host refines receiving in the plugin: with the Unix wrapper around
  \<open>Synurang_Stream_Recv\<close>, the results of \<open>StreamRecv\<close> on an open plugin are those of the
  receive phases of the stream, as far as the 32-bit length carries them, and an unknown
  handle is an error with status 2; it blocks exactly when they do, and the wait group is
  back where it was. A frame of at most \<open>2 ^ 31 - 1\<close> bytes is carried exactly: seen as its
  data, an error as a \<open>PluginError\<close> with its text, the end as \<open>io.EOF\<close>.
\<close>

theorem StreamRecv_refines:
  assumes "acquireForStreamOp p = Inr (sf, p1)"
    and "pf_stream_recv pf (sf_recv sf) (pl_freePtr p1) = unixStreamRecv Synurang_Stream_Recv"
  shows "StreamRecv pf h p w =
      (case getStream h w of
         None \<Rightarrow> [(Ret (Inl (StreamStatus 2)), p, w)]
       | Some a \<Rightarrow> map (\<lambda>(r, s). (carried r, p, set_stream a s w)) (recv_phases (pw_streams w ! a))) \<and>
    (\<forall>r. frame_length r \<le> MaxInt32 \<longrightarrow> carried r = Ret (host_view r))"
proof (cases "getStream h w")
  case None
  then show ?thesis
    by (simp add: map_recv [OF assms] Synurang_Stream_Recv_def decode_stream_def carried_exact)
next
  case (Some a)
  with decode_recv_wire show ?thesis
    by (simp add: map_recv [OF assms] Synurang_Stream_Recv_def split_beta comp_def carried_exact)
qed

definition demo_plugin_world :: plugin_world where
  "demo_plugin_world = \<lparr>pw_counter = 1, pw_handles = [1 \<mapsto> 0],
     pw_streams = [(new_plugin_stream ''/S/M'')\<lparr>ps_recv_ch := (make_chan 16)\<lparr>ch_buf := [[7], [8]]\<rparr>\<rparr>]\<rparr>"

theorem StreamRecv_refines_witness:
  "map fst (StreamRecv (go_platform echo) 1 demo_streaming demo_plugin_world) = [Ret (Inr [7])] \<and>
   map fst (StreamRecv (go_platform echo) 3 demo_streaming demo_plugin_world) = [Ret (Inl (StreamStatus 2))]"
proof -
  have acq: "acquireForStreamOp demo_streaming = Inr (demo_funcs, demo_streaming\<lparr>pl_wg := 1\<rparr>)"
    by (simp add: acquireForStreamOp_def demo_streaming_def demo_plugin_def new_plugin_def)
  have pf: "pf_stream_recv (go_platform echo) fn fr = unixStreamRecv Synurang_Stream_Recv" for fn fr
    by (simp add: go_platform_def)
  from StreamRecv_refines [OF acq pf, of 1 demo_plugin_world] StreamRecv_refines [OF acq pf, of 3 demo_plugin_world]
  show ?thesis
    by (simp add: getStream_def demo_plugin_world_def recv_phases_def recv_phase1_def recv_ready_def recv_data_def
        MaxInt32_def)
qed

text \<open>
  C37. A closed plugin is closed: with no call under way \<open>Close\<close> closes every active stream,
  unloads the library once, and from then on every operation is refused with
  \<open>ErrPluginClosed\<close> and leaves the library alone; a second \<open>Close\<close> does nothing.
\<close>

theorem Plugin_Close_final:
  assumes "\<not> pl_closed p" and "pl_wg p = 0" and "pl_handle p \<noteq> 0"
    and "pl_streamFuncs p = Some sf" and "sf_close sf \<noteq> 0"
  shows "\<exists>p' l'. Plugin_Close pf ord p l = [(p', l')] \<and>
    l' = pf_close pf (pl_handle p) (fold (pf_stream_close pf (sf_close sf)) (ord (pl_activeStreams p)) l) \<and>
    Plugin_Close pf ord p' l' = [(p', l')] \<and>
    Plugin_Invoke pf svc method data p' l' = (Ret (Inl ErrPluginClosed), p', l') \<and>
    OpenStream pf svc method p' l' = (Ret (Inl ErrPluginClosed), p', l') \<and>
    StreamSend pf h data p' l' = [(Some ErrPluginClosed, p', l')] \<and>
    StreamRecv pf h p' l' = [(Ret (Inl ErrPluginClosed), p', l')] \<and>
    StreamCloseSend pf h p' l' = (Some ErrPluginClosed, p', l') \<and>
    StreamClose pf h p' l' = (p', l')"
  using assms
  by (simp add: Plugin_Close_def Close_lock_def Close_unload_def Close_streams_def Plugin_Invoke_def
      invokeInternal_def enter_call_def OpenStream_def StreamSend_def StreamRecv_def StreamCloseSend_def
      StreamClose_def StreamClose_lock_def acquireForStreamOp_def)

theorem Plugin_Close_final_witness:
  "\<exists>p' l'. Plugin_Close (go_platform echo) id (demo_streaming\<lparr>pl_activeStreams := [1]\<rparr>) demo_plugin_world = [(p', l')] \<and>
     getStream 1 l' = None \<and>
     Plugin_Invoke (go_platform echo) ''S'' ''/S/Echo'' [1] p' l' = (Ret (Inl ErrPluginClosed), p', l')"
proof -
  let ?p = "demo_streaming\<lparr>pl_activeStreams := [1]\<rparr>"
  have p: "\<not> pl_closed ?p" "pl_wg ?p = 0" "pl_handle ?p \<noteq> 0" "pl_streamFuncs ?p = Some demo_funcs"
    "sf_close demo_funcs \<noteq> 0" "pl_activeStreams ?p = [1]"
    by (simp_all add: demo_streaming_def demo_plugin_def new_plugin_def demo_funcs_def)
  have "getStream 1 (fold (pf_stream_close (go_platform echo) (sf_close demo_funcs)) [1] demo_plugin_world) = None"
    by (simp add: go_platform_def unixStreamClose_def Synurang_Stream_Close_def demo_plugin_world_def
        closeSendCh_def CloseRecvCh_def chan_close_def stream_cancel_def new_plugin_stream_def
        getStream_def set_stream_def)
  moreover have "pf_close (go_platform echo) h l = l" for h l by (simp add: go_platform_def)
  ultimately show ?thesis
    using Plugin_Close_final [OF p(1-5), of "go_platform echo" id demo_plugin_world "''S''" "''/S/Echo''" "[1]" 1] p(6)
    by auto
qed

end
