(* ===== verification/PluginPlatforms.thy ===== *)
theory PluginPlatforms
  imports PluginLink
begin

text \<open>
  The platforms of the plugin host: the loader functions of \<open>pkg/synurang/plugin_unix.go\<close>, the
  wrappers of \<open>plugin_windows.go\<close>, and the two records of functions that the packages'
  \<open>init\<close> installs. The operating system's loader and the functions behind the symbols of a
  library are parameters. A C string ends at its first NUL.
\<close>

section \<open>The loader\<close>

text \<open>
  The calls of the operating system, which read their string up to its NUL; a null result is 0.
\<close>

record 'l loader =
  ld_open :: "string \<Rightarrow> 'l \<Rightarrow> uintptr \<times> 'l"
  ld_sym :: "uintptr \<Rightarrow> string \<Rightarrow> uintptr"
  ld_close :: "uintptr \<Rightarrow> 'l \<Rightarrow> 'l"

definition unixOpen :: "'l loader \<Rightarrow> string \<Rightarrow> 'l \<Rightarrow> uintptr option \<times> 'l" where
  "unixOpen ld path l =
     (let (handle, l') = ld_open ld (GoString (CString path)) l in
      (if handle = 0 then None else Some handle, l'))"

definition unixSym :: "'l loader \<Rightarrow> uintptr \<Rightarrow> string \<Rightarrow> uintptr option" where
  "unixSym ld handle name =
     (let ptr = ld_sym ld handle (GoString (CString name)) in if ptr = 0 then None else Some ptr)"

definition unixClose :: "'l loader \<Rightarrow> uintptr \<Rightarrow> 'l \<Rightarrow> 'l" where
  "unixClose ld handle l = ld_close ld handle l"

text \<open>\<open>UTF16PtrFromString\<close> and \<open>BytePtrFromString\<close> refuse a string with a NUL.\<close>

definition windowsOpen :: "'l loader \<Rightarrow> string \<Rightarrow> 'l \<Rightarrow> uintptr option \<times> 'l" where
  "windowsOpen ld path l =
     (if NUL \<in> set path then (None, l)
      else (let (handle, l') = ld_open ld path l in
            (if handle = 0 then None else Some handle, l')))"

definition windowsSym :: "'l loader \<Rightarrow> uintptr \<Rightarrow> string \<Rightarrow> uintptr option" where
  "windowsSym ld handle name =
     (if NUL \<in> set name then None
      else (let ptr = ld_sym ld handle name in if ptr = 0 then None else Some ptr))"

definition windowsClose :: "'l loader \<Rightarrow> uintptr \<Rightarrow> 'l \<Rightarrow> 'l" where
  "windowsClose ld handle l = ld_close ld handle l"

section \<open>Calls on Windows\<close>

text \<open>
  \<open>SyscallN\<close> passes and returns whole registers. A C function of type \<open>int\<close> reads and sets
  the lower half; the calling convention says nothing of the upper half of its result, which
  is the parameter \<open>high\<close>. \<open>cstring\<close> copies the string into a buffer with a NUL at its end.
\<close>

definition int_arg :: "nat \<Rightarrow> cint" where
  "int_arg n = ucast (of_nat n :: uintptr)"

definition register_of_int :: "32 word \<Rightarrow> cint \<Rightarrow> uintptr" where
  "register_of_int high code = word_cat high code"

definition cstring :: "string \<Rightarrow> string" where
  "cstring s = s @ replicate 1 NUL"

definition windowsInvoke ::
    "(string \<Rightarrow> bytes option \<Rightarrow> cint \<Rightarrow> 'l \<Rightarrow> (bytes option \<times> cint) \<times> 'l) \<Rightarrow> string \<Rightarrow> bytes \<Rightarrow> 'l \<Rightarrow>
     (string + bytes) outcome \<times> 'l" where
  "windowsInvoke fn method data l =
     (let dataLen = length data;
          ((ret, respLen), l') = fn (cstring method) (if dataLen > 0 then Some data else None) (int_arg dataLen) l in
      case ret of
        None \<Rightarrow> (Ret (Inl ''plugin returned nil''), l')
      | Some resp \<Rightarrow>
          (if sint respLen < 0 then Panic LengthOutOfRange else Ret (Inr (take (nat (sint respLen)) resp)), l'))"

definition windowsStreamOpen :: "(string \<Rightarrow> 'l \<Rightarrow> uint64 \<times> 'l) \<Rightarrow> string \<Rightarrow> 'l \<Rightarrow> uint64 \<times> 'l" where
  "windowsStreamOpen fn method l = fn (cstring method) l"

definition windowsStreamSend ::
    "32 word \<Rightarrow> (uint64 \<Rightarrow> bytes option \<Rightarrow> cint \<Rightarrow> 'l \<Rightarrow> (cint \<times> 'l) list) \<Rightarrow> uint64 \<Rightarrow> bytes \<Rightarrow> 'l \<Rightarrow> (int \<times> 'l) list" where
  "windowsStreamSend high fn handle data l =
     (let dataLen = length data in
      map (\<lambda>(code, l'). (sint (register_of_int high code), l'))
        (fn handle (if dataLen > 0 then Some data else None) (int_arg dataLen) l))"

text \<open>A response is copied, and freed, only if it has a positive length.\<close>

definition windowsStreamRecv ::
    "(uint64 \<Rightarrow> 'l \<Rightarrow> (c_response \<times> 'l) list) \<Rightarrow> uint64 \<Rightarrow> 'l \<Rightarrow> ((bytes \<times> int \<times> int) outcome \<times> 'l) list" where
  "windowsStreamRecv fn handle l =
     map (\<lambda>((ret, cRespLen, cStatus), l').
            (Ret (case ret of
                    Some r \<Rightarrow> if sint cRespLen > 0 then take (nat (sint cRespLen)) r else []
                  | None \<Rightarrow> [], sint cRespLen, sint cStatus), l'))
       (fn handle l)"

definition windowsStreamCloseSend :: "(uint64 \<Rightarrow> 'l \<Rightarrow> 'l) \<Rightarrow> uint64 \<Rightarrow> 'l \<Rightarrow> 'l" where
  "windowsStreamCloseSend fn handle l = fn handle l"

definition windowsStreamClose :: "(uint64 \<Rightarrow> 'l \<Rightarrow> 'l) \<Rightarrow> uint64 \<Rightarrow> 'l \<Rightarrow> 'l" where
  "windowsStreamClose fn handle l = fn handle l"

section \<open>The two platforms\<close>

text \<open>The functions at the addresses of a library.\<close>

record 'l c_library =
  cl_invoke :: "uintptr \<Rightarrow> string \<Rightarrow> bytes option \<Rightarrow> cint \<Rightarrow> 'l \<Rightarrow> (bytes option \<times> cint) \<times> 'l"
  cl_open :: "uintptr \<Rightarrow> string \<Rightarrow> 'l \<Rightarrow> uint64 \<times> 'l"
  cl_send :: "uintptr \<Rightarrow> uint64 \<Rightarrow> bytes option \<Rightarrow> cint \<Rightarrow> 'l \<Rightarrow> (cint \<times> 'l) list"
  cl_recv :: "uintptr \<Rightarrow> uint64 \<Rightarrow> 'l \<Rightarrow> (c_response \<times> 'l) list"
  cl_closeSend :: "uintptr \<Rightarrow> uint64 \<Rightarrow> 'l \<Rightarrow> 'l"
  cl_close :: "uintptr \<Rightarrow> uint64 \<Rightarrow> 'l \<Rightarrow> 'l"

definition unix_platform :: "'l loader \<Rightarrow> 'l c_library \<Rightarrow> 'l platform" where
  "unix_platform ld cl =
     \<lparr>pf_open = unixOpen ld, pf_sym = unixSym ld, pf_close = unixClose ld,
      pf_invoke = (\<lambda>fn freePtr. unixInvoke (cl_invoke cl fn)),
      pf_stream_open = (\<lambda>fn. unixStreamOpen (cl_open cl fn)),
      pf_stream_send = (\<lambda>fn. unixStreamSend (cl_send cl fn)),
      pf_stream_recv = (\<lambda>fn freePtr. unixStreamRecv (cl_recv cl fn)),
      pf_stream_close_send = (\<lambda>fn. unixStreamCloseSend (cl_closeSend cl fn)),
      pf_stream_close = (\<lambda>fn. unixStreamClose (cl_close cl fn))\<rparr>"

definition windows_platform :: "32 word \<Rightarrow> 'l loader \<Rightarrow> 'l c_library \<Rightarrow> 'l platform" where
  "windows_platform high ld cl =
     \<lparr>pf_open = windowsOpen ld, pf_sym = windowsSym ld, pf_close = windowsClose ld,
      pf_invoke = (\<lambda>fn freePtr. windowsInvoke (cl_invoke cl fn)),
      pf_stream_open = (\<lambda>fn. windowsStreamOpen (cl_open cl fn)),
      pf_stream_send = (\<lambda>fn. windowsStreamSend high (cl_send cl fn)),
      pf_stream_recv = (\<lambda>fn freePtr. windowsStreamRecv (cl_recv cl fn)),
      pf_stream_close_send = (\<lambda>fn. windowsStreamCloseSend (cl_closeSend cl fn)),
      pf_stream_close = (\<lambda>fn. windowsStreamClose (cl_close cl fn))\<rparr>"

section \<open>Their agreement\<close>

lemma int_arg_C_int [simp]: "int_arg n = C_int n"
  by (simp add: int_arg_def C_int_def word_uint_eq_iff unsigned_ucast_eq unsigned_of_nat take_bit_of_nat)

lemma cstring_CString [simp]: "cstring s = CString s"
  by (simp add: cstring_def CString_def)

lemma unixInvoke_windows: "windowsInvoke fn = unixInvoke fn"
  by (intro ext) (auto simp: windowsInvoke_def unixInvoke_def c_data_def GoBytes_def Let_def
      split: prod.split option.split)

lemma find_sym_windows:
  "NUL \<notin> set name \<Longrightarrow> find_sym (windows_platform high ld cl) h name = find_sym (unix_platform ld cl) h name"
  by (simp add: find_sym_def windows_platform_def unix_platform_def windowsSym_def unixSym_def GoString_CString)

text \<open>What becomes of the result of a send whose code comes back in a whole register.\<close>

fun widened :: "32 word \<Rightarrow> host_error option \<Rightarrow> host_error option" where
  "widened high None = (if high = 0 then None else Some (SendFailed (sint (register_of_int high 0))))"
| "widened high (Some (SendFailed code)) = Some (SendFailed (sint (register_of_int high (word_of_int code))))"
| "widened high (Some e) = Some e"

lemma register_0: "register_of_int high code = 0 \<longleftrightarrow> high = 0 \<and> code = 0"
proof -
  have "code = 0" if "register_of_int high code = 0"
  proof (rule bit_word_eqI)
    fix n assume "n < LENGTH(32)"
    with that have "bit (word_cat high code :: uintptr) n \<longleftrightarrow> bit (0 :: uintptr) n"
      by (simp add: register_of_int_def)
    with \<open>n < LENGTH(32)\<close> show "bit code n \<longleftrightarrow> bit (0 :: cint) n" by (simp add: bit_word_cat_iff)
  qed
  moreover have "high = 0" if "register_of_int high code = 0"
  proof (rule bit_word_eqI)
    fix n assume "n < LENGTH(32)"
    moreover from that have "bit (word_cat high code :: uintptr) (n + 32) \<longleftrightarrow> bit (0 :: uintptr) (n + 32)"
      by (simp add: register_of_int_def)
    ultimately show "bit high n \<longleftrightarrow> bit (0 :: 32 word) n" by (simp add: bit_word_cat_iff)
  qed
  moreover have "register_of_int 0 0 = 0" by (simp add: register_of_int_def word_cat_eq)
  ultimately show ?thesis by auto
qed

lemma NUL_symbols:
  assumes "NUL \<notin> set svc"
  shows "NUL \<notin> set (''Synurang_Invoke_'' @ svc)" "NUL \<notin> set (''Synurang_Stream_'' @ svc @ ''_Open'')"
    "NUL \<notin> set ''Synurang_Stream_Send''" "NUL \<notin> set ''Synurang_Stream_Recv''"
    "NUL \<notin> set ''Synurang_Stream_CloseSend''" "NUL \<notin> set ''Synurang_Stream_Close''"
    "NUL \<notin> set ''Synurang_Free''"
  using assms by (simp_all add: NUL_def)

lemma lookup_windows:
  assumes "NUL \<notin> set svc"
  shows "getInvoker (windows_platform high ld cl) svc p = getInvoker (unix_platform ld cl) svc p"
    and "getStreamOpener (windows_platform high ld cl) svc p = getStreamOpener (unix_platform ld cl) svc p"
proof -
  note syms = NUL_symbols [OF assms, THEN find_sym_windows, of high ld cl]
  show "getInvoker (windows_platform high ld cl) svc p = getInvoker (unix_platform ld cl) svc p"
    unfolding getInvoker_def syms ..
  show "getStreamOpener (windows_platform high ld cl) svc p = getStreamOpener (unix_platform ld cl) svc p"
    unfolding getStreamOpener_def ensureStreamFuncs_def syms ..
qed

lemma platform_fields:
  fixes high ld cl
  defines "w \<equiv> windows_platform high ld cl" and "u \<equiv> unix_platform ld cl"
  shows "pf_invoke w = pf_invoke u" "pf_stream_open w = pf_stream_open u"
    "pf_stream_close w = pf_stream_close u" "pf_stream_close_send w = pf_stream_close_send u"
    "pf_close w = pf_close u"
    "NUL \<notin> set path \<Longrightarrow> pf_open w path l = pf_open u path l"
  by (auto simp: w_def u_def windows_platform_def unix_platform_def unixInvoke_windows fun_eq_iff
      windowsStreamOpen_def unixStreamOpen_def windowsStreamClose_def unixStreamClose_def
      windowsStreamCloseSend_def unixStreamCloseSend_def windowsClose_def unixClose_def
      windowsOpen_def unixOpen_def GoString_CString)

lemma StreamSend_windows:
  "StreamSend (windows_platform high ld cl) h data p l =
     map (\<lambda>(e, p', l'). (widened high e, p', l')) (StreamSend (unix_platform ld cl) h data p l)"
proof (cases "acquireForStreamOp p")
  case (Inl e)
  then have "widened high (Some e) = Some e" by (auto simp: acquireForStreamOp_def split: if_splits option.splits)
  with Inl show ?thesis by (simp add: StreamSend_def)
next
  case (Inr r)
  then show ?thesis
    by (cases r) (auto simp: StreamSend_def windows_platform_def unix_platform_def windowsStreamSend_def
        unixStreamSend_def Let_def c_data_def register_0 signed_eq_0_iff)
qed

lemma StreamRecv_windows:
  "list_all2 (\<lambda>(r, st) (r', st'). st = st' \<and>
       (case r' of Ret x \<Rightarrow> r = Ret x | Panic q \<Rightarrow> \<exists>e. r = Ret (Inl e)))
     (StreamRecv (windows_platform high ld cl) h p l) (StreamRecv (unix_platform ld cl) h p l)"
proof (cases "acquireForStreamOp p")
  case (Inl e)
  then show ?thesis by (simp add: StreamRecv_def)
next
  case (Inr r)
  then show ?thesis
    by (cases r)
       (auto simp: StreamRecv_def windows_platform_def unix_platform_def windowsStreamRecv_def
          unixStreamRecv_def list_all2_map1 list_all2_map2 list_all2_same GoBytes_def decode_stream_def
          split: option.splits)
qed

text \<open>
  C20. Where the two platforms agree, over the same library, for a path and a service name
  without a NUL: loading and closing the plugin, unary calls, opening a stream, closing it or
  its send side have the same results. A receive has the same results except that a frame with
  a negative length panics on Unix and is reported as an error on Windows. A send that failed
  fails on both, but on Windows with a code read from a whole register: a negative code is
  reported as another number, and a send that succeeded is reported as failed unless the
  upper half of the register, which the C function does not set, happens to be 0.
\<close>

theorem platforms_agree:
  assumes "NUL \<notin> set svc" and "NUL \<notin> set path"
  shows "LoadPlugin (windows_platform high ld cl) path l = LoadPlugin (unix_platform ld cl) path l \<and>
    Plugin_Close (windows_platform high ld cl) ord p l = Plugin_Close (unix_platform ld cl) ord p l \<and>
    Plugin_Invoke (windows_platform high ld cl) svc meth data p l = Plugin_Invoke (unix_platform ld cl) svc meth data p l \<and>
    OpenStream (windows_platform high ld cl) svc meth p l = OpenStream (unix_platform ld cl) svc meth p l \<and>
    StreamCloseSend (windows_platform high ld cl) h p l = StreamCloseSend (unix_platform ld cl) h p l \<and>
    StreamClose (windows_platform high ld cl) h p l = StreamClose (unix_platform ld cl) h p l \<and>
    list_all2 (\<lambda>(r, st) (r', st'). st = st' \<and>
        (case r' of Ret x \<Rightarrow> r = Ret x | Panic q \<Rightarrow> \<exists>e. r = Ret (Inl e)))
      (StreamRecv (windows_platform high ld cl) h p l) (StreamRecv (unix_platform ld cl) h p l) \<and>
    StreamSend (windows_platform high ld cl) h data p l =
      map (\<lambda>(e, p', l'). (widened high e, p', l')) (StreamSend (unix_platform ld cl) h data p l) \<and>
    (\<forall>e. widened high e = None \<longleftrightarrow> e = None \<and> high = 0)"
proof (intro conjI)
  note same = platform_fields(1-5) [where high = high and ld = ld and cl = cl] lookup_windows [OF assms(1)]
  show "LoadPlugin (windows_platform high ld cl) path l = LoadPlugin (unix_platform ld cl) path l"
    unfolding LoadPlugin_def platform_fields(5) platform_fields(6) [OF assms(2)] find_sym_windows [OF NUL_symbols(7) [OF assms(1)]]
    unfolding same ..
  show "Plugin_Close (windows_platform high ld cl) ord p l = Plugin_Close (unix_platform ld cl) ord p l"
    unfolding Plugin_Close_def Close_unload_def Close_streams_def same ..
  show "Plugin_Invoke (windows_platform high ld cl) svc meth data p l = Plugin_Invoke (unix_platform ld cl) svc meth data p l"
    unfolding Plugin_Invoke_def invokeInternal_def same ..
  show "OpenStream (windows_platform high ld cl) svc meth p l = OpenStream (unix_platform ld cl) svc meth p l"
    unfolding OpenStream_def OpenStream_register_def same ..
  show "StreamCloseSend (windows_platform high ld cl) h p l = StreamCloseSend (unix_platform ld cl) h p l"
    unfolding StreamCloseSend_def same ..
  show "StreamClose (windows_platform high ld cl) h p l = StreamClose (unix_platform ld cl) h p l"
    unfolding StreamClose_def same ..
  show "\<forall>e. widened high e = None \<longleftrightarrow> e = None \<and> high = 0"
  proof
    fix e show "widened high e = None \<longleftrightarrow> e = None \<and> high = 0"
      by (induction high e rule: widened.induct) (simp_all add: signed_eq_0_iff register_0)
  qed
qed (rule StreamRecv_windows, rule StreamSend_windows)

text \<open>A library whose sends fail with -1 and whose frames have a negative length.\<close>

definition demo_library :: "unit c_library" where
  "demo_library = \<lparr>cl_invoke = (\<lambda>fn m d n l. ((Some [0], 1), l)), cl_open = (\<lambda>fn m l. (1, l)),
     cl_send = (\<lambda>fn h d n l. [(- 1, l)]), cl_recv = (\<lambda>fn h l. [((Some [0, 7], - 5, 0), l)]),
     cl_closeSend = (\<lambda>fn h l. l), cl_close = (\<lambda>fn h l. l)\<rparr>"

definition demo_loader :: "unit loader" where
  "demo_loader = \<lparr>ld_open = (\<lambda>p l. (1, l)), ld_sym = (\<lambda>h n. 9), ld_close = (\<lambda>h l. l)\<rparr>"

definition demo_loaded :: plugin where
  "demo_loaded = (new_plugin 1 9)\<lparr>pl_streamFuncs := Some \<lparr>sf_send = 9, sf_recv = 9, sf_closeSend = 9, sf_close = 9\<rparr>\<rparr>"

theorem platforms_agree_witness:
  "LoadPlugin (windows_platform 0 demo_loader demo_library) ''p'' () = (Inr (new_plugin 1 9), ()) \<and>
   StreamSend (windows_platform 0 demo_loader demo_library) 1 [5] demo_loaded () =
     [(Some (SendFailed 4294967295), demo_loaded, ())] \<and>
   StreamRecv (unix_platform demo_loader demo_library) 1 demo_loaded () = [(Panic LengthOutOfRange, demo_loaded, ())] \<and>
   (\<exists>e. StreamRecv (windows_platform 0 demo_loader demo_library) 1 demo_loaded () = [(Ret (Inl e), demo_loaded, ())])"
proof -
  let ?u = "unix_platform demo_loader demo_library"
  have load: "LoadPlugin ?u ''p'' () = (Inr (new_plugin 1 9), ())"
    by (simp add: LoadPlugin_def unix_platform_def unixOpen_def unixSym_def find_sym_def demo_loader_def)
  have acq: "acquireForStreamOp demo_loaded = Inr (\<lparr>sf_send = 9, sf_recv = 9, sf_closeSend = 9, sf_close = 9\<rparr>,
      demo_loaded\<lparr>pl_wg := Suc (pl_wg demo_loaded)\<rparr>)"
    by (simp add: acquire_Inr) (simp add: demo_loaded_def new_plugin_def)
  then have send: "StreamSend ?u 1 [5] demo_loaded () = [(Some (SendFailed (- 1)), demo_loaded, ())]"
    and recv: "StreamRecv ?u 1 demo_loaded () = [(Panic LengthOutOfRange, demo_loaded, ())]"
    by (simp_all add: StreamSend_def StreamRecv_def unix_platform_def unixStreamSend_def unixStreamRecv_def
        demo_library_def MaxInt32_def GoBytes_def)
  have "register_of_int 0 (- 1) = 4294967295"
    by (simp add: register_of_int_def word_cat_eq word_uint_eq_iff unsigned_ucast_eq unsigned_minus_1_eq_mask mask_eq_exp_minus_1)
  then have wide: "sint (register_of_int 0 (- 1)) = 4294967295" by simp
  have nul: "NUL \<notin> set ''S''" "NUL \<notin> set ''p''" by (simp_all add: NUL_def)
  from platforms_agree [OF nul, of 0 demo_loader demo_library "()" id demo_loaded "''m''" "[5]" 1]
  show ?thesis by (auto simp: load send recv wide list_all2_Cons2)
qed

end
