(* ===== verification/Cache.thy ===== *)
theory Cache
  imports Channels "HOL-Library.AList"
begin

text \<open>
  The cache service (\<open>pkg/service/cache.go\<close>). The table \<open>cache_entries\<close> is the list of its
  rows; each prepared statement is a function on it that says what its SQL says. SQLite is
  not modelled beyond that: a statement may fail (\<open>ca_faults\<close> lists the outcomes of the
  statements to come, a \<open>True\<close> being a failure that changes nothing), and the order in which
  \<open>ORDER BY accessed_at\<close> returns rows of equal age is a parameter. Times are in nanoseconds,
  and 64-bit arithmetic that can wrap is written out with \<open>wrap64\<close>.
\<close>

section \<open>Rows and statements\<close>

record row =
  r_id :: nat
  r_store :: string
  r_key :: string
  r_value :: "bytes option"
  r_expires :: int
  r_accessed :: int
  r_size :: int

definition matches :: "string \<Rightarrow> string \<Rightarrow> row \<Rightarrow> bool" where
  "matches s k r \<longleftrightarrow> r_store r = s \<and> r_key r = k"

definition of_store :: "string \<Rightarrow> row list \<Rightarrow> row list" where
  "of_store s rs = filter (\<lambda>r. r_store r = s) rs"

text \<open>The order of \<open>ORDER BY accessed_at ASC\<close>: any one that sorts by age.\<close>

type_synonym row_order = "row list \<Rightarrow> row list"

definition lru_order :: "row_order \<Rightarrow> bool" where
  "lru_order ord \<longleftrightarrow> (\<forall>rs. mset (ord rs) = mset rs \<and> sorted (map r_accessed (ord rs)))"

definition sql_get :: "string \<Rightarrow> string \<Rightarrow> row list \<Rightarrow> row option" where
  "sql_get s k rs = find (matches s k) rs"

definition fresh_id :: "row list \<Rightarrow> nat" where
  "fresh_id rs = Suc (fold max (map r_id rs) 0)"

definition sql_put :: "string \<Rightarrow> string \<Rightarrow> bytes option \<Rightarrow> int \<Rightarrow> int \<Rightarrow> int \<Rightarrow> row list \<Rightarrow> row list" where
  "sql_put s k v ex ac sz rs =
     (if sql_get s k rs = None
      then rs @ [\<lparr>r_id = fresh_id rs, r_store = s, r_key = k, r_value = v, r_expires = ex,
                  r_accessed = ac, r_size = sz\<rparr>]
      else map (\<lambda>r. if matches s k r
                    then r\<lparr>r_value := v, r_expires := ex, r_accessed := ac, r_size := sz\<rparr> else r) rs)"

definition sql_del :: "string \<Rightarrow> string \<Rightarrow> row list \<Rightarrow> row list" where
  "sql_del s k rs = filter (\<lambda>r. \<not> matches s k r) rs"

definition sql_clear :: "string \<Rightarrow> row list \<Rightarrow> row list" where
  "sql_clear s rs = filter (\<lambda>r. r_store r \<noteq> s) rs"

definition unexpired :: "int \<Rightarrow> row \<Rightarrow> bool" where
  "unexpired now r \<longleftrightarrow> r_expires r = 0 \<or> r_expires r > now"

definition sql_contains :: "string \<Rightarrow> string \<Rightarrow> int \<Rightarrow> row list \<Rightarrow> bool" where
  "sql_contains s k now rs = list_ex (\<lambda>r. matches s k r \<and> unexpired now r) rs"

definition sql_keys :: "string \<Rightarrow> int \<Rightarrow> row list \<Rightarrow> string list" where
  "sql_keys s now rs = map r_key (filter (unexpired now) (of_store s rs))"

definition sql_cleanup :: "int \<Rightarrow> row list \<Rightarrow> row list" where
  "sql_cleanup now rs = filter (\<lambda>r. \<not> (r_expires r > 0 \<and> r_expires r < now)) rs"

definition sql_update_access :: "int \<Rightarrow> string \<Rightarrow> string \<Rightarrow> row list \<Rightarrow> row list" where
  "sql_update_access ac s k rs = map (\<lambda>r. if matches s k r then r\<lparr>r_accessed := ac\<rparr> else r) rs"

definition sql_count :: "string \<Rightarrow> row list \<Rightarrow> int" where
  "sql_count s rs = int (length (of_store s rs))"

definition sql_delete_ids :: "nat list \<Rightarrow> row list \<Rightarrow> row list" where
  "sql_delete_ids ids rs = filter (\<lambda>r. r_id r \<notin> set ids) rs"

text \<open>A negative \<open>LIMIT\<close> means no limit.\<close>

definition sql_evict_count :: "row_order \<Rightarrow> string \<Rightarrow> int \<Rightarrow> row list \<Rightarrow> row list" where
  "sql_evict_count ord s n rs =
     filter (\<lambda>r. \<not> (r_store r = s \<and> r_id r \<in> set (map r_id (if n < 0 then ord (of_store s rs) else take (nat n) (ord (of_store s rs)))))) rs"

text \<open>\<open>SUM\<close> fails when the sum leaves the 64-bit range.\<close>

definition sql_sum_size :: "string \<Rightarrow> row list \<Rightarrow> int option" where
  "sql_sum_size s rs =
     (let total = sum_list (map r_size (of_store s rs)) in if total < 2 ^ 63 then Some total else None)"

definition sql_oldest :: "row_order \<Rightarrow> string \<Rightarrow> row list \<Rightarrow> row list" where
  "sql_oldest ord s rs = take 50 (ord (of_store s rs))"

section \<open>The service\<close>

record access_update =
  au_store :: string
  au_key :: string
  au_at :: int

record cache =
  ca_rows :: "row list"
  ca_faults :: "bool list"
  ca_max_entries :: "(string \<times> int) list"
  ca_max_bytes :: "(string \<times> int) list"
  ca_access :: "access_update chan"
  ca_closed :: bool
  ca_paused :: bool

definition NewCacheService :: "row list \<Rightarrow> cache" where
  "NewCacheService rs = \<lparr>ca_rows = rs, ca_faults = [], ca_max_entries = [], ca_max_bytes = [],
     ca_access = make_chan 4096, ca_closed = False, ca_paused = False\<rparr>"

datatype cache_error = SqlFailed

text \<open>Running one statement: it fails and changes nothing, or it does what it says.\<close>

definition run_sql :: "(row list \<Rightarrow> 'a \<times> row list) \<Rightarrow> cache \<Rightarrow> 'a option \<times> cache" where
  "run_sql f c =
     (case ca_faults c of
        True # bs \<Rightarrow> (None, c\<lparr>ca_faults := bs\<rparr>)
      | _ \<Rightarrow> (Some (fst (f (ca_rows c))),
              c\<lparr>ca_rows := snd (f (ca_rows c)), ca_faults := tl (ca_faults c)\<rparr>))"

definition exec_sql :: "(row list \<Rightarrow> row list) \<Rightarrow> cache \<Rightarrow> cache_error option \<times> cache" where
  "exec_sql f c = (case run_sql (\<lambda>rs. ((), f rs)) c of
     (None, c') \<Rightarrow> (Some SqlFailed, c') | (Some u, c') \<Rightarrow> (None, c'))"

definition query_sql :: "(row list \<Rightarrow> 'a) \<Rightarrow> cache \<Rightarrow> 'a option \<times> cache" where
  "query_sql f c = run_sql (\<lambda>rs. (f rs, rs)) c"

definition unix :: "int \<Rightarrow> int" where
  "unix t = t div 1000000000"

definition minute :: int where
  "minute = 60000000000"

text \<open>
  \<open>Get\<close>: \<open>t1\<close> and \<open>t2\<close> are the times its two calls of \<open>time.Now\<close> return; the result is the
  value of the response, \<open>None\<close> for the empty one.
\<close>

definition touch :: "string \<Rightarrow> string \<Rightarrow> int \<Rightarrow> row \<Rightarrow> cache \<Rightarrow> cache" where
  "touch s k now r c =
     (if wrap64 (now - r_accessed r) > minute
      then (if send_ready (ca_access c)
            then (case chan_send \<lparr>au_store = s, au_key = k, au_at = now\<rparr> (ca_access c) of
                    Ret ch \<Rightarrow> c\<lparr>ca_access := ch\<rparr> | Panic p \<Rightarrow> c)
            else c)
      else c)"

definition Get :: "int \<Rightarrow> int \<Rightarrow> string \<Rightarrow> string \<Rightarrow> cache \<Rightarrow> (cache_error + bytes option) \<times> cache" where
  "Get t1 t2 s k c =
     (if ca_closed c then (Inr None, c)
      else (case query_sql (sql_get s k) c of
              (None, c1) \<Rightarrow> (Inl SqlFailed, c1)
            | (Some None, c1) \<Rightarrow> (Inr None, c1)
            | (Some (Some r), c1) \<Rightarrow>
                if r_expires r > 0 \<and> r_expires r < unix t1 then (Inr None, c1)
                else (Inr (r_value r), touch s k t2 r c1)))"

definition blob_length :: "bytes option \<Rightarrow> int" where
  "blob_length v = (case v of Some d \<Rightarrow> int (length d) | None \<Rightarrow> 0)"

definition Put ::
    "int \<Rightarrow> int \<Rightarrow> string \<Rightarrow> string \<Rightarrow> bytes option \<Rightarrow> int \<Rightarrow> int \<Rightarrow> cache \<Rightarrow> cache_error option \<times> cache" where
  "Put t1 t2 s k v ttl cost c =
     (if ca_closed c then (None, c)
      else (let expiresAt = (if ttl > 0 then wrap64 (unix t1 + ttl) else 0);
                size = (if cost > 0 then cost else blob_length v)
            in exec_sql (sql_put s k v expiresAt t2 size) c))"

definition Delete :: "string \<Rightarrow> string \<Rightarrow> cache \<Rightarrow> cache_error option \<times> cache" where
  "Delete s k c = (if ca_closed c then (None, c) else exec_sql (sql_del s k) c)"

definition Clear :: "string \<Rightarrow> cache \<Rightarrow> cache_error option \<times> cache" where
  "Clear s c = (if ca_closed c then (None, c) else exec_sql (sql_clear s) c)"

definition Contains :: "int \<Rightarrow> string \<Rightarrow> string \<Rightarrow> cache \<Rightarrow> (cache_error + bool) \<times> cache" where
  "Contains t s k c =
     (if ca_closed c then (Inr False, c)
      else (case query_sql (sql_contains s k (unix t)) c of
              (None, c1) \<Rightarrow> (Inl SqlFailed, c1) | (Some b, c1) \<Rightarrow> (Inr b, c1)))"

definition Keys :: "int \<Rightarrow> string \<Rightarrow> cache \<Rightarrow> (cache_error + string list) \<times> cache" where
  "Keys t s c =
     (if ca_closed c then (Inr [], c)
      else (case query_sql (sql_keys s (unix t)) c of
              (None, c1) \<Rightarrow> (Inl SqlFailed, c1) | (Some ks, c1) \<Rightarrow> (Inr ks, c1)))"

definition SetMaxEntries :: "string \<Rightarrow> int \<Rightarrow> cache \<Rightarrow> cache" where
  "SetMaxEntries s n c = c\<lparr>ca_max_entries := AList.update s n (ca_max_entries c)\<rparr>"

definition SetMaxBytes :: "string \<Rightarrow> int \<Rightarrow> cache \<Rightarrow> cache" where
  "SetMaxBytes s n c = c\<lparr>ca_max_bytes := AList.update s n (ca_max_bytes c)\<rparr>"

definition GetStats :: "string \<Rightarrow> cache \<Rightarrow> (cache_error + int \<times> int) \<times> cache" where
  "GetStats s c =
     (if ca_closed c then (Inr (0, 0), c)
      else (case query_sql (\<lambda>rs. (sql_count s rs, sql_sum_size s rs)) c of
              (Some (n, Some sz), c1) \<Rightarrow> (Inr (n, sz), c1)
            | (_, c1) \<Rightarrow> (Inl SqlFailed, c1)))"

text \<open>\<open>Compact\<close>: two statements that do not change the contents of the table.\<close>

definition Compact :: "cache \<Rightarrow> cache_error option \<times> cache" where
  "Compact c = (case exec_sql id c of
      (Some e, c1) \<Rightarrow> (Some e, c1)
    | (None, c1) \<Rightarrow> exec_sql id c1)"

section \<open>Maintenance\<close>

definition cleanupExpired :: "int \<Rightarrow> cache \<Rightarrow> cache" where
  "cleanupExpired t c = snd (exec_sql (sql_cleanup (unix t)) c)"

text \<open>The first loop of \<open>evictOverCapacity\<close>, for one store.\<close>

definition evict_entries :: "row_order \<Rightarrow> string \<times> int \<Rightarrow> cache \<Rightarrow> cache" where
  "evict_entries ord lim c =
     (let (s, maxEntries) = lim in
      if maxEntries \<le> 0 then c
      else (case query_sql (sql_count s) c of
              (None, c1) \<Rightarrow> c1
            | (Some n, c1) \<Rightarrow>
                if n \<le> maxEntries then c1
                else snd (exec_sql (sql_evict_count ord s (n - maxEntries)) c1)))"

text \<open>
  The second loop, for one store. The inner loop has fuel: each of its turns deletes a row
  of the store or stops it, so the number of rows is enough.
\<close>

fun evict_bytes_loop :: "nat \<Rightarrow> row_order \<Rightarrow> string \<Rightarrow> int \<Rightarrow> int \<Rightarrow> cache \<Rightarrow> cache" where
  "evict_bytes_loop 0 ord s maxBytes totalSize c = c"
| "evict_bytes_loop (Suc n) ord s maxBytes totalSize c =
     (if totalSize > maxBytes
      then (case query_sql (sql_oldest ord s) c of
              (None, c1) \<Rightarrow> c1
            | (Some rs, c1) \<Rightarrow>
                if rs = [] then c1
                else (case exec_sql (sql_delete_ids (map r_id rs)) c1 of
                        (Some e, c2) \<Rightarrow> c2
                      | (None, c2) \<Rightarrow>
                          evict_bytes_loop n ord s maxBytes
                            (wrap64 (totalSize - wrap64 (sum_list (map r_size rs)))) c2))
      else c)"

definition evict_bytes :: "row_order \<Rightarrow> string \<times> int \<Rightarrow> cache \<Rightarrow> cache" where
  "evict_bytes ord lim c =
     (let (s, maxBytes) = lim in
      if maxBytes \<le> 0 then c
      else (case query_sql (sql_sum_size s) c of
              (Some (Some totalSize), c1) \<Rightarrow>
                if totalSize \<le> maxBytes then c1
                else evict_bytes_loop (Suc (length (ca_rows c1))) ord s maxBytes totalSize c1
            | (_, c1) \<Rightarrow> c1))"

definition evictOverCapacity :: "row_order \<Rightarrow> cache \<Rightarrow> cache" where
  "evictOverCapacity ord c =
     fold (evict_bytes ord) (ca_max_bytes c) (fold (evict_entries ord) (ca_max_entries c) c)"

text \<open>One tick of \<open>cleanupLoop\<close>; the vacuum that follows does not change the contents.\<close>

definition cleanup_tick :: "row_order \<Rightarrow> int \<Rightarrow> cache \<Rightarrow> cache" where
  "cleanup_tick ord t c =
     (if ca_paused c then c else snd (exec_sql id (evictOverCapacity ord (cleanupExpired t c))))"

text \<open>The batched access times; \<open>us\<close> are the pending updates in the order of the map's range.\<close>

definition flushAccessUpdates :: "access_update list \<Rightarrow> cache \<Rightarrow> cache" where
  "flushAccessUpdates us c =
     fold (\<lambda>u c. snd (exec_sql (sql_update_access (au_at u) (au_store u) (au_key u)) c)) us c"

section \<open>The invariant\<close>

text \<open>The constraints of the schema, and that sizes are not negative.\<close>

definition rows_inv :: "row list \<Rightarrow> bool" where
  "rows_inv rs \<longleftrightarrow> distinct (map r_id rs) \<and> distinct (map (\<lambda>r. (r_store r, r_key r)) rs) \<and>
     (\<forall>r \<in> set rs. 0 \<le> r_size r)"

definition cache_inv :: "cache \<Rightarrow> bool" where
  "cache_inv c \<longleftrightarrow> rows_inv (ca_rows c) \<and> \<not> ch_closed (ca_access c)"


section \<open>Statements that do not fail\<close>

lemma run_sql_ok [simp]:
  "ca_faults c = [] \<Longrightarrow> run_sql f c = (Some (fst (f (ca_rows c))), c\<lparr>ca_rows := snd (f (ca_rows c))\<rparr>)"
  by (simp add: run_sql_def)

lemma query_sql_ok [simp]: "ca_faults c = [] \<Longrightarrow> query_sql f c = (Some (f (ca_rows c)), c)"
  by (simp add: query_sql_def)

lemma exec_sql_ok [simp]: "ca_faults c = [] \<Longrightarrow> exec_sql f c = (None, c\<lparr>ca_rows := f (ca_rows c)\<rparr>)"
  by (simp add: exec_sql_def)

text \<open>A statement that fails leaves the table alone.\<close>

lemma exec_sql_error: "exec_sql f c = (Some e, c') \<Longrightarrow> ca_rows c' = ca_rows c"
  by (auto simp: exec_sql_def run_sql_def split: list.splits bool.splits)

section \<open>The table as a map\<close>

lemma sql_get_Cons: "sql_get s k (r # rs) = (if matches s k r then Some r else sql_get s k rs)"
  by (simp add: sql_get_def)

lemma sql_get_Nil [simp]: "sql_get s k [] = None"
  by (simp add: sql_get_def)

lemma sql_get_None: "sql_get s k rs = None \<longleftrightarrow> (\<forall>r \<in> set rs. \<not> matches s k r)"
  by (auto simp: sql_get_def find_None_iff)

lemma sql_get_Some: "sql_get s k rs = Some r \<Longrightarrow> r \<in> set rs \<and> matches s k r"
  by (auto simp: sql_get_def find_Some_iff)

lemma sql_get_append: "sql_get s k (rs @ qs) = (case sql_get s k rs of Some r \<Rightarrow> Some r | None \<Rightarrow> sql_get s k qs)"
  by (induction rs) (auto simp: sql_get_Cons sql_get_def split: option.splits)

type_synonym entry = "bytes option \<times> int \<times> int \<times> int"

definition row_entry :: "row \<Rightarrow> entry" where
  "row_entry r = (r_value r, r_expires r, r_accessed r, r_size r)"

definition table_lookup :: "row list \<Rightarrow> string \<times> string \<Rightarrow> entry option" where
  "table_lookup rs sk = map_option row_entry (sql_get (fst sk) (snd sk) rs)"

lemma sql_get_update:
  assumes "\<And>r. matches s k (g r) = matches s k r"
  shows "sql_get s k (map g rs) = map_option g (sql_get s k rs)"
  using assms by (induction rs) (auto simp: sql_get_Cons sql_get_def)

lemma matches_same: "matches s k r \<Longrightarrow> matches s' k' r \<longleftrightarrow> s' = s \<and> k' = k"
  by (auto simp: matches_def)

lemma lookup_put:
  "table_lookup (sql_put s k v ex ac sz rs) sk = (if sk = (s, k) then Some (v, ex, ac, sz) else table_lookup rs sk)"
proof -
  obtain s' k' where sk: "sk = (s', k')" by (cases sk)
  let ?g = "\<lambda>r. if matches s k r
    then r\<lparr>r_value := v, r_expires := ex, r_accessed := ac, r_size := sz\<rparr> else r"
  have g: "matches s' k' (?g r) = matches s' k' r" for r by (simp add: matches_def)
  show ?thesis
  proof (cases "sql_get s k rs")
    case None
    then show ?thesis
      by (auto simp: sql_put_def sk table_lookup_def sql_get_append row_entry_def sql_get_Cons
          matches_def sql_get_Nil split: option.splits)
  next
    case (Some r0)
    have "table_lookup (sql_put s k v ex ac sz rs) sk = map_option row_entry (map_option ?g (sql_get s' k' rs))"
      using sql_get_update [of s' k' ?g rs] g Some by (simp add: sql_put_def sk table_lookup_def)
    also have "\<dots> = (if sk = (s, k) then Some (v, ex, ac, sz) else table_lookup rs sk)"
    proof (cases "sql_get s' k' rs")
      case None
      with Some show ?thesis by (auto simp: sk table_lookup_def)
    next
      case (Some r)
      have "matches s' k' r" using sql_get_Some [OF Some] by simp
      with Some show ?thesis by (auto simp: sk table_lookup_def row_entry_def matches_same)
    qed
    finally show ?thesis .
  qed
qed

lemma sql_get_filter:
  "(\<And>r. matches s k r \<Longrightarrow> P r = b) \<Longrightarrow>
     sql_get s k (filter P rs) = (if b then sql_get s k rs else None)"
  by (induction rs) (auto simp: sql_get_Cons sql_get_def)

lemma lookup_del:
  "table_lookup (sql_del s k rs) sk = (if sk = (s, k) then None else table_lookup rs sk)"
proof -
  obtain s' k' where sk: "sk = (s', k')" by (cases sk)
  have "sql_get s' k' (filter (\<lambda>r. \<not> matches s k r) rs) =
      (if \<not> (s' = s \<and> k' = k) then sql_get s' k' rs else None)"
    by (rule sql_get_filter) (auto simp: matches_def)
  then show ?thesis by (auto simp: sql_del_def sk table_lookup_def)
qed

lemma lookup_clear:
  "table_lookup (sql_clear s rs) sk = (if fst sk = s then None else table_lookup rs sk)"
proof -
  obtain s' k' where sk: "sk = (s', k')" by (cases sk)
  have "sql_get s' k' (filter (\<lambda>r. r_store r \<noteq> s) rs) = (if s' \<noteq> s then sql_get s' k' rs else None)"
    by (rule sql_get_filter) (auto simp: matches_def)
  then show ?thesis by (auto simp: sql_clear_def sk table_lookup_def)
qed

text \<open>Touching access times changes nothing else of an entry.\<close>

lemma lookup_update_access:
  "map_option (\<lambda>(v, ex, ac, sz). (v, ex, sz)) (table_lookup (sql_update_access at s k rs) sk) =
   map_option (\<lambda>(v, ex, ac, sz). (v, ex, sz)) (table_lookup rs sk)"
proof -
  obtain s' k' where sk: "sk = (s', k')" by (cases sk)
  have "sql_get s' k' (map (\<lambda>r. if matches s k r then r\<lparr>r_accessed := at\<rparr> else r) rs) =
      map_option (\<lambda>r. if matches s k r then r\<lparr>r_accessed := at\<rparr> else r) (sql_get s' k' rs)"
    by (rule sql_get_update) (simp add: matches_def)
  then show ?thesis
    by (cases "sql_get s' k' rs") (auto simp: sql_update_access_def table_lookup_def sk row_entry_def)
qed

section \<open>The contract of a partitioned key-value store\<close>

datatype ('k, 'v, 'p) store_op = OpPut 'k 'v | OpDelete 'k | OpClear 'p

text \<open>What such an operation means on a map, for a partition \<open>part\<close> of the keys.\<close>

fun map_op :: "('k \<Rightarrow> 'p) \<Rightarrow> ('k, 'v, 'p) store_op \<Rightarrow> ('k \<Rightarrow> 'v option) \<Rightarrow> ('k \<Rightarrow> 'v option)" where
  "map_op part (OpPut k v) m = m(k \<mapsto> v)"
| "map_op part (OpDelete k) m = m(k := None)"
| "map_op part (OpClear p) m = (\<lambda>k. if part k = p then None else m k)"

locale partitioned_store =
  fixes lookup :: "'db \<Rightarrow> 'k \<Rightarrow> 'v option"
    and store :: "'k \<Rightarrow> 'v \<Rightarrow> 'db \<Rightarrow> 'db"
    and erase :: "'k \<Rightarrow> 'db \<Rightarrow> 'db"
    and clear :: "'p \<Rightarrow> 'db \<Rightarrow> 'db"
    and part :: "'k \<Rightarrow> 'p"
  assumes lookup_store: "lookup (store k v d) k' = (if k' = k then Some v else lookup d k')"
    and lookup_erase: "lookup (erase k d) k' = (if k' = k then None else lookup d k')"
    and lookup_clear: "lookup (clear p d) k' = (if part k' = p then None else lookup d k')"
begin

fun apply_op :: "('k, 'v, 'p) store_op \<Rightarrow> 'db \<Rightarrow> 'db" where
  "apply_op (OpPut k v) d = store k v d"
| "apply_op (OpDelete k) d = erase k d"
| "apply_op (OpClear p) d = clear p d"

lemma apply_op_map: "lookup (apply_op x d) = map_op part x (lookup d)"
  by (cases x) (auto simp: lookup_store lookup_erase lookup_clear)

lemma apply_ops_map: "lookup (fold apply_op xs d) = fold (map_op part) xs (lookup d)"
  by (induction xs arbitrary: d) (simp_all add: apply_op_map)

end

text \<open>The table is one: an entry is the value with its expiry, access time and size.\<close>

interpretation table: partitioned_store table_lookup
  "\<lambda>sk (v, ex, ac, sz) rs. sql_put (fst sk) (snd sk) v ex ac sz rs"
  "\<lambda>sk rs. sql_del (fst sk) (snd sk) rs" sql_clear fst
  by unfold_locales (auto simp: lookup_put lookup_del lookup_clear split: if_splits)

end
