(* ===== verification/CacheProps.thy ===== *)
theory CacheProps
  imports Cache
begin

text \<open>
  What the cache guarantees: it is a map with expiry under every sequence of its
  operations, eviction brings every store within its limits by removing its oldest entries
  and nothing else, and how \<open>Get\<close> and \<open>Contains\<close> compare.
\<close>

section \<open>Sequences of operations\<close>

text \<open>An operation of the service: a put comes with its times, value, TTL and cost.\<close>

type_synonym put_args = "int \<times> int \<times> bytes option \<times> int \<times> int"

fun cache_op :: "(string \<times> string, put_args, string) store_op \<Rightarrow> cache \<Rightarrow> cache" where
  "cache_op (OpPut (s, k) (t1, t2, v, ttl, cost)) c = snd (Put t1 t2 s k v ttl cost c)"
| "cache_op (OpDelete (s, k)) c = snd (Delete s k c)"
| "cache_op (OpClear s) c = snd (Clear s c)"

text \<open>What it writes.\<close>

fun entry_op :: "(string \<times> string, put_args, string) store_op \<Rightarrow> (string \<times> string, entry, string) store_op" where
  "entry_op (OpPut sk (t1, t2, v, ttl, cost)) =
     OpPut sk (v, if ttl > 0 then wrap64 (unix t1 + ttl) else 0, t2, if cost > 0 then cost else blob_length v)"
| "entry_op (OpDelete sk) = OpDelete sk"
| "entry_op (OpClear s) = OpClear s"

lemma cache_op_effect:
  assumes "ca_faults c = []" and "\<not> ca_closed c"
  shows "cache_op x c = c\<lparr>ca_rows := table.apply_op (entry_op x) (ca_rows c)\<rparr>"
  using assms
  by (cases "(x, c)" rule: cache_op.cases) (simp_all add: Put_def Delete_def Clear_def Let_def)

lemma cache_ops_effect:
  assumes "ca_faults c = []" and "\<not> ca_closed c"
  shows "fold cache_op xs c = c\<lparr>ca_rows := fold table.apply_op (map entry_op xs) (ca_rows c)\<rparr>"
  using assms
proof (induction xs arbitrary: c)
  case Nil
  then show ?case by simp
next
  case (Cons x xs)
  from Cons.IH [of "cache_op x c"] Cons.prems show ?case by (simp add: cache_op_effect)
qed

lemma Get_lookup:
  assumes "ca_faults c = []" and "\<not> ca_closed c"
  shows "fst (Get t1 t2 s k c) = Inr (case table_lookup (ca_rows c) (s, k) of None \<Rightarrow> None
     | Some (v, ex, ac, sz) \<Rightarrow> if ex > 0 \<and> ex < unix t1 then None else v)"
  using assms by (simp add: Get_def table_lookup_def row_entry_def split: option.splits)

text \<open>
  C7. The cache is a map with expiry: after any sequence of puts, deletes and clears, \<open>Get\<close>
  returns what the map of the entries holds under the key, unless its expiry has passed. So
  a put is seen by the next get of its key and by no other, deletes and clears remove their
  keys only, and the stores are independent.
\<close>

theorem cache_refines_map:
  assumes "ca_faults c = []" and "\<not> ca_closed c"
  shows "fst (Get t1 t2 s k (fold cache_op xs c)) =
    Inr (case fold (map_op fst) (map entry_op xs) (table_lookup (ca_rows c)) (s, k) of None \<Rightarrow> None
      | Some (v, ex, ac, sz) \<Rightarrow> if ex > 0 \<and> ex < unix t1 then None else v)"
proof -
  have "fst (Get t1 t2 s k (fold cache_op xs c)) =
      Inr (case table_lookup (fold table.apply_op (map entry_op xs) (ca_rows c)) (s, k) of None \<Rightarrow> None
        | Some (v, ex, ac, sz) \<Rightarrow> if ex > 0 \<and> ex < unix t1 then None else v)"
    using assms by (simp add: cache_ops_effect [OF assms] Get_lookup)
  then show ?thesis by (simp only: table.apply_ops_map)
qed

theorem cache_refines_map_witness:
  "fst (Get 5000000000 5000000000 ''s'' ''k'' (fold cache_op
     [OpPut (''s'', ''k'') (0, 0, Some [1], 10, 0), OpPut (''s'', ''k'') (0, 1, Some [2], 0, 0),
      OpPut (''t'', ''k'') (0, 2, Some [3], 0, 0), OpClear ''t''] (NewCacheService []))) = Inr (Some [2]) \<and>
   fst (Get 12000000000 12000000000 ''s'' ''k'' (fold cache_op
     [OpPut (''s'', ''k'') (0, 0, Some [1], 10, 0)] (NewCacheService []))) = Inr None"
proof -
  have c: "ca_faults (NewCacheService []) = []" "\<not> ca_closed (NewCacheService [])"
    by (simp_all add: NewCacheService_def)
  show ?thesis
    unfolding cache_refines_map [OF c] by (simp add: unix_def wrap64_def)
qed

section \<open>Eviction\<close>

text \<open>
  What an eviction in a store may do to the table: it keeps a part of the rows, all those of
  the other stores among them, and what it removes is no younger than what it keeps.
\<close>

definition evicts_oldest :: "string \<Rightarrow> row list \<Rightarrow> row list \<Rightarrow> bool" where
  "evicts_oldest s rs rs' \<longleftrightarrow>
     (\<exists>P. rs' = filter P rs \<and> (\<forall>r \<in> set rs. r_store r \<noteq> s \<longrightarrow> P r)) \<and>
     (\<forall>e \<in> set rs - set rs'. \<forall>r \<in> set rs'. r_store r = s \<longrightarrow> r_accessed e \<le> r_accessed r)"

lemma evicts_oldest_refl [simp]: "evicts_oldest s rs rs"
proof -
  have "rs = filter (\<lambda>_. True) rs" by simp
  then show ?thesis unfolding evicts_oldest_def by blast
qed

lemma evicts_oldest_trans:
  assumes "evicts_oldest s rs rs1" and "evicts_oldest s rs1 rs2"
  shows "evicts_oldest s rs rs2"
proof -
  obtain P where P: "rs1 = filter P rs" "\<forall>r \<in> set rs. r_store r \<noteq> s \<longrightarrow> P r"
    using assms(1) by (auto simp: evicts_oldest_def)
  obtain Q where Q: "rs2 = filter Q rs1" "\<forall>r \<in> set rs1. r_store r \<noteq> s \<longrightarrow> Q r"
    using assms(2) by (auto simp: evicts_oldest_def)
  have "rs2 = filter (\<lambda>r. P r \<and> Q r) rs" by (simp add: P Q conj_commute)
  moreover have "\<forall>r \<in> set rs. r_store r \<noteq> s \<longrightarrow> P r \<and> Q r" using P Q(2) by auto
  moreover have "r_accessed e \<le> r_accessed r"
    if "e \<in> set rs - set rs2" "r \<in> set rs2" "r_store r = s" for e r
  proof (cases "e \<in> set rs1")
    case True
    with assms(2) that show ?thesis by (simp add: evicts_oldest_def)
  next
    case False
    moreover have "r \<in> set rs1" using that(2) Q(1) by simp
    ultimately show ?thesis using assms(1) that by (simp add: evicts_oldest_def)
  qed
  ultimately show ?thesis unfolding evicts_oldest_def by blast
qed

lemma rows_inv_filter: "rows_inv rs \<Longrightarrow> rows_inv (filter P rs)"
  by (auto simp: rows_inv_def distinct_map_filter)

lemma evicts_oldest_inv: "evicts_oldest s rs rs' \<Longrightarrow> rows_inv rs \<Longrightarrow> rows_inv rs'"
  by (auto simp: evicts_oldest_def rows_inv_filter)

text \<open>Removing the first rows of the order by their identifiers.\<close>

lemma delete_oldest:
  assumes ord: "lru_order ord" and inv: "rows_inv rs"
    and P: "P = take n (ord (of_store s rs))" and D: "D = drop n (ord (of_store s rs))"
    and rs': "rs' = filter (\<lambda>r. r_id r \<notin> set (map r_id P)) rs"
  shows "evicts_oldest s rs rs'" and "mset (of_store s rs') = mset D"
    and "mset (of_store s rs) = mset P + mset D"
proof -
  have PD: "P @ D = ord (of_store s rs)" by (simp add: P D)
  have m: "mset (P @ D) = mset (of_store s rs)" using ord by (simp add: PD lru_order_def)
  then show "mset (of_store s rs) = mset P + mset D" by simp
  have S: "set P \<union> set D = set (of_store s rs)" using mset_eq_setD [OF m] by simp
  have "distinct (map r_id (of_store s rs))"
    using inv by (simp add: rows_inv_def of_store_def distinct_map_filter)
  moreover have "mset (map r_id (P @ D)) = mset (map r_id (of_store s rs))" using m by (metis mset_map)
  ultimately have dist: "distinct (map r_id (P @ D))" by (metis mset_eq_imp_distinct_iff)
  have inj: "r = e" if "r \<in> set rs" "e \<in> set rs" "r_id r = r_id e" for r e
    using inv that by (auto simp: rows_inv_def distinct_map dest: inj_onD)
  have sub: "set P \<subseteq> set (of_store s rs)" "set D \<subseteq> set (of_store s rs)" using S by auto
  have inP: "r_id r \<in> set (map r_id P) \<longleftrightarrow> r \<in> set P" if "r \<in> set rs" for r
    using inj that sub(1) by (auto simp: of_store_def)
  have eq: "rs' = filter (\<lambda>r. r \<notin> set P) rs" unfolding rs' using inP by (auto intro: filter_cong)
  have of: "of_store s rs' = filter (\<lambda>r. r \<notin> set P) (of_store s rs)"
    by (simp add: eq of_store_def conj_commute)
  have disj: "set P \<inter> set D = {}" using dist by auto
  have "mset (of_store s rs') = filter_mset (\<lambda>r. r \<notin> set P) (mset (P @ D))"
    unfolding m of by (rule mset_filter)
  also have "\<dots> = mset (filter (\<lambda>r. r \<notin> set P) P) + mset (filter (\<lambda>r. r \<notin> set P) D)"
    by (simp add: mset_filter)
  also have "filter (\<lambda>r. r \<notin> set P) P = []" by simp
  also have "filter (\<lambda>r. r \<notin> set P) D = D" using disj by (auto intro: filter_True)
  finally show keep: "mset (of_store s rs') = mset D" by simp
  have "sorted (map r_accessed (P @ D))" using ord by (simp add: PD lru_order_def)
  then have le: "r_accessed e \<le> r_accessed r" if "e \<in> set P" "r \<in> set D" for e r
    using that by (auto simp: sorted_append)
  have "r_accessed e \<le> r_accessed r"
    if "e \<in> set rs - set rs'" "r \<in> set rs'" "r_store r = s" for e r
  proof -
    have "e \<in> set P" using that(1) by (auto simp: eq)
    moreover have "r \<in> set (of_store s rs')" using that by (simp add: of_store_def)
    then have "r \<in> set D" using mset_eq_setD [OF keep] by simp
    ultimately show ?thesis by (rule le)
  qed
  moreover have "r \<notin> set P" if "r \<in> set rs" "r_store r \<noteq> s" for r
    using sub(1) that by (auto simp: of_store_def)
  ultimately show "evicts_oldest s rs rs'" unfolding evicts_oldest_def eq by blast
qed

lemma evict_entries_effect:
  assumes "lru_order ord" and "rows_inv (ca_rows c)" and "ca_faults c = []" and "0 < m"
  shows "\<exists>rs'. evict_entries ord (s, m) c = c\<lparr>ca_rows := rs'\<rparr> \<and> evicts_oldest s (ca_rows c) rs' \<and>
    sql_count s rs' = min m (sql_count s (ca_rows c))"
proof (cases "sql_count s (ca_rows c) \<le> m")
  case True
  with assms show ?thesis by (intro exI [of _ "ca_rows c"]) (simp add: evict_entries_def)
next
  case False
  let ?rs = "ca_rows c" and ?n = "nat (sql_count s (ca_rows c) - m)"
  let ?P = "take ?n (ord (of_store s ?rs))" and ?D = "drop ?n (ord (of_store s ?rs))"
  let ?rs' = "filter (\<lambda>r. r_id r \<notin> set (map r_id ?P)) ?rs"
  note del = delete_oldest [where n = ?n and s = s, OF assms(1,2) refl refl refl]
  have len: "length (ord (of_store s ?rs)) = length (of_store s ?rs)"
    using assms(1) by (metis lru_order_def size_mset)
  have ids: "r_store r = s" if r: "r \<in> set ?rs" "r_id r \<in> set (map r_id ?P)" for r
  proof -
    obtain e where e: "e \<in> set ?P" "r_id e = r_id r" using r(2) by auto
    have "e \<in># mset (of_store s ?rs)" using e(1) del(3) by simp
    then have "e \<in> set ?rs" "r_store e = s" by (auto simp: of_store_def)
    moreover have "r = e" using assms(2) r(1) e(2) calculation(1)
      by (auto simp: rows_inv_def distinct_map dest: inj_onD)
    ultimately show ?thesis by simp
  qed
  have "sql_evict_count ord s (sql_count s ?rs - m) ?rs = ?rs'"
    unfolding sql_evict_count_def using ids False by (auto intro!: filter_cong)
  then have "evict_entries ord (s, m) c = c\<lparr>ca_rows := ?rs'\<rparr>"
    using assms(3,4) False by (simp add: evict_entries_def)
  moreover have "size (mset (of_store s ?rs')) = size (mset ?D)" by (simp only: del(2))
  then have "sql_count s ?rs' = m" using False assms(4) len by (simp add: sql_count_def)
  ultimately show ?thesis using del(1) False by (intro exI [of _ ?rs']) simp
qed


definition store_size :: "string \<Rightarrow> row list \<Rightarrow> int" where
  "store_size s rs = sum_list (map r_size (of_store s rs))"

lemma store_size_nonneg: "rows_inv rs \<Longrightarrow> 0 \<le> store_size s rs"
  unfolding store_size_def by (rule sum_list_nonneg) (auto simp: rows_inv_def of_store_def)

lemma sizes_mset: "sum_list (map r_size rs) = (\<Sum>r \<in># mset rs. r_size r)"
  by (induction rs) auto

lemma evict_bytes_loop_effect:
  assumes "lru_order ord" and "0 < m"
  shows "rows_inv (ca_rows c) \<Longrightarrow> ca_faults c = [] \<Longrightarrow> tot = store_size s (ca_rows c) \<Longrightarrow>
    tot < 2 ^ 63 \<Longrightarrow> length (of_store s (ca_rows c)) < n \<Longrightarrow>
    \<exists>rs'. evict_bytes_loop n ord s m tot c = c\<lparr>ca_rows := rs'\<rparr> \<and> evicts_oldest s (ca_rows c) rs' \<and>
      store_size s rs' \<le> m \<and>
      (m < tot \<longrightarrow> length (of_store s (ca_rows c)) \<le> 50 \<longrightarrow> of_store s rs' = [])"
proof (induction n arbitrary: c tot)
  case 0
  then show ?case by simp
next
  case (Suc n)
  let ?rs = "ca_rows c" and ?S = "of_store s (ca_rows c)"
  let ?P = "take 50 (ord ?S)" and ?D = "drop 50 (ord ?S)"
  let ?rs' = "filter (\<lambda>r. r_id r \<notin> set (map r_id ?P)) ?rs"
  show ?case
  proof (cases "m < tot")
    case False
    with Suc.prems show ?thesis by (intro exI [of _ ?rs]) simp
  next
    case True
    note del = delete_oldest [where n = 50 and s = s, OF assms(1) Suc.prems(1) refl refl refl]
    have "?S \<noteq> []" using True Suc.prems(3) assms(2) by (auto simp: store_size_def)
    moreover have len: "length (ord ?S) = length ?S" using assms(1) by (metis lru_order_def size_mset)
    ultimately have P: "?P \<noteq> []" by auto
    have split: "tot = sum_list (map r_size ?P) + store_size s ?rs'"
      by (simp only: Suc.prems(3) store_size_def sizes_mset del(2,3) image_mset_union sum_mset.union)
    have inv': "rows_inv ?rs'" by (rule rows_inv_filter [OF Suc.prems(1)])
    have "0 \<le> r_size r" if "r \<in> set ?P" for r
    proof -
      have "r \<in># mset ?S" using that del(3) by simp
      then show ?thesis using Suc.prems(1) by (simp add: rows_inv_def of_store_def)
    qed
    then have "0 \<le> sum_list (map r_size ?P)" by (intro sum_list_nonneg) auto
    then have wrap: "wrap64 (tot - wrap64 (sum_list (map r_size ?P))) = store_size s ?rs'"
      using split Suc.prems(4) store_size_nonneg [OF inv', of s] by simp
    have "length (of_store s ?rs') = length ?D" using del(2) by (metis size_mset)
    then have small: "length (of_store s ?rs') < n" using P Suc.prems(5) len by (cases "ord ?S") auto
    let ?c = "c\<lparr>ca_rows := ?rs'\<rparr>"
    have "store_size s ?rs' < 2 ^ 63" using split \<open>0 \<le> sum_list (map r_size ?P)\<close> Suc.prems(4) by linarith
    from Suc.IH [of ?c "store_size s ?rs'"] inv' Suc.prems(2) this small obtain rs'' where
      rs'': "evict_bytes_loop n ord s m (store_size s ?rs') ?c = ?c\<lparr>ca_rows := rs''\<rparr>"
        "evicts_oldest s ?rs' rs''" "store_size s rs'' \<le> m" by auto
    have "evict_bytes_loop (Suc n) ord s m tot c = c\<lparr>ca_rows := rs''\<rparr>"
      using True P Suc.prems(2) rs''(1) wrap by (simp add: sql_oldest_def sql_delete_ids_def)
    moreover have "of_store s rs'' = []" if "length ?S \<le> 50"
    proof -
      have "mset (of_store s ?rs') = {#}" using that len del(2) by simp
      then have "of_store s ?rs' = []" by simp
      with rs''(2) show ?thesis by (auto simp: evicts_oldest_def of_store_def filter_empty_conv)
    qed
    ultimately show ?thesis using evicts_oldest_trans [OF del(1) rs''(2)] rs''(3) by blast
  qed
qed

lemma evict_bytes_effect:
  assumes "lru_order ord" and "0 < m" and "rows_inv (ca_rows c)" and "ca_faults c = []"
    and "store_size s (ca_rows c) < 2 ^ 63"
  shows "\<exists>rs'. evict_bytes ord (s, m) c = c\<lparr>ca_rows := rs'\<rparr> \<and> evicts_oldest s (ca_rows c) rs' \<and>
      store_size s rs' \<le> m \<and>
      (m < store_size s (ca_rows c) \<longrightarrow> length (of_store s (ca_rows c)) \<le> 50 \<longrightarrow> of_store s rs' = [])"
proof (cases "store_size s (ca_rows c) \<le> m")
  case True
  with assms show ?thesis
    by (intro exI [of _ "ca_rows c"])
       (simp add: evict_bytes_def sql_sum_size_def Let_def store_size_def)
next
  case False
  have "length (of_store s (ca_rows c)) < Suc (length (ca_rows c))" by (simp add: of_store_def less_Suc_eq_le)
  from evict_bytes_loop_effect [OF assms(1,2,3,4) refl assms(5) this] False assms(2,4,5) show ?thesis
    by (simp add: evict_bytes_def sql_sum_size_def Let_def store_size_def [symmetric])
qed

text \<open>Eviction in several stores, one after another.\<close>

definition lru_cut :: "row list \<Rightarrow> row list \<Rightarrow> bool" where
  "lru_cut rs rs' \<longleftrightarrow> (\<exists>P. rs' = filter P rs) \<and>
     (\<forall>e \<in> set rs - set rs'. \<forall>r \<in> set rs'. r_store r = r_store e \<longrightarrow> r_accessed e \<le> r_accessed r)"

lemma evicts_oldest_cut: "evicts_oldest s rs rs' \<Longrightarrow> lru_cut rs rs'"
  unfolding evicts_oldest_def lru_cut_def by fastforce

lemma lru_cut_refl [simp]: "lru_cut rs rs"
  by (rule evicts_oldest_cut [OF evicts_oldest_refl])

lemma lru_cut_trans:
  assumes "lru_cut rs rs1" and "lru_cut rs1 rs2"
  shows "lru_cut rs rs2"
proof -
  obtain P Q where P: "rs1 = filter P rs" and Q: "rs2 = filter Q rs1"
    using assms by (auto simp: lru_cut_def)
  have "rs2 = filter (\<lambda>r. P r \<and> Q r) rs" by (simp add: P Q conj_commute)
  moreover have "r_accessed e \<le> r_accessed r"
    if "e \<in> set rs - set rs2" "r \<in> set rs2" "r_store r = r_store e" for e r
  proof (cases "e \<in> set rs1")
    case True
    with assms(2) that show ?thesis by (simp add: lru_cut_def)
  next
    case False
    moreover have "r \<in> set rs1" using that(2) Q by simp
    ultimately show ?thesis using assms(1) that by (simp add: lru_cut_def)
  qed
  ultimately show ?thesis unfolding lru_cut_def by blast
qed

lemma lru_cut_inv: "lru_cut rs rs' \<Longrightarrow> rows_inv rs \<Longrightarrow> rows_inv rs'"
  by (auto simp: lru_cut_def rows_inv_filter)

lemma lru_cut_count: "lru_cut rs rs' \<Longrightarrow> sql_count s rs' \<le> sql_count s rs"
  by (auto simp: lru_cut_def sql_count_def of_store_def)
     (metis (no_types, lifting) filter_filter length_filter_le filter_cong conj_commute)

lemma sum_filter_le:
  fixes xs :: "row list"
  shows "(\<forall>r \<in> set xs. 0 \<le> r_size r) \<Longrightarrow> sum_list (map r_size (filter P xs)) \<le> sum_list (map r_size xs)"
  by (induction xs) auto

lemma lru_cut_size:
  assumes "lru_cut rs rs'" and "rows_inv rs"
  shows "store_size s rs' \<le> store_size s rs"
proof -
  obtain P where P: "rs' = filter P rs" using assms(1) by (auto simp: lru_cut_def)
  have "of_store s rs' = filter P (of_store s rs)" by (simp add: P of_store_def conj_commute)
  then show ?thesis
    using sum_filter_le [of "of_store s rs" P] assms(2) by (auto simp: store_size_def rows_inv_def of_store_def)
qed


text \<open>A pass over the limits of several stores, with an eviction that does what it should.\<close>

lemma evict_pass:
  assumes step: "\<And>s m c. rows_inv (ca_rows c) \<Longrightarrow> ca_faults c = [] \<Longrightarrow>
      (\<forall>s. store_size s (ca_rows c) < 2 ^ 63) \<Longrightarrow> 0 < m \<Longrightarrow>
      \<exists>rs'. ev (s, m) c = c\<lparr>ca_rows := rs'\<rparr> \<and> evicts_oldest s (ca_rows c) rs' \<and> f s rs' \<le> m"
    and skip: "\<And>s m c. m \<le> 0 \<Longrightarrow> ev (s, m) c = c"
    and mono: "\<And>s rs rs'. lru_cut rs rs' \<Longrightarrow> rows_inv rs \<Longrightarrow> f s rs' \<le> (f s rs :: int)"
  shows "rows_inv (ca_rows c) \<Longrightarrow> ca_faults c = [] \<Longrightarrow> \<forall>s. store_size s (ca_rows c) < 2 ^ 63 \<Longrightarrow>
    \<exists>rs'. fold ev lims c = c\<lparr>ca_rows := rs'\<rparr> \<and> lru_cut (ca_rows c) rs' \<and>
      (\<forall>(s, m) \<in> set lims. 0 < m \<longrightarrow> f s rs' \<le> m) \<and>
      (\<forall>s. s \<notin> fst ` set lims \<longrightarrow> of_store s rs' = of_store s (ca_rows c))"
proof (induction lims arbitrary: c)
  case Nil
  then show ?case by (intro exI [of _ "ca_rows c"]) simp
next
  case (Cons lim lims)
  obtain s m where lim: "lim = (s, m)" by (cases lim)
  obtain rs1 where rs1: "ev (s, m) c = c\<lparr>ca_rows := rs1\<rparr>" "evicts_oldest s (ca_rows c) rs1"
    "0 < m \<Longrightarrow> f s rs1 \<le> m"
  proof (cases "0 < m")
    case True
    then show ?thesis using step [OF Cons.prems True] that by blast
  next
    case False
    then show ?thesis using skip [of m s c] that [of "ca_rows c"] by simp
  qed
  have cut: "lru_cut (ca_rows c) rs1" by (rule evicts_oldest_cut [OF rs1(2)])
  have inv1: "rows_inv rs1" by (rule lru_cut_inv [OF cut Cons.prems(1)])
  have "\<forall>s. store_size s rs1 < 2 ^ 63"
    using lru_cut_size [OF cut Cons.prems(1)] Cons.prems(3) by (meson order_le_less_trans)
  then obtain rs' where rs': "fold ev lims (c\<lparr>ca_rows := rs1\<rparr>) = c\<lparr>ca_rows := rs'\<rparr>" "lru_cut rs1 rs'"
    "\<forall>(s, m) \<in> set lims. 0 < m \<longrightarrow> f s rs' \<le> m"
    "\<forall>s. s \<notin> fst ` set lims \<longrightarrow> of_store s rs' = of_store s rs1"
    using Cons.IH [of "c\<lparr>ca_rows := rs1\<rparr>"] inv1 Cons.prems(2) by auto
  have "f s rs' \<le> m" if "0 < m" using mono [OF rs'(2) inv1, of s] rs1(3) [OF that] by simp
  moreover have "of_store t rs1 = of_store t (ca_rows c)" if "t \<noteq> s" for t
  proof -
    obtain P where "rs1 = filter P (ca_rows c)" "\<forall>r \<in> set (ca_rows c). r_store r \<noteq> s \<longrightarrow> P r"
      using rs1(2) by (auto simp: evicts_oldest_def)
    then show ?thesis using that by (auto simp: of_store_def intro!: filter_cong)
  qed
  ultimately show ?case
    using rs' rs1(1) lru_cut_trans [OF cut rs'(2)] by (intro exI [of _ rs']) (auto simp: lim)
qed

text \<open>
  C6. Eviction does what the limits ask and no more than they allow: after
  \<open>evictOverCapacity\<close> every store with a positive limit on entries is within it, every store
  with a positive limit on bytes is within it, a store without limits keeps all its rows,
  and in every store what was removed was not used more recently than what is kept. The
  inner loop ends: its fuel suffices.
\<close>

theorem evictOverCapacity_limits:
  assumes "lru_order ord" and "rows_inv (ca_rows c)" and "ca_faults c = []"
    and "\<forall>s. sum_list (map r_size (of_store s (ca_rows c))) < 2 ^ 63"
  shows "\<exists>rs'. evictOverCapacity ord c = c\<lparr>ca_rows := rs'\<rparr> \<and>
    (\<forall>(s, m) \<in> set (ca_max_entries c). 0 < m \<longrightarrow> sql_count s rs' \<le> m) \<and>
    (\<forall>(s, m) \<in> set (ca_max_bytes c). 0 < m \<longrightarrow> sum_list (map r_size (of_store s rs')) \<le> m) \<and>
    (\<forall>s. s \<notin> fst ` set (ca_max_entries c) \<and> s \<notin> fst ` set (ca_max_bytes c) \<longrightarrow>
       of_store s rs' = of_store s (ca_rows c)) \<and>
    (\<forall>e \<in> set (ca_rows c) - set rs'. \<forall>r \<in> set rs'. r_store r = r_store e \<longrightarrow> r_accessed e \<le> r_accessed r)"
proof -
  have size: "\<forall>s. store_size s (ca_rows c) < 2 ^ 63" using assms(4) by (simp add: store_size_def)
  have "\<exists>rs'. fold (evict_entries ord) (ca_max_entries c) c = c\<lparr>ca_rows := rs'\<rparr> \<and> lru_cut (ca_rows c) rs' \<and>
      (\<forall>(s, m) \<in> set (ca_max_entries c). 0 < m \<longrightarrow> sql_count s rs' \<le> m) \<and>
      (\<forall>s. s \<notin> fst ` set (ca_max_entries c) \<longrightarrow> of_store s rs' = of_store s (ca_rows c))"
  proof (rule evict_pass [OF _ _ _ assms(2,3) size])
    fix s and m :: int and c :: cache
    assume "rows_inv (ca_rows c)" "ca_faults c = []" "0 < m"
    from evict_entries_effect [OF assms(1) this, of s]
    show "\<exists>rs'. evict_entries ord (s, m) c = c\<lparr>ca_rows := rs'\<rparr> \<and> evicts_oldest s (ca_rows c) rs' \<and>
      sql_count s rs' \<le> m" by auto
  qed (simp_all add: evict_entries_def lru_cut_count)
  then obtain rs1 where rs1: "fold (evict_entries ord) (ca_max_entries c) c = c\<lparr>ca_rows := rs1\<rparr>"
    "lru_cut (ca_rows c) rs1" "\<forall>(s, m) \<in> set (ca_max_entries c). 0 < m \<longrightarrow> sql_count s rs1 \<le> m"
    "\<forall>s. s \<notin> fst ` set (ca_max_entries c) \<longrightarrow> of_store s rs1 = of_store s (ca_rows c)" by blast
  let ?c1 = "c\<lparr>ca_rows := rs1\<rparr>"
  have inv1: "rows_inv (ca_rows ?c1)" using lru_cut_inv [OF rs1(2) assms(2)] by simp
  have size1: "\<forall>s. store_size s (ca_rows ?c1) < 2 ^ 63"
    using lru_cut_size [OF rs1(2) assms(2)] size by (simp, meson order_le_less_trans)
  have f1: "ca_faults ?c1 = []" using assms(3) by simp
  have "\<exists>rs'. fold (evict_bytes ord) (ca_max_bytes c) ?c1 = ?c1\<lparr>ca_rows := rs'\<rparr> \<and> lru_cut (ca_rows ?c1) rs' \<and>
      (\<forall>(s, m) \<in> set (ca_max_bytes c). 0 < m \<longrightarrow> store_size s rs' \<le> m) \<and>
      (\<forall>s. s \<notin> fst ` set (ca_max_bytes c) \<longrightarrow> of_store s rs' = of_store s (ca_rows ?c1))"
  proof (rule evict_pass [OF _ _ _ inv1 f1 size1])
    fix s and m :: int and c :: cache
    assume "rows_inv (ca_rows c)" "ca_faults c = []" "\<forall>s. store_size s (ca_rows c) < 2 ^ 63" "0 < m"
    then show "\<exists>rs'. evict_bytes ord (s, m) c = c\<lparr>ca_rows := rs'\<rparr> \<and> evicts_oldest s (ca_rows c) rs' \<and>
      store_size s rs' \<le> m" using evict_bytes_effect [OF assms(1), of m c s] by blast
  qed (simp_all add: evict_bytes_def lru_cut_size)
  then obtain rs' where rs': "fold (evict_bytes ord) (ca_max_bytes c) ?c1 = c\<lparr>ca_rows := rs'\<rparr>"
    "lru_cut rs1 rs'" "\<forall>(s, m) \<in> set (ca_max_bytes c). 0 < m \<longrightarrow> store_size s rs' \<le> m"
    "\<forall>s. s \<notin> fst ` set (ca_max_bytes c) \<longrightarrow> of_store s rs' = of_store s rs1" by auto
  have "evictOverCapacity ord c = c\<lparr>ca_rows := rs'\<rparr>" by (simp add: evictOverCapacity_def rs1(1) rs'(1))
  moreover have "\<forall>(s, m) \<in> set (ca_max_entries c). 0 < m \<longrightarrow> sql_count s rs' \<le> m"
    using rs1(3) lru_cut_count [OF rs'(2)] by (fastforce intro: order_trans)
  moreover have "lru_cut (ca_rows c) rs'" by (rule lru_cut_trans [OF rs1(2) rs'(2)])
  ultimately show ?thesis
    using rs'(3,4) rs1(4) unfolding store_size_def lru_cut_def by (intro exI [of _ rs']) simp
qed


lemma lru_order_sort_key: "lru_order (sort_key r_accessed)"
  by (simp add: lru_order_def)

definition demo_row :: "nat \<Rightarrow> string \<Rightarrow> string \<Rightarrow> int \<Rightarrow> int \<Rightarrow> row" where
  "demo_row i s k ac sz = \<lparr>r_id = i, r_store = s, r_key = k, r_value = Some [1], r_expires = 0,
     r_accessed = ac, r_size = sz\<rparr>"

definition demo_cache :: cache where
  "demo_cache = SetMaxBytes ''s'' 100 (SetMaxEntries ''t'' 1 (NewCacheService
     [demo_row 1 ''s'' ''a'' 10 40, demo_row 2 ''s'' ''b'' 20 40, demo_row 3 ''s'' ''c'' 30 40,
      demo_row 4 ''t'' ''a'' 10 1, demo_row 5 ''t'' ''b'' 5 1, demo_row 6 ''u'' ''a'' 1 9]))"

lemma demo_cache_simps:
  "ca_rows demo_cache =
     [demo_row 1 ''s'' ''a'' 10 40, demo_row 2 ''s'' ''b'' 20 40, demo_row 3 ''s'' ''c'' 30 40,
      demo_row 4 ''t'' ''a'' 10 1, demo_row 5 ''t'' ''b'' 5 1, demo_row 6 ''u'' ''a'' 1 9]"
  "ca_faults demo_cache = []" "ca_max_entries demo_cache = [(''t'', 1)]"
  "ca_max_bytes demo_cache = [(''s'', 100)]" "\<not> ca_closed demo_cache"
  by (simp_all add: demo_cache_def SetMaxBytes_def SetMaxEntries_def NewCacheService_def)

lemma demo_row_simps [simp]:
  "r_id (demo_row i s k ac sz) = i" "r_store (demo_row i s k ac sz) = s" "r_key (demo_row i s k ac sz) = k"
  "r_value (demo_row i s k ac sz) = Some [1]" "r_expires (demo_row i s k ac sz) = 0"
  "r_accessed (demo_row i s k ac sz) = ac" "r_size (demo_row i s k ac sz) = sz"
  by (simp_all add: demo_row_def)

lemma demo_cache_inv: "rows_inv (ca_rows demo_cache)"
  by (simp add: rows_inv_def demo_cache_simps)

theorem evictOverCapacity_limits_witness:
  "\<exists>rs'. evictOverCapacity (sort_key r_accessed) demo_cache = demo_cache\<lparr>ca_rows := rs'\<rparr> \<and>
     sql_count ''t'' rs' \<le> 1 \<and> sum_list (map r_size (of_store ''s'' rs')) \<le> 100 \<and>
     of_store ''u'' rs' = [demo_row 6 ''u'' ''a'' 1 9]"
proof -
  have "\<forall>s. sum_list (map r_size (of_store s (ca_rows demo_cache))) < 2 ^ 63"
    by (simp add: demo_cache_simps of_store_def)
  from evictOverCapacity_limits [OF lru_order_sort_key demo_cache_inv demo_cache_simps(2) this]
  obtain rs' where rs': "evictOverCapacity (sort_key r_accessed) demo_cache = demo_cache\<lparr>ca_rows := rs'\<rparr>"
    "sql_count ''t'' rs' \<le> 1" "sum_list (map r_size (of_store ''s'' rs')) \<le> 100"
    "\<forall>s. s \<notin> {''t'', ''s''} \<longrightarrow> of_store s rs' = of_store s (ca_rows demo_cache)"
    by (auto simp: demo_cache_simps)
  then have "of_store ''u'' rs' = [demo_row 6 ''u'' ''a'' 1 9]"
    by (simp add: demo_cache_simps of_store_def)
  with rs' show ?thesis by blast
qed

text \<open>
  The byte limit is enforced by batches of 50 rows, not row by row: a store of at most
  50 rows that exceeds its limit, by however little, loses all its rows.
\<close>

theorem evict_bytes_empties_small_store:
  assumes "lru_order ord" and "rows_inv (ca_rows c)" and "ca_faults c = []" and "0 < m"
    and "m < sum_list (map r_size (of_store s (ca_rows c)))"
    and "sum_list (map r_size (of_store s (ca_rows c))) < 2 ^ 63"
    and "length (of_store s (ca_rows c)) \<le> 50"
  shows "of_store s (ca_rows (evict_bytes ord (s, m) c)) = []"
proof -
  have "store_size s (ca_rows c) < 2 ^ 63" using assms(6) by (simp add: store_size_def)
  from evict_bytes_effect [OF assms(1,4,2,3) this] assms(5,7) show ?thesis
    by (auto simp: store_size_def)
qed

theorem evict_bytes_empties_small_store_witness:
  "sum_list (map r_size (of_store ''s'' (ca_rows demo_cache))) = 120 \<and>
   of_store ''s'' (ca_rows (evict_bytes (sort_key r_accessed) (''s'', 100) demo_cache)) = []"
  using evict_bytes_empties_small_store [OF lru_order_sort_key demo_cache_inv demo_cache_simps(2), of 100 "''s''"]
  by (simp add: demo_cache_simps of_store_def)

text \<open>
  \<open>Get\<close>, \<open>Contains\<close> and \<open>Keys\<close> of an open cache, at the same time and for a row that is
  there: \<open>Keys\<close> lists the key exactly when \<open>Contains\<close> confirms it, that is when the row never
  expires or expires later; \<open>Get\<close> hides the value only when the expiry is past. So they
  disagree in the second of the expiry, and for an expiry that has wrapped to a negative
  number, where \<open>Get\<close> returns the value and the other two deny the entry.
\<close>

theorem Get_Contains_Keys:
  assumes "ca_faults c = []" and "\<not> ca_closed c" and "rows_inv (ca_rows c)"
    and "sql_get s k (ca_rows c) = Some r"
  shows "fst (Contains t s k c) = Inr (r_expires r = 0 \<or> unix t < r_expires r) \<and>
    (\<exists>ks. fst (Keys t s c) = Inr ks \<and> (k \<in> set ks \<longleftrightarrow> r_expires r = 0 \<or> unix t < r_expires r)) \<and>
    fst (Get t t' s k c) = Inr (if 0 < r_expires r \<and> r_expires r < unix t then None else r_value r) \<and>
    (0 \<le> unix t \<and> (r_expires r < 0 \<or> 0 < r_expires r \<and> r_expires r = unix t) \<longrightarrow>
       fst (Contains t s k c) = Inr False \<and> fst (Get t t' s k c) = Inr (r_value r))"
proof -
  let ?rs = "ca_rows c"
  have r: "r \<in> set ?rs" "matches s k r" using sql_get_Some [OF assms(4)] by auto
  have uniq: "q = r" if "q \<in> set ?rs" "matches s k q" for q
    using assms(3) r that by (auto simp: rows_inv_def distinct_map matches_def dest: inj_onD)
  have ex: "sql_contains s k now ?rs = unexpired now r" for now
    using r uniq unfolding sql_contains_def list_ex_iff by blast
  have keys: "k \<in> set (sql_keys s now ?rs) \<longleftrightarrow> unexpired now r" for now
  proof -
    have "k \<in> set (sql_keys s now ?rs) \<longleftrightarrow> (\<exists>q \<in> set ?rs. matches s k q \<and> unexpired now q)"
      by (auto simp: sql_keys_def of_store_def matches_def)
    then show ?thesis using r uniq by blast
  qed
  have con: "fst (Contains t s k c) = Inr (unexpired (unix t) r)"
    using assms(1,2) by (simp add: Contains_def ex)
  have ks: "fst (Keys t s c) = Inr (sql_keys s (unix t) ?rs)" using assms(1,2) by (simp add: Keys_def)
  have get: "fst (Get t t' s k c) = Inr (if 0 < r_expires r \<and> r_expires r < unix t then None else r_value r)"
    using assms(1,2,4) by (simp add: Get_def)
  show ?thesis using keys [of "unix t"] unfolding con ks get unexpired_def by auto
qed

theorem Get_Contains_Keys_witness:
  "fst (Contains 7000000000 ''s'' ''k'' (snd (Put 0 0 ''s'' ''k'' (Some [1]) 7 0 (NewCacheService [])))) = Inr False \<and>
   fst (Get 7000000000 7000000000 ''s'' ''k'' (snd (Put 0 0 ''s'' ''k'' (Some [1]) 7 0 (NewCacheService [])))) = Inr (Some [1])"
proof -
  let ?c = "snd (Put 0 0 ''s'' ''k'' (Some [1]) 7 0 (NewCacheService []))"
  let ?r = "\<lparr>r_id = 1, r_store = ''s'', r_key = ''k'', r_value = Some [1], r_expires = 7, r_accessed = 0, r_size = 1\<rparr>"
  have c: "ca_rows ?c = [?r]" "ca_faults ?c = []" "\<not> ca_closed ?c"
    by (simp_all add: Put_def NewCacheService_def Let_def sql_put_def fresh_id_def unix_def wrap64_def blob_length_def)
  have "rows_inv (ca_rows ?c)" by (simp add: c(1) rows_inv_def)
  moreover have "sql_get ''s'' ''k'' (ca_rows ?c) = Some ?r" by (simp add: c(1) sql_get_def matches_def)
  ultimately show ?thesis
    using Get_Contains_Keys [OF c(2,3), of "''s''" "''k''" ?r 7000000000 7000000000] by (simp add: unix_def)
qed

end
