(* ===== verification/CacheWorkers.thy ===== *)
theory CacheWorkers
  imports CacheProps
begin

text \<open>
  The background work of the cache service: the goroutine that batches access times
  (\<open>accessUpdateLoop\<close>), one turn of its select after another, and the delayed pause with its
  timer (\<open>Pause\<close>, \<open>Resume\<close>, \<open>Close\<close>), split at its lock regions. The select of the loop is
  resolved by the event it takes; its timer is on or off.
\<close>

section \<open>Batching the access times\<close>

record access_loop =
  al_timer :: bool
  al_pending :: "(string \<times> access_update) list"

definition access_start :: access_loop where
  "access_start = \<lparr>al_timer = False, al_pending = []\<rparr>"

datatype access_event = Update access_update | TimerFired

definition compositeKey :: "access_update \<Rightarrow> string" where
  "compositeKey u = au_store u @ ''|'' @ au_key u"

text \<open>One turn: the new state and the updates flushed to the database.\<close>

fun access_turn :: "access_event \<Rightarrow> access_loop \<Rightarrow> access_loop \<times> access_update list" where
  "access_turn (Update u) st =
     (let pending = AList.update (compositeKey u) u (al_pending st) in
      if 250 \<le> length pending
      then (\<lparr>al_timer = False, al_pending = []\<rparr>, map snd pending)
      else (\<lparr>al_timer = True, al_pending = pending\<rparr>, []))"
| "access_turn TimerFired st =
     (\<lparr>al_timer = False, al_pending = []\<rparr>, map snd (al_pending st))"

text \<open>The timer can fire only while it is on; the last flush is that of the shutdown.\<close>

fun access_run :: "access_event list \<Rightarrow> access_loop \<Rightarrow> (access_loop \<times> access_update list) option" where
  "access_run [] st = Some (st, [])"
| "access_run (e # es) st =
     (if e = TimerFired \<and> \<not> al_timer st then None
      else (let (st1, out) = access_turn e st in
            case access_run es st1 of None \<Rightarrow> None | Some (st2, out2) \<Rightarrow> Some (st2, out @ out2)))"

definition access_shutdown :: "access_loop \<Rightarrow> access_update list" where
  "access_shutdown st = map snd (al_pending st)"

definition access_inv :: "access_loop \<Rightarrow> bool" where
  "access_inv st \<longleftrightarrow> (al_timer st \<longleftrightarrow> al_pending st \<noteq> []) \<and> length (al_pending st) < 250 \<and>
     distinct (map fst (al_pending st)) \<and> (\<forall>(k, u) \<in> set (al_pending st). k = compositeKey u)"

lemma access_inv_start: "access_inv access_start"
  by (simp add: access_inv_def access_start_def)

lemma update_subset: "set (AList.update k v al) \<subseteq> insert (k, v) (set al)"
  by (induction al) auto

lemma update_nonempty [simp]: "AList.update k v al \<noteq> []"
  by (cases al) auto

lemma access_turn_inv: "access_inv st \<Longrightarrow> access_inv (fst (access_turn e st))"
  using update_subset by (cases e) (fastforce simp: access_inv_def Let_def distinct_update)+

lemma access_run_inv: "access_run es st = Some (st', out) \<Longrightarrow> access_inv st \<Longrightarrow> access_inv st'"
proof (induction es arbitrary: st out)
  case Nil
  then show ?case by simp
next
  case (Cons e es)
  then show ?case
    using access_turn_inv [of st e]
    by (auto split: if_splits prod.splits option.splits)
qed

lemma map_of_in_values: "map_of al k = Some u \<Longrightarrow> u \<in> set (map snd al)"
  by (force dest: map_of_SomeD)

text \<open>An update that is pending stays so or is flushed, until a newer one of its key comes.\<close>

lemma access_turn_keeps:
  assumes "map_of (al_pending st) (compositeKey u) = Some u"
    and "\<And>v. e = Update v \<Longrightarrow> compositeKey v \<noteq> compositeKey u"
  shows "u \<in> set (snd (access_turn e st)) \<or>
    map_of (al_pending (fst (access_turn e st))) (compositeKey u) = Some u"
proof (cases e)
  case (Update v)
  have "map_of (AList.update (compositeKey v) v (al_pending st)) (compositeKey u) = Some u"
    using assms Update by (simp add: update_conv')
  with Update show ?thesis by (auto simp: Let_def dest: map_of_in_values)
next
  case TimerFired
  with assms(1) show ?thesis by (auto dest: map_of_in_values)
qed

lemma access_run_keeps:
  "access_run es st = Some (st', out) \<Longrightarrow> map_of (al_pending st) (compositeKey u) = Some u \<Longrightarrow>
     \<forall>v. Update v \<in> set es \<longrightarrow> compositeKey v \<noteq> compositeKey u \<Longrightarrow>
     u \<in> set out \<union> set (access_shutdown st')"
proof (induction es arbitrary: st out)
  case Nil
  then show ?case using map_of_in_values by (fastforce simp: access_shutdown_def)
next
  case (Cons e es)
  obtain st1 out1 where t: "access_turn e st = (st1, out1)" by force
  obtain out2 where r: "access_run es st1 = Some (st', out2)" "out = out1 @ out2"
    using Cons.prems(1) t by (auto split: if_splits option.splits)
  have "u \<in> set out1 \<or> map_of (al_pending st1) (compositeKey u) = Some u"
    using access_turn_keeps [of st u e] Cons.prems(2,3) t by auto
  then show ?case
    using Cons.IH [OF r(1)] Cons.prems(3) r(2) by auto
qed

lemma access_run_append:
  "access_run (es @ fs) st = (case access_run es st of None \<Rightarrow> None
     | Some (st1, out1) \<Rightarrow> (case access_run fs st1 of None \<Rightarrow> None
          | Some (st2, out2) \<Rightarrow> Some (st2, out1 @ out2)))"
  by (induction es arbitrary: st) (auto split: option.splits prod.splits)

section \<open>The delayed pause\<close>

text \<open>
  \<open>pa_timer\<close> is the field \<open>pauseTimer\<close> being set, \<open>pa_armed\<close> the runtime's timer running;
  \<open>pa_fired\<close> and \<open>pa_pausing\<close> count the callbacks before their lock region and before their
  \<open>paused.Swap\<close>, \<open>pa_resuming\<close> the calls of \<open>Resume\<close> before theirs.
\<close>

record pause_state =
  pa_paused :: bool
  pa_timer :: bool
  pa_armed :: bool
  pa_fired :: nat
  pa_pausing :: nat
  pa_resuming :: nat

definition pause_init :: pause_state where
  "pause_init = \<lparr>pa_paused = False, pa_timer = False, pa_armed = False, pa_fired = 0,
     pa_pausing = 0, pa_resuming = 0\<rparr>"

definition Pause :: "pause_state \<Rightarrow> pause_state" where
  "Pause p = (if pa_paused p \<or> pa_timer p then p else p\<lparr>pa_timer := True, pa_armed := True\<rparr>)"

definition pause_fires :: "pause_state \<Rightarrow> pause_state option" where
  "pause_fires p = (if pa_armed p then Some (p\<lparr>pa_armed := False, pa_fired := pa_fired p + 1\<rparr>) else None)"

definition pause_callback_lock :: "pause_state \<Rightarrow> pause_state option" where
  "pause_callback_lock p =
     (if 0 < pa_fired p
      then Some (p\<lparr>pa_timer := False, pa_fired := pa_fired p - 1, pa_pausing := pa_pausing p + 1\<rparr>) else None)"

definition pause_callback_swap :: "pause_state \<Rightarrow> pause_state option" where
  "pause_callback_swap p =
     (if 0 < pa_pausing p then Some (p\<lparr>pa_paused := True, pa_pausing := pa_pausing p - 1\<rparr>) else None)"

definition Resume_lock :: "pause_state \<Rightarrow> pause_state" where
  "Resume_lock p =
     (let p1 = (if pa_timer p then p\<lparr>pa_timer := False, pa_armed := False\<rparr> else p)
      in p1\<lparr>pa_resuming := pa_resuming p1 + 1\<rparr>)"

definition Resume_swap :: "pause_state \<Rightarrow> pause_state option" where
  "Resume_swap p =
     (if 0 < pa_resuming p then Some (p\<lparr>pa_paused := False, pa_resuming := pa_resuming p - 1\<rparr>) else None)"

datatype pause_event = CallPause | Fires | CallbackLock | CallbackSwap | CallResume | ResumeSwap

fun pause_step :: "pause_event \<Rightarrow> pause_state \<Rightarrow> pause_state option" where
  "pause_step CallPause p = Some (Pause p)"
| "pause_step Fires p = pause_fires p"
| "pause_step CallbackLock p = pause_callback_lock p"
| "pause_step CallbackSwap p = pause_callback_swap p"
| "pause_step CallResume p = Some (Resume_lock p)"
| "pause_step ResumeSwap p = Resume_swap p"

fun pause_run :: "pause_event list \<Rightarrow> pause_state \<Rightarrow> pause_state option" where
  "pause_run [] p = Some p"
| "pause_run (e # es) p = (case pause_step e p of None \<Rightarrow> None | Some p' \<Rightarrow> pause_run es p')"

text \<open>Nothing that could still change the state is under way.\<close>

definition pause_quiet :: "pause_state \<Rightarrow> bool" where
  "pause_quiet p \<longleftrightarrow> \<not> pa_armed p \<and> \<not> pa_timer p \<and> pa_fired p = 0 \<and> pa_pausing p = 0 \<and> pa_resuming p = 0"

section \<open>Shutting down\<close>

text \<open>
  \<open>Close\<close>, with the final flush of the access loop (\<open>st\<close> is its state): the first call stops
  the pause timer and the workers, later ones return at once.
\<close>

definition Cache_Close :: "access_loop \<Rightarrow> cache \<Rightarrow> pause_state \<Rightarrow> cache \<times> pause_state" where
  "Cache_Close st c p =
     (if ca_closed c then (c, p)
      else ((flushAccessUpdates (access_shutdown st) c)\<lparr>ca_closed := True\<rparr>,
            p\<lparr>pa_timer := False, pa_armed := pa_armed p \<and> \<not> pa_timer p\<rparr>))"

section \<open>Properties\<close>

text \<open>
  C17. The access loop keeps what it is told: after any events its timer runs exactly while
  updates are pending, so that they are flushed, and fewer than 250 are; and an update that
  is the last one received for its composite key has been flushed, or is flushed by the
  shutdown.
\<close>

theorem access_loop_keeps_latest:
  assumes "access_run (es @ Update u # fs) access_start = Some (st, out)"
    and "\<forall>v. Update v \<in> set fs \<longrightarrow> compositeKey v \<noteq> compositeKey u"
  shows "(al_timer st \<longleftrightarrow> al_pending st \<noteq> []) \<and> length (al_pending st) < 250 \<and>
    u \<in> set (out @ access_shutdown st)"
proof -
  have "access_inv st" by (rule access_run_inv [OF assms(1) access_inv_start])
  then have inv: "(al_timer st \<longleftrightarrow> al_pending st \<noteq> []) \<and> length (al_pending st) < 250"
    by (simp add: access_inv_def)
  obtain st1 out1 out2 where r: "access_run (Update u # fs) st1 = Some (st, out2)" "out = out1 @ out2"
    using assms(1) unfolding access_run_append by (auto split: option.splits)
  obtain st2 out3 where t: "access_turn (Update u) st1 = (st2, out3)" by force
  obtain out4 where r2: "access_run fs st2 = Some (st, out4)" "out2 = out3 @ out4"
    using r(1) t by (auto split: option.splits simp del: access_turn.simps)
  have "map_of (AList.update (compositeKey u) u (al_pending st1)) (compositeKey u) = Some u"
    by (simp add: update_conv')
  then have "u \<in> set out3 \<or> map_of (al_pending st2) (compositeKey u) = Some u"
    using t by (auto simp: Let_def split: if_splits dest: map_of_in_values)
  then have "u \<in> set (out @ access_shutdown st)"
    using access_run_keeps [OF r2(1) _ assms(2)] r(2) r2(2) by auto
  with inv show ?thesis by blast
qed

theorem access_loop_keeps_latest_witness:
  "\<exists>st out. access_run [Update \<lparr>au_store = ''s'', au_key = ''k'', au_at = 5\<rparr>, TimerFired] access_start = Some (st, out) \<and>
     \<not> al_timer st \<and> \<lparr>au_store = ''s'', au_key = ''k'', au_at = 5\<rparr> \<in> set (out @ access_shutdown st)"
proof -
  let ?u = "\<lparr>au_store = ''s'', au_key = ''k'', au_at = 5\<rparr>"
  have r: "access_run ([] @ Update ?u # [TimerFired]) access_start = Some (\<lparr>al_timer = False, al_pending = []\<rparr>, [?u])"
    by (simp add: access_start_def Let_def)
  show ?thesis using access_loop_keeps_latest [OF r] r by auto
qed

text \<open>
  The composite key does not separate the store from the key: an update of one entry can
  replace the pending update of another.
\<close>

lemma compositeKey_collision:
  "let u = \<lparr>au_store = ''a|b'', au_key = ''c'', au_at = 1\<rparr>; v = \<lparr>au_store = ''a'', au_key = ''b|c'', au_at = 2\<rparr>
   in compositeKey u = compositeKey v \<and>
      (case access_run [Update u, Update v] access_start of None \<Rightarrow> False
       | Some (st, out) \<Rightarrow> out @ access_shutdown st = [v])"
  by (simp add: compositeKey_def access_start_def access_shutdown_def Let_def)

text \<open>
  A resume cancels a pause whose timer has not gone off: it can no longer fire. But a
  resume that comes between the two parts of the timer's callback is overruled by it: the
  service ends up paused, with nothing under way, although \<open>Resume\<close> was the last call.
\<close>

theorem pause_resume:
  "(pa_armed p \<and> pa_timer p \<longrightarrow> pause_run [CallResume, Fires] p = None) \<and>
   (\<exists>q. pause_run [CallPause, Fires, CallbackLock, CallResume, ResumeSwap, CallbackSwap] pause_init = Some q \<and>
      pa_paused q \<and> pause_quiet q)"
  by (simp add: Resume_lock_def pause_fires_def Let_def pause_init_def Pause_def pause_callback_lock_def
      pause_callback_swap_def Resume_swap_def pause_quiet_def)

theorem pause_resume_witness:
  "pause_run [CallResume, Fires] (Pause pause_init) = None"
  using pause_resume [of "Pause pause_init"] by (simp add: Pause_def pause_init_def)

end
