(* ===== verification/CacheOpen.thy ===== *)
theory CacheOpen
  imports CacheWorkers
begin

text \<open>
  The database handles of the cache service (\<open>pkg/service/cache.go\<close>): what \<open>openDB\<close>,
  \<open>prepareStatements\<close>, \<open>NewCacheService\<close> and \<open>Close\<close> open and close. Whether SQLite opens the
  file, accepts the schema and compiles a statement are parameters; pragmas may fail
  without effect.
\<close>

datatype stmt_name =
  StGet | StPut | StDel | StClear | StContains | StCleanup | StUpdateAccess | StCount
  | StEvictCount | StSumSize | StOldestRows | StStats

datatype open_error = OpenDBFailed string | SchemaFailed string | PrepareFailed stmt_name

text \<open>The database if it is open, and the statements that are prepared and not closed.\<close>

record db_handles =
  dh_db :: "string option"
  dh_stmts :: "stmt_name list"

definition no_handles :: db_handles where
  "no_handles = \<lparr>dh_db = None, dh_stmts = []\<rparr>"

definition openDB :: "(string \<Rightarrow> bool) \<Rightarrow> bool \<Rightarrow> string \<Rightarrow> db_handles \<Rightarrow> open_error option \<times> db_handles" where
  "openDB sql_open schema_ok dbPath h =
     (if \<not> sql_open (dbPath @ ''?_busy_timeout=5000&_journal_mode=WAL&_synchronous=NORMAL'')
      then (Some (OpenDBFailed dbPath), h)
      else if \<not> schema_ok then (Some (SchemaFailed dbPath), h\<lparr>dh_db := None\<rparr>)
      else (None, h\<lparr>dh_db := Some dbPath\<rparr>))"

definition statement_order :: "stmt_name list" where
  "statement_order = [StGet, StPut, StDel, StClear, StContains, StCleanup, StUpdateAccess, StCount,
     StEvictCount, StSumSize, StOldestRows, StStats]"

fun prepare_each :: "(stmt_name \<Rightarrow> bool) \<Rightarrow> stmt_name list \<Rightarrow> db_handles \<Rightarrow> open_error option \<times> db_handles" where
  "prepare_each compiles [] h = (None, h)"
| "prepare_each compiles (n # ns) h =
     (if compiles n then prepare_each compiles ns (h\<lparr>dh_stmts := dh_stmts h @ [n]\<rparr>)
      else (Some (PrepareFailed n), h))"

definition prepareStatements :: "(stmt_name \<Rightarrow> bool) \<Rightarrow> db_handles \<Rightarrow> open_error option \<times> db_handles" where
  "prepareStatements compiles h = prepare_each compiles statement_order h"

definition closeStatements :: "db_handles \<Rightarrow> db_handles" where
  "closeStatements h = h\<lparr>dh_stmts := filter (\<lambda>n. n \<notin> set statement_order) (dh_stmts h)\<rparr>"

definition NewCacheService_db ::
    "(string \<Rightarrow> bool) \<Rightarrow> bool \<Rightarrow> (stmt_name \<Rightarrow> bool) \<Rightarrow> (string \<Rightarrow> string \<Rightarrow> string) \<Rightarrow> string \<Rightarrow> db_handles \<Rightarrow>
     open_error option \<times> db_handles" where
  "NewCacheService_db sql_open schema_ok compiles path_join storagePath h =
     (case openDB sql_open schema_ok (path_join storagePath ''cache.db'') h of
        (Some e, h1) \<Rightarrow> (Some e, h1)
      | (None, h1) \<Rightarrow>
          (case prepareStatements compiles h1 of
             (Some e, h2) \<Rightarrow> (Some e, h2\<lparr>dh_db := None\<rparr>)
           | (None, h2) \<Rightarrow> (None, h2)))"

definition Close_db :: "db_handles \<Rightarrow> db_handles" where
  "Close_db h = (closeStatements h)\<lparr>dh_db := None\<rparr>"

lemma prepare_each_effect:
  "fst (prepare_each compiles ns h) = None \<longleftrightarrow> list_all compiles ns"
  "list_all compiles ns \<Longrightarrow> prepare_each compiles ns h = (None, h\<lparr>dh_stmts := dh_stmts h @ ns\<rparr>)"
  by (induction ns arbitrary: h) auto

text \<open>
  A construction that fails leaves no database open, only statements of the closed one, those
  before the one that did not compile; one that succeeds has all twelve statements, and
  the close of the service leaves nothing.
\<close>

lemma NewCacheService_handles:
  assumes "NewCacheService_db sql_open schema_ok compiles path_join p no_handles = (e, h)"
  shows "(e \<noteq> None \<longrightarrow> dh_db h = None) \<and>
    (e = None \<longrightarrow> dh_db h = Some (path_join p ''cache.db'') \<and> dh_stmts h = statement_order) \<and>
    Close_db h = no_handles"
proof -
  have all_stmts: "n \<in> set statement_order" for n
    by (cases n) (simp_all add: statement_order_def)
  have stmts: "prepare_each compiles statement_order h = (None, h\<lparr>dh_stmts := dh_stmts h @ statement_order\<rparr>)"
    if "fst (prepare_each compiles statement_order h) = None" for h
    using that prepare_each_effect by blast
  show ?thesis
  proof (cases "fst (prepare_each compiles statement_order \<lparr>dh_db = Some (path_join p ''cache.db''), dh_stmts = []\<rparr>) = None")
    case True
    from stmts [OF this] assms all_stmts show ?thesis
      by (auto simp: NewCacheService_db_def openDB_def prepareStatements_def no_handles_def Close_db_def
          closeStatements_def split: if_splits)
  next
    case False
    with assms all_stmts show ?thesis
      by (auto simp: NewCacheService_db_def openDB_def prepareStatements_def no_handles_def Close_db_def
          closeStatements_def split: if_splits prod.splits option.splits)
  qed
qed

end
