(* ===== verification/CoreService.thy ===== *)
theory CoreService
  imports StreamSession Requests
begin

unbundle bit_operations_syntax

text \<open>
  The core service (\<open>pkg/service/server.go\<close>, \<open>config.go\<close>): construction and shutdown, the
  authentication of incoming calls, and the calls from Go into Dart, which go over a gRPC
  connection when there is one and over the FFI callback otherwise. gRPC and the message
  codec are parameters. What Dart does while Go waits is a parameter too: the callback may
  change the stream world, and a loop that receives is described turn by turn.
\<close>

section \<open>Configuration and construction\<close>

record config =
  cf_EngineSocketPath :: string
  cf_EngineTcpPort :: string
  cf_ViewSocketPath :: string
  cf_ViewTcpPort :: string
  cf_Token :: string
  cf_CachePath :: string
  cf_EnableCache :: bool
  cf_StreamTimeout :: int

text \<open>\<open>'n\<close> is a connection to Dart, \<open>'k\<close> a cache service.\<close>

record ('n, 'k) core =
  co_cfg :: config
  co_cache :: "'k option"
  co_dartConn :: "'n option"

definition NewCoreService ::
    "(string \<Rightarrow> 'k option) \<Rightarrow> (string \<Rightarrow> 'n option) \<Rightarrow> config \<Rightarrow> ('n, 'k) core" where
  "NewCoreService new_cache dial cfg =
     \<lparr>co_cfg = cfg,
      co_cache = (if cf_EnableCache cfg \<and> cf_CachePath cfg \<noteq> '''' then new_cache (cf_CachePath cfg) else None),
      co_dartConn =
        (if cf_ViewSocketPath cfg \<noteq> '''' then dial (''unix://'' @ cf_ViewSocketPath cfg)
         else if cf_ViewTcpPort cfg \<noteq> '''' then dial (''localhost:'' @ cf_ViewTcpPort cfg)
         else None)\<rparr>"

text \<open>What a close shuts down, in order, and what a gRPC server offers.\<close>

datatype ('n, 'k) shutdown = CloseConn 'n | CloseCache 'k

definition Core_Close :: "('n, 'k) core \<Rightarrow> ('n, 'k) shutdown list" where
  "Core_Close s =
     (case co_dartConn s of Some n \<Rightarrow> [CloseConn n] | None \<Rightarrow> []) @
     (case co_cache s of Some k \<Rightarrow> [CloseCache k] | None \<Rightarrow> [])"

datatype 'r service = HealthService | CacheService | CustomService 'r

definition NewGrpcServer :: "('n, 'k) core \<Rightarrow> 'r list \<Rightarrow> 'r service list" where
  "NewGrpcServer s registrars =
     [HealthService] @ (if co_cache s \<noteq> None then [CacheService] else []) @ map CustomService registrars"

section \<open>Authentication\<close>

datatype auth_error = MissingMetadata | MissingToken | InvalidToken

text \<open>The metadata of a call: lower-case names with their values in order, if it has any.\<close>

type_synonym metadata = "(string \<times> string list) list"

definition md_get :: "metadata \<Rightarrow> string \<Rightarrow> string list" where
  "md_get md name = (case map_of md name of Some vs \<Rightarrow> vs | None \<Rightarrow> [])"

text \<open>\<open>subtle.ConstantTimeCompare\<close>: 1 for equal contents, 0 otherwise, also on different lengths.\<close>

definition ConstantTimeCompare :: "bytes \<Rightarrow> bytes \<Rightarrow> int" where
  "ConstantTimeCompare x y =
     (if length x \<noteq> length y then 0
      else if foldl (\<lambda>v (a, b). v OR (a XOR b)) 0 (zip x y) = 0 then 1 else 0)"

text \<open>
  The interceptors: \<open>handler\<close> is the rest of the call, as a function of the server's state.
\<close>

definition authInterceptor ::
    "config \<Rightarrow> metadata option \<Rightarrow> ('st \<Rightarrow> 'r \<times> 'st) \<Rightarrow> 'st \<Rightarrow> (auth_error + 'r) \<times> 'st" where
  "authInterceptor cfg md handler st =
     (if cf_Token cfg = '''' then (let (r, st') = handler st in (Inr r, st'))
      else (case md of
              None \<Rightarrow> (Inl MissingMetadata, st)
            | Some m \<Rightarrow>
                (case md_get m ''authorization'' of
                   [] \<Rightarrow> (Inl MissingToken, st)
                 | t # ts \<Rightarrow>
                     if ConstantTimeCompare (str_bytes t) (str_bytes (''Bearer '' @ cf_Token cfg)) \<noteq> 1
                     then (Inl InvalidToken, st)
                     else (let (r, st') = handler st in (Inr r, st')))))"

text \<open>A stream handler answers with an error or nothing; the check is written out again.\<close>

definition streamAuthInterceptor ::
    "config \<Rightarrow> metadata option \<Rightarrow> ('st \<Rightarrow> 'e option \<times> 'st) \<Rightarrow> 'st \<Rightarrow> (auth_error + 'e) option \<times> 'st" where
  "streamAuthInterceptor cfg md handler st =
     (if cf_Token cfg = '''' then (let (r, st') = handler st in (map_option Inr r, st'))
      else (case md of
              None \<Rightarrow> (Some (Inl MissingMetadata), st)
            | Some m \<Rightarrow>
                (case md_get m ''authorization'' of
                   [] \<Rightarrow> (Some (Inl MissingToken), st)
                 | t # ts \<Rightarrow>
                     if ConstantTimeCompare (str_bytes t) (str_bytes (''Bearer '' @ cf_Token cfg)) \<noteq> 1
                     then (Some (Inl InvalidToken), st)
                     else (let (r, st') = handler st in (map_option Inr r, st')))))"

section \<open>Calling Dart\<close>

datatype 'e dart_error =
    NotRegistered | MarshalFailed | UnmarshalFailed | CallbackFailed 'e | GrpcFailed 'e
  | SendFailedAt nat stream_error | StreamTimeout | ClosedWithoutResponse

text \<open>The metadata of an outgoing call.\<close>

definition outgoing_md :: "config \<Rightarrow> metadata" where
  "outgoing_md cfg =
     (if cf_Token cfg \<noteq> '''' then [(''authorization'', [''Bearer '' @ cf_Token cfg])] else [])"

text \<open>
  \<open>InvokeDart\<close>: \<open>inv n md method req\<close> is a unary call on the connection, \<open>cb\<close> the registered
  callback, \<open>enc\<close> and \<open>dec\<close> the codec; a nil response is decoded as no bytes.
\<close>

definition InvokeDart ::
    "('n \<Rightarrow> metadata \<Rightarrow> string \<Rightarrow> 'q \<Rightarrow> 'e + 'a) \<Rightarrow> (string \<Rightarrow> bytes \<Rightarrow> 'e + response) option \<Rightarrow>
     ('q \<Rightarrow> bytes option) \<Rightarrow> (bytes \<Rightarrow> 'a option) \<Rightarrow> ('n, 'k) core \<Rightarrow> string \<Rightarrow> 'q \<Rightarrow> 'e dart_error + 'a" where
  "InvokeDart grpc_invoke cb enc dec s method req =
     (case co_dartConn s of
        Some n \<Rightarrow>
          (case grpc_invoke n (outgoing_md (co_cfg s)) method req of
             Inl e \<Rightarrow> Inl (GrpcFailed e) | Inr resp \<Rightarrow> Inr resp)
      | None \<Rightarrow>
          (case cb of
             None \<Rightarrow> Inl NotRegistered
           | Some f \<Rightarrow>
               (case enc req of
                  None \<Rightarrow> Inl MarshalFailed
                | Some reqBytes \<Rightarrow>
                    (case f method reqBytes of
                       Inl e \<Rightarrow> Inl (CallbackFailed e)
                     | Inr respBytes \<Rightarrow>
                         (case dec (case respBytes of Some b \<Rightarrow> b | None \<Rightarrow> []) of
                            None \<Rightarrow> Inl UnmarshalFailed | Some resp \<Rightarrow> Inr resp)))))"

text \<open>The method name that tells Dart where to send its data.\<close>

definition method_with_id :: "string \<Rightarrow> int64 \<Rightarrow> string" where
  "method_with_id method i = method @ '':'' @ show_int (sint i)"

section \<open>Collecting a stream from Dart over FFI\<close>

type_synonym 'e stream_callback = "string \<Rightarrow> bytes \<Rightarrow> world \<Rightarrow> ('e + response) \<times> world"

text \<open>The opening part of \<open>InvokeDartStream\<close>: a session, and the call that starts the stream.\<close>

definition drop_stream :: "int64 \<Rightarrow> world \<Rightarrow> world" where
  "drop_stream i w = (case CloseStreamSession i w of Ret w' \<Rightarrow> w' | Panic p \<Rightarrow> w)"

definition InvokeDartStream_open ::
    "'e stream_callback option \<Rightarrow> ('q \<Rightarrow> bytes option) \<Rightarrow> string \<Rightarrow> 'q \<Rightarrow> world \<Rightarrow>
     ('e dart_error + nat) \<times> world" where
  "InvokeDartStream_open cb enc method req w =
     (case cb of
        None \<Rightarrow> (Inl NotRegistered, w)
      | Some f \<Rightarrow>
          (let (a, w1) = NewStreamSession method StreamTypeServerStream w;
               i = ss_id (w_heap w1 ! a) in
           case enc req of
             None \<Rightarrow> (Inl MarshalFailed, drop_stream i w1)
           | Some reqBytes \<Rightarrow>
               (case f (method_with_id method i) reqBytes w1 of
                  (Inl e, w2) \<Rightarrow> (Inl (CallbackFailed e), drop_stream i w2)
                | (Inr r, w2) \<Rightarrow> (Inr a, w2))))"

text \<open>
  One turn of the receiving loop: a select over the data, the end of the session, and the
  timer. A chunk that cannot be decoded is skipped.
\<close>

datatype ('a, 'e) collect_turn = Continue "'a list" world | Stop "'e dart_error + 'a list" world

definition collect_turn ::
    "(bytes \<Rightarrow> 'a option) \<Rightarrow> nat \<Rightarrow> bool \<Rightarrow> 'a list \<Rightarrow> world \<Rightarrow> ('a, 'e) collect_turn list" where
  "collect_turn dec a timer_fired responses w =
     (let s = w_heap w ! a in
      select_ready
        [(recv_ready (ss_data s),
           (case chan_recv (ss_data s) of
              (None, ch) \<Rightarrow> Stop (Inr responses) w
            | (Some data, ch) \<Rightarrow>
                (let w' = w\<lparr>w_heap := (w_heap w)[a := s\<lparr>ss_data := ch\<rparr>]\<rparr> in
                 case dec data of
                   None \<Rightarrow> Continue responses w'
                 | Some resp \<Rightarrow> Continue (responses @ [resp]) w'))),
         (ss_done s, Stop (Inr responses) w),
         (timer_fired, Stop (Inl StreamTimeout) (drop_stream (ss_id s) w))])"

text \<open>
  The runs of the loop when nothing else touches the session any more and the timer does
  not fire: the possible results, with fuel for the turns.
\<close>

fun collect_runs :: "nat \<Rightarrow> (bytes \<Rightarrow> 'a option) \<Rightarrow> nat \<Rightarrow> 'a list \<Rightarrow> world \<Rightarrow> ('e dart_error + 'a list) list" where
  "collect_runs 0 dec a responses w = []"
| "collect_runs (Suc n) dec a responses w =
     concat (map (\<lambda>t. case t of Continue rs w' \<Rightarrow> collect_runs n dec a rs w' | Stop r w' \<Rightarrow> [r])
       (collect_turn dec a False responses w))"

section \<open>Sending requests to a Dart stream\<close>

text \<open>
  The loop of the client-streaming and bidirectional calls: it stops at the first send that
  fails and reports its index. A request that does not marshal is sent empty, since the
  code drops that error.
\<close>

fun send_requests ::
    "('q \<Rightarrow> bytes option) \<Rightarrow> nat \<Rightarrow> nat \<Rightarrow> 'q list \<Rightarrow> world \<Rightarrow> (nat \<times> stream_error) option \<times> world" where
  "send_requests enc a i [] w = (None, w)"
| "send_requests enc a i (q # qs) w =
     (case SendFromStream a (case enc q of Some b \<Rightarrow> b | None \<Rightarrow> []) w of
        (Some e, w') \<Rightarrow> (Some (i, e), w')
      | (None, w') \<Rightarrow> send_requests enc a (i + 1) qs w')"

text \<open>
  \<open>InvokeDartClientStream\<close>: \<open>arrive\<close> is what Dart does until the final select is taken, in
  which the timer may fire. The session is closed on the way out.
\<close>

definition client_select ::
    "(bytes \<Rightarrow> 'a option) \<Rightarrow> nat \<Rightarrow> bool \<Rightarrow> world \<Rightarrow> ('e dart_error + 'a) list" where
  "client_select dec a timer_fired w =
     (let s = w_heap w ! a in
      select_ready
        [(recv_ready (ss_data s),
           (case chan_recv (ss_data s) of
              (None, ch) \<Rightarrow> Inl ClosedWithoutResponse
            | (Some data, ch) \<Rightarrow> (case dec data of None \<Rightarrow> Inl UnmarshalFailed | Some r \<Rightarrow> Inr r))),
         (timer_fired, Inl StreamTimeout)])"

definition InvokeDartClientStream ::
    "'e stream_callback option \<Rightarrow> ('q \<Rightarrow> bytes option) \<Rightarrow> (bytes \<Rightarrow> 'a option) \<Rightarrow> (world \<Rightarrow> world) \<Rightarrow>
     bool \<Rightarrow> string \<Rightarrow> 'q list \<Rightarrow> world \<Rightarrow> (('e dart_error + 'a) \<times> world) list" where
  "InvokeDartClientStream cb enc dec arrive timer_fired method reqs w =
     (case cb of
        None \<Rightarrow> [(Inl NotRegistered, w)]
      | Some f \<Rightarrow>
          (let (a, w1) = NewStreamSession method StreamTypeBidiStream w;
               i = ss_id (w_heap w1 ! a) in
           case f (method_with_id method i) [] w1 of
             (Inl e, w2) \<Rightarrow> [(Inl (CallbackFailed e), drop_stream i w2)]
           | (Inr r, w2) \<Rightarrow>
               (case send_requests enc a 0 reqs w2 of
                  (Some (n, e), w3) \<Rightarrow> [(Inl (SendFailedAt n e), drop_stream i w3)]
                | (None, w3) \<Rightarrow>
                    (let w4 = arrive (snd (CloseSend a w3)) in
                     map (\<lambda>res. (res, drop_stream i w4)) (client_select dec a timer_fired w4)))))"

text \<open>The gRPC path of \<open>InvokeDartStream\<close>: the replies of the stream in order.\<close>

datatype ('a, 'e) grpc_reply = GrpcMsg 'a | GrpcEOF | GrpcStatusOK | GrpcError 'e

fun grpc_collect :: "('a, 'e) grpc_reply list \<Rightarrow> 'a list \<Rightarrow> ('e dart_error + 'a list) option" where
  "grpc_collect [] responses = None"
| "grpc_collect (GrpcMsg m # rs) responses = grpc_collect rs (responses @ [m])"
| "grpc_collect (GrpcEOF # rs) responses = Some (Inr responses)"
| "grpc_collect (GrpcStatusOK # rs) responses = Some (Inr responses)"
| "grpc_collect (GrpcError e # rs) responses = Some (Inl (GrpcFailed e))"


section \<open>Facts about the parts\<close>

lemma or_eq_0_word: "(v :: byte) OR w = 0 \<longleftrightarrow> v = 0 \<and> w = 0"
  by (metis or.right_neutral or.left_neutral or.left_idem or.right_idem)

lemma xor_eq_0_word: "(v :: byte) XOR w = 0 \<longleftrightarrow> v = w"
  by (metis xor.assoc xor.right_neutral xor_self_eq)

lemma compare_fold:
  "length x = length y \<Longrightarrow>
     (foldl (\<lambda>v (a, b). v OR (a XOR b)) c (zip x y) = 0) = (c = 0 \<and> x = (y :: bytes))"
proof (induction x y arbitrary: c rule: list_induct2)
  case Nil
  then show ?case by simp
next
  case (Cons a x b y)
  then show ?case by (auto simp: or_eq_0_word xor_eq_0_word)
qed

lemma ConstantTimeCompare_eq: "ConstantTimeCompare x y = 1 \<longleftrightarrow> x = y"
  by (auto simp: ConstantTimeCompare_def compare_fold)

end
