(* ===== verification/FfiEntry.thy ===== *)
theory FfiEntry
  imports CoreService Cache CBoundary
begin

text \<open>
  The exported C functions of the server library (\<open>cmd/server/main.go\<close>), at the level of
  their values: a C string or buffer that may be null is an optional value, and an
  \<open>FfiData\<close> is an optional byte list with its length field, whose sign tells a result from
  an error. Where data is copied out of C memory, the memory and the length that came with it
  are separate arguments, and the copy is the one of theory \<open>CBoundary\<close>. The dispatch to the services, the marshalling of errors and the network are
  parameters.
\<close>

section \<open>Starting and stopping\<close>

record core_argument =
  arg_storagePath :: "string option"
  arg_cachePath :: "string option"
  arg_engineSocketPath :: "string option"
  arg_engineTcpPort :: "string option"
  arg_viewSocketPath :: "string option"
  arg_viewTcpPort :: "string option"
  arg_token :: "string option"
  arg_enableCache :: int
  arg_streamTimeout :: int

definition or_empty :: "string option \<Rightarrow> string" where
  "or_empty s = (case s of Some x \<Rightarrow> x | None \<Rightarrow> '''')"

definition start_config :: "core_argument \<Rightarrow> config" where
  "start_config arg =
     \<lparr>cf_EngineSocketPath =
        (case arg_engineSocketPath arg of Some p \<Rightarrow> p | None \<Rightarrow> or_empty (arg_storagePath arg)),
      cf_EngineTcpPort = or_empty (arg_engineTcpPort arg),
      cf_ViewSocketPath = or_empty (arg_viewSocketPath arg),
      cf_ViewTcpPort = or_empty (arg_viewTcpPort arg),
      cf_Token = or_empty (arg_token arg),
      cf_CachePath = or_empty (arg_cachePath arg),
      cf_EnableCache = (or_empty (arg_cachePath arg) \<noteq> '''' \<and> arg_enableCache arg = 1),
      cf_StreamTimeout = wrap64 (arg_streamTimeout arg * 1000000)\<rparr>"

text \<open>
  The server's globals: the gRPC server with the services it offers, the implementation,
  and the addresses listened on (\<open>listen\<close> says which a listen succeeds for; the two
  goroutines may finish in either order, which \<open>tcp_first\<close> tells).
\<close>

record ('n, 'k) server =
  sv_srv :: "unit service list option"
  sv_impl :: "('n, 'k) core option"
  sv_listeners :: "(string \<times> string) list"

definition start_listeners ::
    "(string \<times> string \<Rightarrow> bool) \<Rightarrow> bool \<Rightarrow> config \<Rightarrow> (string \<times> string) list" where
  "start_listeners listen tcp_first cfg =
     (let uds = (if cf_EngineSocketPath cfg \<noteq> '''' \<and> listen (''unix'', cf_EngineSocketPath cfg)
                 then [(''unix'', cf_EngineSocketPath cfg)] else []);
          tcp = (if cf_EngineTcpPort cfg \<noteq> '''' \<and> listen (''tcp'', '':'' @ cf_EngineTcpPort cfg)
                 then [(''tcp'', '':'' @ cf_EngineTcpPort cfg)] else [])
      in if tcp_first then tcp @ uds else uds @ tcp)"

definition StartGrpcServer ::
    "(string \<Rightarrow> 'k option) \<Rightarrow> (string \<Rightarrow> 'n option) \<Rightarrow> (string \<times> string \<Rightarrow> bool) \<Rightarrow> bool \<Rightarrow>
     core_argument \<Rightarrow> ('n, 'k) server \<Rightarrow> world \<Rightarrow> int \<times> ('n, 'k) server \<times> world" where
  "StartGrpcServer new_cache dial listen tcp_first arg sv w =
     (if sv_srv sv \<noteq> None then (- 1, sv, w)
      else (let cfg = start_config arg; s = NewCoreService new_cache dial cfg in
            (0,
             \<lparr>sv_srv = Some (NewGrpcServer s []), sv_impl = Some s,
              sv_listeners = start_listeners listen tcp_first cfg\<rparr>,
             SetDefaultStreamTimeout (cf_StreamTimeout cfg) w)))"

text \<open>\<open>StopGrpcServer\<close>, with what it shuts down and the sockets it removes.\<close>

definition StopGrpcServer ::
    "('n, 'k) server \<Rightarrow> (int \<times> ('n, 'k) shutdown list \<times> string list) \<times> ('n, 'k) server" where
  "StopGrpcServer sv =
     (if sv_srv sv = None then ((0, [], []), sv)
      else ((0,
             case sv_impl sv of Some s \<Rightarrow> Core_Close s | None \<Rightarrow> [],
             map snd (filter (\<lambda>l. fst l = ''unix'') (sv_listeners sv))),
            \<lparr>sv_srv = None, sv_impl = None, sv_listeners = []\<rparr>))"

section \<open>Calls into the backend\<close>

type_synonym ffi_data = "bytes option \<times> int"

text \<open>
  The error of a call: the first \<open>pb.Error\<close> among the details of its status, if it has one,
  and otherwise one made of its message and code. \<open>enc\<close> marshals it.
\<close>

record pb_error =
  pe_message :: string
  pe_grpc_code :: int

record status_error =
  se_message :: string
  se_code :: int
  se_is_status :: bool
  se_details :: "pb_error list"

definition status_pb_error :: "status_error \<Rightarrow> pb_error" where
  "status_pb_error e =
     (case (if se_is_status e then se_details e else []) of
        d # ds \<Rightarrow> d
      | [] \<Rightarrow> \<lparr>pe_message = se_message e, pe_grpc_code = se_code e\<rparr>)"

definition ffi_error :: "bytes \<Rightarrow> ffi_data" where
  "ffi_error bs = (Some bs, - int (length bs))"

definition not_initialized :: ffi_data where
  "not_initialized = ffi_error (str_bytes ''Server implementation not initialized'')"

definition InvokeBackend ::
    "(pb_error \<Rightarrow> bytes) \<Rightarrow> ('s \<Rightarrow> string \<Rightarrow> bytes \<Rightarrow> status_error + bytes) \<Rightarrow> 's option \<Rightarrow> string \<Rightarrow> bytes \<Rightarrow> ffi_data" where
  "InvokeBackend enc invokeFfi impl method data =
     (case impl of
        None \<Rightarrow> not_initialized
      | Some s \<Rightarrow>
          (case invokeFfi s method data of
             Inl e \<Rightarrow> ffi_error (enc (status_pb_error e))
           | Inr r \<Rightarrow> (Some r, int (length r))))"

section \<open>Metadata\<close>

fun splitLines_from :: "bytes \<Rightarrow> bytes \<Rightarrow> bytes list" where
  "splitLines_from cur [] = (if cur \<noteq> [] then [cur] else [])"
| "splitLines_from cur (b # bs) = (if b = 10 then cur # splitLines_from [] bs else splitLines_from (cur @ [b]) bs)"

definition splitLines :: "bytes \<Rightarrow> bytes list" where
  "splitLines data = splitLines_from [] data"

fun indexOf :: "bytes \<Rightarrow> byte \<Rightarrow> int" where
  "indexOf [] ch = - 1"
| "indexOf (b # bs) ch = (if b = ch then 0 else (let i = indexOf bs ch in if i < 0 then - 1 else i + 1))"

text \<open>
  \<open>fmt.Sscanf(value, "%d", &old)\<close>: leading blanks, an optional sign, decimal digits; what
  follows is ignored, and without digits or out of the 64-bit range \<open>old\<close> is kept. (Blanks
  are the ASCII ones.)
\<close>

definition is_blank :: "char \<Rightarrow> bool" where
  "is_blank c \<longleftrightarrow> of_char c \<in> {9, 11, 12, 13, 32 :: nat}"

definition sscanf_d :: "string \<Rightarrow> int \<Rightarrow> int" where
  "sscanf_d value old =
     (let s = dropWhile is_blank value;
          (neg, ds) = (case s of
             c # cs \<Rightarrow> if c = CHR ''-'' then (True, cs) else if c = CHR ''+'' then (False, cs) else (False, s)
           | [] \<Rightarrow> (False, s));
          digits = takeWhile is_digit ds;
          v = (if neg then - int (digits_val digits) else int (digits_val digits))
      in if digits = [] \<or> v < - (2 ^ 63) \<or> 2 ^ 63 \<le> v then old else v)"

text \<open>One line of metadata; the map is the list of its entries.\<close>

definition parse_line :: "bytes \<Rightarrow> (string \<times> string) list \<times> int \<Rightarrow> (string \<times> string) list \<times> int" where
  "parse_line line st =
     (let idx = indexOf line 61 in
      if line = [] \<or> idx \<le> 0 then st
      else (let key = bytes_str (take (nat idx) line); value = bytes_str (drop (nat idx + 1) line);
                (meta, timeoutMs) = st in
            if key = ''__timeout_ms'' then (meta, sscanf_d value timeoutMs)
            else (AList.update key value meta, timeoutMs)))"

definition parseMetadata :: "bytes \<Rightarrow> (string \<times> string) list \<times> int" where
  "parseMetadata metaData =
     (if metaData = [] then ([], 0) else fold parse_line (splitLines metaData) ([], 0))"

text \<open>
  \<open>InvokeBackendWithMeta\<close>: the dispatch gets the timeout of its context (\<open>None\<close>: none); the
  metadata itself is parsed and not used.
\<close>

definition meta_timeout :: "bytes \<Rightarrow> int option" where
  "meta_timeout metaData =
     (let timeoutMs = snd (parseMetadata metaData) in
      if timeoutMs > 0 then Some (wrap64 (timeoutMs * 1000000)) else None)"

definition InvokeBackendWithMeta ::
    "(pb_error \<Rightarrow> bytes) \<Rightarrow> (int option \<Rightarrow> 's \<Rightarrow> string \<Rightarrow> bytes \<Rightarrow> status_error + bytes) \<Rightarrow> 's option \<Rightarrow>
     string \<Rightarrow> bytes \<Rightarrow> bytes \<Rightarrow> ffi_data" where
  "InvokeBackendWithMeta enc invokeFfi impl method data metaData =
     (case impl of
        None \<Rightarrow> not_initialized
      | Some s \<Rightarrow>
          (case invokeFfi (meta_timeout metaData) s method data of
             Inl e \<Rightarrow> ffi_error (enc (status_pb_error e))
           | Inr r \<Rightarrow> (Some r, int (length r))))"

section \<open>Calls into Dart\<close>

text \<open>
  The closure that \<open>RegisterDartCallback\<close> installs: \<open>dart h i m d\<close> is the handler after the
  C callback, with what Dart answered while it ran; the timer of the wait may fire.
\<close>

definition ffi_dart_callback ::
    "(req_handler \<Rightarrow> int64 \<Rightarrow> string \<Rightarrow> bytes \<Rightarrow> req_handler) option \<Rightarrow> bool \<Rightarrow> string \<Rightarrow> bytes \<Rightarrow>
     req_handler \<Rightarrow> ((string + response) \<times> req_handler) list" where
  "ffi_dart_callback dart timer_fired method data h =
     (case dart of
        None \<Rightarrow> [(Inl ''dart callback is nil'', h)]
      | Some f \<Rightarrow>
          (let ((requestId, ch), h1) = CreateRequest h;
               h2 = f h1 requestId method data in
           map (\<lambda>(r, h3). (case r of Response d \<Rightarrow> Inr d
                                   | WaitTimeout \<Rightarrow> Inl ''timeout waiting for Dart response'', h3))
             (WaitForResponse requestId ch timer_fired h2)))"

text \<open>
  \<open>RegisterDartCallback\<close>: the requests that wait for the previous callback are given up (in
  the order \<open>pending\<close> of the map), and the callback into Dart is the closure above from then on.
\<close>

definition RegisterDartCallback ::
    "(int64 \<times> nat) list \<Rightarrow> (req_handler \<Rightarrow> int64 \<Rightarrow> string \<Rightarrow> bytes \<Rightarrow> req_handler) option \<Rightarrow> req_handler \<Rightarrow>
     req_handler \<times> (bool \<Rightarrow> string \<Rightarrow> bytes \<Rightarrow> req_handler \<Rightarrow> ((string + response) \<times> req_handler) list)" where
  "RegisterDartCallback pending callback h = (CleanupPending pending h, ffi_dart_callback callback)"

definition SendFfiResponse :: "int64 \<Rightarrow> bytes \<Rightarrow> int64 \<Rightarrow> req_handler \<Rightarrow> req_handler outcome list" where
  "SendFfiResponse requestId data dataLen h =
     (case copy_in data dataLen of Panic p \<Rightarrow> [Panic p] | Ret goData \<Rightarrow> HandleResponse requestId (Some goData) h)"

section \<open>Streams\<close>

definition InvokeBackendServerStream ::
    "'h handlers \<Rightarrow> string \<Rightarrow> bytes \<Rightarrow> int64 \<Rightarrow> world \<Rightarrow> (int64 \<times> (nat \<times> 'h task) option \<times> world) outcome" where
  "InvokeBackendServerStream r method data dataLen w =
     bind_outcome (if sint dataLen > 0 then copy_in data dataLen else Ret [])
       (\<lambda>goData. Ret (HandleServerStream r method goData w))"

definition InvokeBackendClientStream ::
    "'h handlers \<Rightarrow> string \<Rightarrow> world \<Rightarrow> int64 \<times> (nat \<times> 'h task) option \<times> world" where
  "InvokeBackendClientStream r method w = HandleClientStream r method w"

definition InvokeBackendBidiStream ::
    "'h handlers \<Rightarrow> string \<Rightarrow> world \<Rightarrow> int64 \<times> (nat \<times> 'h task) option \<times> world" where
  "InvokeBackendBidiStream r method w = HandleBidiStream r method w"

text \<open>
  \<open>RegisterStreamCallback\<close> installs two closures over the C callback: what a call of the
  session's callbacks becomes at the C side, with the length it passes. Data without bytes
  is passed as a null pointer.
\<close>

fun stream_callback_call :: "nat option \<Rightarrow> stream_event \<Rightarrow> (nat \<times> int64 \<times> byte \<times> cdata \<times> nat) option" where
  "stream_callback_call None ev = None"
| "stream_callback_call (Some cb) (Call k i ty d) =
     Some (if d \<noteq> [] then (cb, i, ty, CData d, length d) else (cb, i, ty, CNull, 0))"
| "stream_callback_call (Some cb) (CallFfi k i ty p n) = Some (cb, i, ty, p, n)"

definition RegisterStreamCallback :: "nat \<Rightarrow> nat \<Rightarrow> world \<Rightarrow> world" where
  "RegisterStreamCallback copying zero_copy w =
     SetStreamCallbackFfi (Some zero_copy) (SetStreamCallback (Some copying) w)"

definition SendStreamData :: "int64 \<Rightarrow> bytes \<Rightarrow> int64 \<Rightarrow> world \<Rightarrow> (int \<times> world) outcome list" where
  "SendStreamData streamId data dataLen w =
     (case copy_in data dataLen of
        Panic p \<Rightarrow> [Panic p]
      | Ret goData \<Rightarrow>
          map (\<lambda>res. bind_outcome res (\<lambda>(err, w'). Ret (case err of None \<Rightarrow> 0 | Some e \<Rightarrow> - 1, w')))
            (SendToStream streamId goData w))"

definition CloseStream :: "int64 \<Rightarrow> world \<Rightarrow> world outcome" where
  "CloseStream streamId w = CloseStreamSession streamId w"

definition StreamReady :: "int64 \<Rightarrow> world \<Rightarrow> world outcome" where
  "StreamReady streamId w = SignalStreamReady streamId w"

section \<open>The cache\<close>

text \<open>
  There is no cache without a server or with caching disabled. A null pointer with no bytes
  is a nil value for \<open>CachePut\<close>; the times are those the cache reads.
\<close>

definition CacheGet :: "int \<Rightarrow> int \<Rightarrow> string \<Rightarrow> string \<Rightarrow> cache option \<Rightarrow> ffi_data \<times> cache option" where
  "CacheGet t1 t2 storeName key cache =
     (case cache of
        None \<Rightarrow> ((None, 0), None)
      | Some c \<Rightarrow>
          (case Get t1 t2 storeName key c of
             (Inr (Some v), c') \<Rightarrow> if v = [] then ((None, 0), Some c') else ((Some v, int (length v)), Some c')
           | (_, c') \<Rightarrow> ((None, 0), Some c')))"

definition CachePut ::
    "int \<Rightarrow> int \<Rightarrow> string \<Rightarrow> string \<Rightarrow> bytes option \<Rightarrow> int \<Rightarrow> cache option \<Rightarrow> int \<times> cache option" where
  "CachePut t1 t2 storeName key data ttlSeconds cache =
     (case cache of
        None \<Rightarrow> (- 1, None)
      | Some c \<Rightarrow>
          (case Put t1 t2 storeName key data ttlSeconds 0 c of
             (Some e, c') \<Rightarrow> (- 1, Some c') | (None, c') \<Rightarrow> (0, Some c')))"

definition CacheContains :: "int \<Rightarrow> string \<Rightarrow> string \<Rightarrow> cache option \<Rightarrow> int \<times> cache option" where
  "CacheContains t storeName key cache =
     (case cache of
        None \<Rightarrow> (- 1, None)
      | Some c \<Rightarrow>
          (case Contains t storeName key c of
             (Inl e, c') \<Rightarrow> (- 1, Some c') | (Inr b, c') \<Rightarrow> (if b then 1 else 0, Some c')))"

definition CacheDelete :: "string \<Rightarrow> string \<Rightarrow> cache option \<Rightarrow> int \<times> cache option" where
  "CacheDelete storeName key cache =
     (case cache of
        None \<Rightarrow> (- 1, None)
      | Some c \<Rightarrow>
          (case Delete storeName key c of
             (Some e, c') \<Rightarrow> (- 1, Some c') | (None, c') \<Rightarrow> (0, Some c')))"

section \<open>The standalone program\<close>

text \<open>
  The arguments that \<open>main\<close> starts the server with, from its flags. They are in memory that
  \<open>malloc\<close> returned and nothing clears: \<open>memory\<close> is what it holds, and four fields stay as
  they are.
\<close>

definition standalone_argument ::
    "core_argument \<Rightarrow> string \<Rightarrow> string \<Rightarrow> string \<Rightarrow> string \<Rightarrow> string \<Rightarrow> core_argument" where
  "standalone_argument memory golangPort golangSocket flutterPort flutterSocket token =
     memory\<lparr>arg_engineTcpPort := Some golangPort, arg_engineSocketPath := Some golangSocket,
       arg_viewTcpPort := Some flutterPort, arg_viewSocketPath := Some flutterSocket, arg_token := Some token\<rparr>"

end
