(* ===== verification/CoreProps.thy ===== *)
theory CoreProps
  imports CoreService
begin

text \<open>
  What the core service guarantees: no call reaches its handler without the token, and what
  a Go caller can get from a stream that Dart has finished.
\<close>

section \<open>Authentication\<close>

text \<open>The specification: the first authorization value is the bearer token, if there is a token.\<close>

definition authorized :: "config \<Rightarrow> metadata option \<Rightarrow> bool" where
  "authorized cfg md \<longleftrightarrow> cf_Token cfg = '''' \<or>
     (\<exists>m ts. md = Some m \<and> md_get m ''authorization'' = (''Bearer '' @ cf_Token cfg) # ts)"

text \<open>
  C8. The two interceptors guard every handler with the same rule: a handler runs, on the
  state it is given and with its result passed on, exactly for an authorized call; any
  other call is refused with the state untouched.
\<close>

theorem auth_guards_handlers:
  "(if authorized cfg md
    then authInterceptor cfg md unary st = (Inr (fst (unary st)), snd (unary st)) \<and>
         streamAuthInterceptor cfg md streaming st = (map_option Inr (fst (streaming st)), snd (streaming st))
    else (\<exists>e. authInterceptor cfg md unary st = (Inl e, st) \<and>
              streamAuthInterceptor cfg md streaming st = (Some (Inl e), st)))"
proof (cases "cf_Token cfg = ''''")
  case True
  then show ?thesis
    by (simp add: authorized_def authInterceptor_def streamAuthInterceptor_def split_beta)
next
  case token: False
  show ?thesis
  proof (cases md)
    case None
    with token show ?thesis
      by (simp add: authorized_def authInterceptor_def streamAuthInterceptor_def)
  next
    case (Some m)
    show ?thesis
    proof (cases "md_get m ''authorization''")
      case Nil
      with token Some show ?thesis
        by (simp add: authorized_def authInterceptor_def streamAuthInterceptor_def)
    next
      case (Cons t ts)
      have "str_bytes t = str_bytes (''Bearer '' @ cf_Token cfg) \<longleftrightarrow> t = ''Bearer '' @ cf_Token cfg"
        by (rule str_bytes_inject)
      with token Some Cons show ?thesis
        by (simp add: authorized_def authInterceptor_def streamAuthInterceptor_def split_beta
            ConstantTimeCompare_eq)
    qed
  qed
qed

section \<open>Streams from Dart\<close>

lemma collect_turn_done:
  assumes "ss_done (w_heap w ! a)" and "ch_closed (ss_data (w_heap w ! a))"
  shows "collect_turn dec a False rs w =
    (case ch_buf (ss_data (w_heap w ! a)) of
       [] \<Rightarrow> [Stop (Inr rs) w]
     | d # ds \<Rightarrow>
         [case dec d of
            None \<Rightarrow> Continue rs (w\<lparr>w_heap := (w_heap w)[a := (w_heap w ! a)\<lparr>ss_data := (ss_data (w_heap w ! a))\<lparr>ch_buf := ds\<rparr>\<rparr>]\<rparr>)
          | Some r \<Rightarrow> Continue (rs @ [r]) (w\<lparr>w_heap := (w_heap w)[a := (w_heap w ! a)\<lparr>ss_data := (ss_data (w_heap w ! a))\<lparr>ch_buf := ds\<rparr>\<rparr>]\<rparr>)]) @
    [Stop (Inr rs) w]"
  using assms by (auto simp: collect_turn_def Let_def recv_ready_def split: list.splits option.splits)

text \<open>
  C40. What \<open>InvokeDartStream\<close> can return once Dart has sent its chunks and closed the
  stream: any prefix of the decoded chunks that are still queued, the whole of them being
  only one of the cases. The select prefers neither the queued data nor the end of the
  session, so that a stream that was received completely may be cut short, without an
  error.
\<close>

theorem collect_runs_prefixes:
  assumes "a < length (w_heap w)" and "ss_done (w_heap w ! a)" and "ch_closed (ss_data (w_heap w ! a))"
    and "\<forall>d \<in> set (ch_buf (ss_data (w_heap w ! a))). dec d = Some (g d)"
    and "length (ch_buf (ss_data (w_heap w ! a))) < n"
  shows "(set (collect_runs n dec a rs w) :: ('e dart_error + 'a list) set) =
    {Inr (rs @ take k (map g (ch_buf (ss_data (w_heap w ! a))))) | k. k \<le> length (ch_buf (ss_data (w_heap w ! a)))}"
  using assms
proof (induction n arbitrary: rs w)
  case 0
  then show ?case by simp
next
  case (Suc n)
  let ?s = "w_heap w ! a"
  show ?case
  proof (cases "ch_buf (ss_data ?s)")
    case Nil
    with Suc.prems show ?thesis by (simp add: collect_turn_done)
  next
    case (Cons d ds)
    let ?w = "w\<lparr>w_heap := (w_heap w)[a := ?s\<lparr>ss_data := (ss_data ?s)\<lparr>ch_buf := ds\<rparr>\<rparr>]\<rparr>"
    have heap: "w_heap ?w ! a = ?s\<lparr>ss_data := (ss_data ?s)\<lparr>ch_buf := ds\<rparr>\<rparr>" "a < length (w_heap ?w)"
      using Suc.prems(1) by simp_all
    have dec: "dec d = Some (g d)" using Suc.prems(4) Cons by simp
    have "(set (collect_runs n dec a (rs @ [g d]) ?w) :: ('e dart_error + 'a list) set) =
        {Inr ((rs @ [g d]) @ take k (map g ds)) | k. k \<le> length ds}"
      using Suc.IH [of ?w "rs @ [g d]"] Suc.prems Cons heap by simp
    moreover have "(set (collect_runs (Suc n) dec a rs w) :: ('e dart_error + 'a list) set) =
        insert (Inr rs) (set (collect_runs n dec a (rs @ [g d]) ?w))"
      using Suc.prems(2,3) Cons dec by (auto simp: collect_turn_done)
    moreover have "{Inr (rs @ take k (map g (d # ds))) :: 'e dart_error + 'a list | k. k \<le> length (d # ds)} =
        insert (Inr rs) {Inr ((rs @ [g d]) @ take k (map g ds)) | k. k \<le> length ds}" (is "?L = ?R")
    proof (intro equalityI subsetI)
      fix x assume "x \<in> ?L"
      then obtain k where "x = Inr (rs @ take k (map g (d # ds)))" "k \<le> length (d # ds)" by blast
      then show "x \<in> ?R" by (cases k) auto
    next
      fix x assume "x \<in> ?R"
      then consider "x = Inr rs" | k where "x = Inr ((rs @ [g d]) @ take k (map g ds))" "k \<le> length ds"
        by blast
      then show "x \<in> ?L"
      proof cases
        case 1
        then show ?thesis by (intro CollectI exI [of _ 0]) simp
      next
        case (2 k)
        then show ?thesis by (intro CollectI exI [of _ "Suc k"]) simp
      qed
    qed
    ultimately show ?thesis using Cons by simp
  qed
qed

text \<open>A session into which Dart has sent two chunks before closing it.\<close>

definition demo_finished :: world where
  "demo_finished = init_world\<lparr>w_heap :=
     [(new_session 1 ''/s/M:1'' StreamTypeServerStream init_world)
        \<lparr>ss_data := (make_chan 100)\<lparr>ch_buf := [[7], [8]], ch_closed := True\<rparr>,
         ss_closed := True, ss_input_closed := True, ss_done := True\<rparr>]\<rparr>"

theorem collect_runs_prefixes_witness:
  "(Inr [] :: unit dart_error + bytes list) \<in> set (collect_runs 3 Some 0 [] demo_finished) \<and>
   (Inr [[7], [8]] :: unit dart_error + bytes list) \<in> set (collect_runs 3 Some 0 [] demo_finished)"
proof -
  have s: "0 < length (w_heap demo_finished)" "ss_done (w_heap demo_finished ! 0)"
    "ch_closed (ss_data (w_heap demo_finished ! 0))"
    and buf: "ch_buf (ss_data (w_heap demo_finished ! 0)) = [[7], [8]]"
    by (simp_all add: demo_finished_def)
  have eq: "set (collect_runs 3 Some 0 [] demo_finished) =
      {Inr ([] @ take k (map id [[7], [8]])) :: unit dart_error + bytes list | k. k \<le> length [[7 :: byte], [8]]}"
    using collect_runs_prefixes [OF s, of Some id 3 "[]"] unfolding buf by simp
  have "(Inr [] :: unit dart_error + bytes list) \<in> set (collect_runs 3 Some 0 [] demo_finished)"
    unfolding eq by (intro CollectI exI [of _ 0]) simp
  moreover have "(Inr [[7], [8]] :: unit dart_error + bytes list) \<in> set (collect_runs 3 Some 0 [] demo_finished)"
    unfolding eq by (intro CollectI exI [of _ 2]) simp
  ultimately show ?thesis by blast
qed

end
