(* ===== verification/FfiProps.thy ===== *)
theory FfiProps
  imports FfiEntry CacheProps CoreProps
begin

text \<open>
  What the exported functions guarantee: metadata survives its encoding, the sign of a
  result's length tells errors, and the server's start and stop.
\<close>

section \<open>Bytes of strings\<close>

lemma char_byte_eq: "(of_nat (of_char c) :: byte) = b \<longleftrightarrow> c = char_of (unat b)"
proof -
  have "bytes_str [of_nat (of_char c)] = [c]"
    using bytes_str_bytes [of "[c]"] by (simp add: str_bytes_def)
  moreover have "str_bytes [char_of (unat b)] = [b]"
    using str_bytes_str [of "[b]"] by (simp add: bytes_str_def)
  ultimately show ?thesis by (auto simp: str_bytes_def bytes_str_def)
qed

lemma in_str_bytes: "b \<in> set (str_bytes s) \<longleftrightarrow> char_of (unat b) \<in> set s"
  unfolding str_bytes_def set_map image_iff by (metis char_byte_eq)

lemma newline_in_str_bytes: "10 \<in> set (str_bytes s) \<longleftrightarrow> CHR 0x0A \<in> set s"
proof -
  have "char_of (10 :: nat) = CHR 0x0A" by code_simp
  then show ?thesis by (simp add: in_str_bytes)
qed

lemma equals_in_str_bytes: "61 \<in> set (str_bytes s) \<longleftrightarrow> CHR ''='' \<in> set s"
proof -
  have "char_of (61 :: nat) = CHR ''=''" by code_simp
  then show ?thesis by (simp add: in_str_bytes)
qed

lemma special_bytes: "str_bytes ''='' = [61]" "str_bytes [CHR 0x0A] = [10]"
  by (simp_all add: str_bytes_def)

section \<open>Metadata\<close>

lemma splitLines_from_line:
  "10 \<notin> set xs \<Longrightarrow> splitLines_from cur (xs @ 10 # rest) = (cur @ xs) # splitLines_from [] rest"
  by (induction xs arbitrary: cur) auto

lemma indexOf_append: "ch \<notin> set xs \<Longrightarrow> indexOf (xs @ ch # ys) ch = int (length xs)"
  by (induction xs) (auto simp: Let_def)

lemma splitLines_encode:
  assumes "\<forall>(k, v) \<in> set kvs. CHR 0x0A \<notin> set k \<and> CHR 0x0A \<notin> set v"
  shows "splitLines (encode_pairs kvs) = map (\<lambda>(k, v). str_bytes k @ 61 # str_bytes v) kvs"
  using assms
proof (induction kvs)
  case Nil
  then show ?case by (simp add: splitLines_def encode_pairs_def)
next
  case (Cons kv kvs)
  obtain k v where kv: "kv = (k, v)" by (cases kv)
  have "encode_pairs (kv # kvs) = (str_bytes k @ 61 # str_bytes v) @ 10 # encode_pairs kvs"
    by (simp add: encode_pairs_def kv special_bytes [simplified] str_bytes_def)
  moreover have "10 \<notin> set (str_bytes k @ 61 # str_bytes v)"
    using Cons.prems by (simp add: kv newline_in_str_bytes)
  ultimately show ?case
    using Cons by (simp add: splitLines_def splitLines_from_line kv del: append_assoc)
qed

lemma update_new: "k \<notin> fst ` set al \<Longrightarrow> AList.update k v al = al @ [(k, v)]"
  by (induction al) auto

text \<open>A pair that can be sent: a name that is not empty and has no equals sign.\<close>

definition sendable :: "string \<times> string \<Rightarrow> bool" where
  "sendable kv \<longleftrightarrow> fst kv \<noteq> [] \<and> CHR ''='' \<notin> set (fst kv) \<and> CHR 0x0A \<notin> set (fst kv) \<and>
     CHR 0x0A \<notin> set (snd kv)"

lemma parse_line_pair:
  assumes "sendable (k, v)"
  shows "parse_line (str_bytes k @ 61 # str_bytes v) (meta, t) =
    (if k = ''__timeout_ms'' then (meta, sscanf_d v t) else (AList.update k v meta, t))"
proof -
  have k: "61 \<notin> set (str_bytes k)" "0 < length k"
    using assms by (auto simp: sendable_def equals_in_str_bytes)
  have "indexOf (str_bytes k @ 61 # str_bytes v) 61 = int (length k)"
    using indexOf_append [OF k(1)] by simp
  with k(2) show ?thesis by (simp add: parse_line_def Let_def nat_add_distrib)
qed

lemma parse_lines:
  assumes "\<forall>kv \<in> set kvs. sendable kv \<and> fst kv \<noteq> ''__timeout_ms''"
    and "distinct (map fst meta @ map fst kvs)"
  shows "fold parse_line (map (\<lambda>(k, v). str_bytes k @ 61 # str_bytes v) kvs) (meta, t) = (meta @ kvs, t)"
  using assms
proof (induction kvs arbitrary: meta)
  case Nil
  then show ?case by simp
next
  case (Cons kv kvs)
  obtain k v where kv: "kv = (k, v)" by (cases kv)
  have "k \<notin> fst ` set meta" using Cons.prems(2) by (auto simp: kv)
  then show ?case
    using Cons.prems Cons.IH [of "meta @ [(k, v)]"] by (auto simp: kv parse_line_pair update_new)
qed

lemma takeWhile_digits [simp]: "takeWhile is_digit (show_nat n) = show_nat n"
  using show_nat_digits by (simp add: takeWhile_eq_all_conv)

lemma digit_no_blank: "is_digit c \<Longrightarrow> \<not> is_blank c \<and> c \<noteq> CHR ''-'' \<and> c \<noteq> CHR ''+''"
  by (auto simp: is_digit_def is_blank_def)

lemma sscanf_show_int:
  assumes "- (2 ^ 63) \<le> t" and "t < 2 ^ 63"
  shows "sscanf_d (show_int t) old = t"
proof (cases "t < 0")
  case True
  then show ?thesis
    using assms by (simp add: sscanf_d_def show_int_def is_blank_def digits_val_show_nat) linarith
next
  case False
  obtain c cs where c: "show_nat (nat t) = c # cs" by (cases "show_nat (nat t)") auto
  then have "is_digit c" using hd_show_nat [of "nat t"] by simp
  then have "dropWhile is_blank (c # cs) = c # cs" "c \<noteq> CHR ''-''" "c \<noteq> CHR ''+''"
    using digit_no_blank by auto
  moreover have "takeWhile is_digit (c # cs) = c # cs" using takeWhile_digits [of "nat t"] by (simp only: c)
  moreover have "digits_val (c # cs) = nat t" using digits_val_show_nat [of "nat t"] by (simp only: c)
  ultimately show ?thesis
    using assms False by (simp only: sscanf_d_def show_int_def c Let_def if_False prod.case list.case) simp
qed

lemma show_int_no_newline: "CHR 0x0A \<notin> set (show_int t)"
proof -
  have "CHR 0x0A \<notin> set (show_nat n)" for n
    using show_nat_digits [of n] by (auto simp: is_digit_def)
  then show ?thesis by (simp add: show_int_def)
qed

text \<open>
  C35. Metadata survives its encoding: what \<open>SendHeader\<close> writes for sendable pairs with
  distinct names, followed by a timeout line for any 64-bit number, is parsed by
  \<open>parseMetadata\<close> into exactly those pairs, in order, and that number.
\<close>

theorem parseMetadata_roundtrip:
  assumes "\<forall>kv \<in> set kvs. sendable kv \<and> fst kv \<noteq> ''__timeout_ms''" and "distinct (map fst kvs)"
    and "- (2 ^ 63) \<le> t" and "t < 2 ^ 63"
  shows "parseMetadata (encode_pairs kvs) = (kvs, 0) \<and>
    parseMetadata (encode_pairs (kvs @ [(''__timeout_ms'', show_int t)])) = (kvs, t)"
proof
  have lines: "\<forall>(k, v) \<in> set kvs. CHR 0x0A \<notin> set k \<and> CHR 0x0A \<notin> set v"
    using assms(1) by (auto simp: sendable_def)
  have empty: "encode_pairs kvs = [] \<longleftrightarrow> kvs = []"
    by (cases kvs) (auto simp: encode_pairs_def str_bytes_def)
  show "parseMetadata (encode_pairs kvs) = (kvs, 0)"
    using parse_lines [of kvs "[]" 0] assms(1,2) empty
    by (simp add: parseMetadata_def splitLines_encode [OF lines])
  let ?all = "kvs @ [(''__timeout_ms'', show_int t)]"
  have lines': "\<forall>(k, v) \<in> set ?all. CHR 0x0A \<notin> set k \<and> CHR 0x0A \<notin> set v"
    using lines show_int_no_newline by auto
  have send: "sendable (''__timeout_ms'', show_int t)" by (simp add: sendable_def show_int_no_newline)
  have nonempty: "encode_pairs ?all \<noteq> []" by (auto simp: encode_pairs_def str_bytes_def)
  show "parseMetadata (encode_pairs ?all) = (kvs, t)"
    using parse_lines [of kvs "[]" 0] assms(1,2) nonempty parse_line_pair [OF send, of kvs 0]
      sscanf_show_int [OF assms(3,4)]
    by (simp add: parseMetadata_def splitLines_encode [OF lines'])
qed

theorem parseMetadata_roundtrip_witness:
  "parseMetadata (encode_pairs [(''a'', ''x=y''), (''b'', ''''), (''__timeout_ms'', show_int (- 15))]) =
     ([(''a'', ''x=y''), (''b'', '''')], - 15)"
  using parseMetadata_roundtrip [of "[(''a'', ''x=y''), (''b'', '''')]" "- 15"]
  by (simp add: sendable_def)

section \<open>Results and errors\<close>

text \<open>
  The sign of the length tells an error: a call on an initialised server returns the
  response with its length, or the marshalled \<open>pb.Error\<close> with its length negated, so that a
  negative length means an error and, when no error marshals to nothing, conversely; before
  the server is initialised the result is an error. With no metadata the second entry point
  behaves as the first, with a context without a timeout.
\<close>

theorem InvokeBackend_sign:
  "(snd (InvokeBackend enc (invoke None) impl method data) < 0 \<longrightarrow>
      impl = None \<or> (\<exists>s e. impl = Some s \<and> invoke None s method data = Inl e)) \<and>
   ((\<forall>e. enc e \<noteq> []) \<and> (impl = None \<or> (\<exists>s e. impl = Some s \<and> invoke None s method data = Inl e)) \<longrightarrow>
      snd (InvokeBackend enc (invoke None) impl method data) < 0) \<and>
   (\<forall>s r. impl = Some s \<and> invoke None s method data = Inr r \<longrightarrow>
      InvokeBackend enc (invoke None) impl method data = (Some r, int (length r))) \<and>
   InvokeBackendWithMeta enc invoke impl method data [] = InvokeBackend enc (invoke None) impl method data"
proof -
  have meta: "meta_timeout [] = None" by (simp add: meta_timeout_def parseMetadata_def)
  have neg: "snd not_initialized < 0" by (simp add: not_initialized_def ffi_error_def)
  show ?thesis
    by (cases impl)
       (auto simp: InvokeBackend_def InvokeBackendWithMeta_def meta neg ffi_error_def split: sum.splits)
qed

theorem InvokeBackend_sign_witness:
  "snd (InvokeBackend (\<lambda>e. [1]) (\<lambda>s m d. Inl \<lparr>se_message = ''x'', se_code = 5, se_is_status = True, se_details = []\<rparr>)
     (Some ()) ''/m'' []) < 0"
  using InvokeBackend_sign [of "\<lambda>e. [1]"
    "\<lambda>t s m d. Inl \<lparr>se_message = ''x'', se_code = 5, se_is_status = True, se_details = []\<rparr>" "Some ()" "''/m''" "[]"]
  by simp

section \<open>Start and stop\<close>

text \<open>
  The storage path, which is no socket, becomes the path of the engine's socket when that is
  not given.
\<close>

lemma storagePath_becomes_socket:
  "arg_engineSocketPath arg = None \<Longrightarrow> arg_storagePath arg = Some p \<Longrightarrow> p \<noteq> '''' \<Longrightarrow> listen (''unix'', p) \<Longrightarrow>
     (''unix'', p) \<in> set (start_listeners listen tcp_first (start_config arg))"
  by (simp add: start_config_def start_listeners_def or_empty_def Let_def)

text \<open>
  The life of the server: a start on a running server is refused and changes nothing; a
  stop shuts down what the start built, the connection to Dart before the cache, removes
  exactly the Unix sockets, and leaves the state in which a start is possible again; and
  stopping a stopped server does nothing.
\<close>

theorem server_lifecycle:
  assumes "sv_srv sv = None"
  shows "\<exists>sv1 w1. StartGrpcServer nc dial listen tcp_first arg sv w = (0, sv1, w1) \<and>
    w_timeout w1 = cf_StreamTimeout (start_config arg) \<and>
    StartGrpcServer nc dial listen tcp_first arg' sv1 w1 = (- 1, sv1, w1) \<and>
    (\<exists>sv2. StopGrpcServer sv1 =
       ((0, Core_Close (NewCoreService nc dial (start_config arg)),
         map snd (filter (\<lambda>l. fst l = ''unix'') (start_listeners listen tcp_first (start_config arg)))), sv2) \<and>
       sv_srv sv2 = None \<and> sv_impl sv2 = None \<and>
       StopGrpcServer sv2 = ((0, [], []), sv2) \<and>
       fst (StartGrpcServer nc dial listen tcp_first arg' sv2 w1) = 0)"
  using assms
  by (auto simp: StartGrpcServer_def StopGrpcServer_def Let_def SetDefaultStreamTimeout_def)

theorem server_lifecycle_witness:
  "\<forall>w. \<exists>sv1 w1. StartGrpcServer (\<lambda>p. Some ()) (\<lambda>p. None :: unit option) (\<lambda>l. True) True
       \<lparr>arg_storagePath = Some ''/data'', arg_cachePath = None, arg_engineSocketPath = None,
        arg_engineTcpPort = None, arg_viewSocketPath = None, arg_viewTcpPort = None,
        arg_token = None, arg_enableCache = 0, arg_streamTimeout = 30\<rparr>
       \<lparr>sv_srv = None, sv_impl = None, sv_listeners = []\<rparr> w = (0, sv1, w1) \<and>
     snd (snd (fst (StopGrpcServer sv1))) = [''/data'']"
  (is "\<forall>w. \<exists>sv1 w1. StartGrpcServer ?nc ?dial ?listen True ?arg ?sv w = _ \<and> _")
proof
  fix w
  have "map snd (filter (\<lambda>l. fst l = ''unix'') (start_listeners ?listen True (start_config ?arg))) = [''/data'']"
    by (simp add: start_listeners_def start_config_def or_empty_def)
  then show "\<exists>sv1 w1. StartGrpcServer ?nc ?dial ?listen True ?arg ?sv w = (0, sv1, w1) \<and>
      snd (snd (fst (StopGrpcServer sv1))) = [''/data'']"
    using server_lifecycle [of ?sv ?nc ?dial ?listen True ?arg w ?arg] by auto
qed

end
