(* ===== verification/FfiStream.thy ===== *)
theory FfiStream
  imports Channels "HOL-Library.Multiset"
begin

text \<open>
  \<open>pkg/synurang/synurang.go\<close>: the connection that runs a generated server in the same
  process. A stream is two channels of message pointers and a channel for the error of the
  handler. A message pointer is an address of \<open>fs_heap\<close>, because a send passes the pointer on
  and only the receiver copies. An argument of type \<open>any\<close> that is no \<open>proto.Message\<close> is
  \<open>None\<close>. What a handler returns is any error: its own (\<open>HandlerErr\<close> with its text), or one it
  got from its stream and passes on, such as \<open>io.EOF\<close> (\<open>EndOfStream\<close>).
\<close>

type_synonym msg_ref = nat

datatype ctx_error = Canceled | DeadlineExceeded

datatype conn_error =
  NotProtoMessage | SendOnClosedStream | EndOfStream | HandlerErr string | CtxErr ctx_error

section \<open>Unary calls\<close>

text \<open>
  \<open>FfiClientConn.Invoke\<close>: the invoker gets the two pointers. What it does to the heap and
  the error it returns are its own.
\<close>

definition FfiClientConn_Invoke ::
    "(string \<Rightarrow> msg_ref \<Rightarrow> msg_ref \<Rightarrow> 'h \<Rightarrow> conn_error option \<times> 'h) \<Rightarrow>
     string \<Rightarrow> msg_ref option \<Rightarrow> msg_ref option \<Rightarrow> 'h \<Rightarrow> conn_error option \<times> 'h" where
  "FfiClientConn_Invoke invoker method args reply h =
     (case args of
        None \<Rightarrow> (Some NotProtoMessage, h)
      | Some req \<Rightarrow> (case reply of
                       None \<Rightarrow> (Some NotProtoMessage, h)
                     | Some resp \<Rightarrow> invoker method req resp h))"

section \<open>The client's stream\<close>

record 'm ffi_stream =
  fs_method :: string
  fs_sendCh :: "msg_ref chan"
  fs_recvCh :: "msg_ref chan"
  fs_errCh :: "conn_error chan"
  fs_ctx_err :: "ctx_error option"
  fs_closed :: bool
  fs_streamErr :: "conn_error option"
  fs_heap :: "msg_ref \<Rightarrow> 'm"

text \<open>\<open>ctx_err\<close> is the state of the caller's context, from which the stream's is derived.\<close>

definition newFfiClientStream :: "ctx_error option \<Rightarrow> string \<Rightarrow> (msg_ref \<Rightarrow> 'm) \<Rightarrow> 'm ffi_stream" where
  "newFfiClientStream ctx_err method heap =
     \<lparr>fs_method = method, fs_sendCh = make_chan 16, fs_recvCh = make_chan 16, fs_errCh = make_chan 1,
      fs_ctx_err = ctx_err, fs_closed = False, fs_streamErr = None, fs_heap = heap\<rparr>"

definition ffi_CloseSend :: "'m ffi_stream \<Rightarrow> 'm ffi_stream outcome" where
  "ffi_CloseSend s =
     (if \<not> fs_closed s
      then bind_outcome (chan_close (fs_sendCh s)) (\<lambda>c. Ret (s\<lparr>fs_closed := True, fs_sendCh := c\<rparr>))
      else Ret s)"

text \<open>\<open>SendMsg\<close>: the checks, and the select, whose panic the deferred function recovers.\<close>

definition SendMsg_check :: "msg_ref option \<Rightarrow> 'm ffi_stream \<Rightarrow> conn_error + msg_ref" where
  "SendMsg_check m s =
     (case m of
        None \<Rightarrow> Inl NotProtoMessage
      | Some r \<Rightarrow> if fs_closed s then Inl SendOnClosedStream else Inr r)"

definition ctx_branch :: "'m ffi_stream \<Rightarrow> (ctx_error \<Rightarrow> 'r) \<Rightarrow> (bool \<times> 'r) list" where
  "ctx_branch s f = (case fs_ctx_err s of None \<Rightarrow> [] | Some e \<Rightarrow> [(True, f e)])"

definition SendMsg_select :: "msg_ref \<Rightarrow> 'm ffi_stream \<Rightarrow> (conn_error option \<times> 'm ffi_stream) list" where
  "SendMsg_select r s = select_ready
     (ctx_branch s (\<lambda>e. (Some (CtxErr e), s)) @
      [(send_ready (fs_sendCh s),
        (case chan_send r (fs_sendCh s) of
           Ret c \<Rightarrow> (None, s\<lparr>fs_sendCh := c\<rparr>) | Panic p \<Rightarrow> (Some SendOnClosedStream, s)))])"

definition ffi_SendMsg :: "msg_ref option \<Rightarrow> 'm ffi_stream \<Rightarrow> (conn_error option \<times> 'm ffi_stream) list" where
  "ffi_SendMsg m s =
     (case SendMsg_check m s of Inl e \<Rightarrow> [(Some e, s)] | Inr r \<Rightarrow> SendMsg_select r s)"

text \<open>
  \<open>RecvMsg\<close>: the checks; what a ready \<open>recvCh\<close> yields (\<open>Reset\<close> and \<open>Merge\<close> make the target
  a copy of the message as it is now); the non-blocking first select; and the second one,
  after which the loop may go on.
\<close>

definition RecvMsg_check :: "msg_ref option \<Rightarrow> 'm ffi_stream \<Rightarrow> conn_error + msg_ref" where
  "RecvMsg_check m s =
     (case fs_streamErr s of
        Some e \<Rightarrow> Inl e
      | None \<Rightarrow> (case m of None \<Rightarrow> Inl NotProtoMessage | Some dst \<Rightarrow> Inr dst))"

definition copy_msg :: "msg_ref \<Rightarrow> msg_ref \<Rightarrow> 'm ffi_stream \<Rightarrow> 'm ffi_stream" where
  "copy_msg dst src s = s\<lparr>fs_heap := (fs_heap s)(dst := fs_heap s src)\<rparr>"

definition take_error :: "conn_error \<Rightarrow> conn_error chan \<Rightarrow> 'm ffi_stream \<Rightarrow> 'm ffi_stream" where
  "take_error e c s = s\<lparr>fs_errCh := c, fs_streamErr := Some e\<rparr>"

definition recv_message :: "msg_ref \<Rightarrow> 'm ffi_stream \<Rightarrow> conn_error option \<times> 'm ffi_stream" where
  "recv_message dst s =
     (case chan_recv (fs_recvCh s) of
        (Some p, c) \<Rightarrow> (None, copy_msg dst p (s\<lparr>fs_recvCh := c\<rparr>))
      | (None, c) \<Rightarrow>
          (case chan_recv (fs_errCh s) of
             (Some e, c') \<Rightarrow> (Some e, take_error e c' s)
           | (None, c') \<Rightarrow> (Some EndOfStream, s)))"

datatype 'm recv_turn = Returned "conn_error option" "'m ffi_stream" | Again "'m ffi_stream"

definition RecvMsg_phase1 :: "msg_ref \<Rightarrow> 'm ffi_stream \<Rightarrow> (conn_error option \<times> 'm ffi_stream) option" where
  "RecvMsg_phase1 dst s = (if recv_ready (fs_recvCh s) then Some (recv_message dst s) else None)"

definition RecvMsg_phase2 :: "msg_ref \<Rightarrow> 'm ffi_stream \<Rightarrow> 'm recv_turn list" where
  "RecvMsg_phase2 dst s = select_ready
     (ctx_branch s (\<lambda>e. Returned (Some (CtxErr e)) s) @
      [(recv_ready (fs_recvCh s), (case recv_message dst s of (r, s') \<Rightarrow> Returned r s')),
       (recv_ready (fs_errCh s),
        (case chan_recv (fs_errCh s) of
           (Some e, c) \<Rightarrow> Returned (Some e) (take_error e c s)
         | (None, c) \<Rightarrow> Again s))])"

text \<open>
  One call with nothing else happening in between, of at most \<open>n\<close> turns of the loop; no
  result means that it blocks or still goes round.
\<close>

fun RecvMsg_loop :: "nat \<Rightarrow> msg_ref \<Rightarrow> 'm ffi_stream \<Rightarrow> (conn_error option \<times> 'm ffi_stream) list" where
  "RecvMsg_loop 0 dst s = []"
| "RecvMsg_loop (Suc n) dst s =
     (case RecvMsg_phase1 dst s of
        Some r \<Rightarrow> [r]
      | None \<Rightarrow> concat (map (\<lambda>t. case t of Returned r s' \<Rightarrow> [(r, s')] | Again s' \<Rightarrow> RecvMsg_loop n dst s')
                            (RecvMsg_phase2 dst s)))"

definition ffi_RecvMsg :: "nat \<Rightarrow> msg_ref option \<Rightarrow> 'm ffi_stream \<Rightarrow> (conn_error option \<times> 'm ffi_stream) list" where
  "ffi_RecvMsg n m s =
     (case RecvMsg_check m s of Inl e \<Rightarrow> [(Some e, s)] | Inr dst \<Rightarrow> RecvMsg_loop n dst s)"

text \<open>
  The metadata of a stream: its header is made empty and stays so, its trailer is nil. What the
  handler sets is dropped without an error.
\<close>

definition ffi_Header :: "'m ffi_stream \<Rightarrow> conn_error option \<times> (string \<times> string list) list option" where
  "ffi_Header s = (None, Some [])"

definition ffi_Trailer :: "'m ffi_stream \<Rightarrow> (string \<times> string list) list option" where
  "ffi_Trailer s = None"

definition server_SetHeader ::
    "(string \<times> string list) list \<Rightarrow> 'm ffi_stream \<Rightarrow> conn_error option \<times> 'm ffi_stream" where
  "server_SetHeader md s = (None, s)"

definition server_SendHeader ::
    "(string \<times> string list) list \<Rightarrow> 'm ffi_stream \<Rightarrow> conn_error option \<times> 'm ffi_stream" where
  "server_SendHeader md s = (None, s)"

definition server_SetTrailer :: "(string \<times> string list) list \<Rightarrow> 'm ffi_stream \<Rightarrow> 'm ffi_stream" where
  "server_SetTrailer md s = s"

section \<open>The server's stream\<close>

text \<open>A send of the handler: without the recover, so that a send on a closed channel panics.\<close>

definition server_SendMsg :: "msg_ref option \<Rightarrow> 'm ffi_stream \<Rightarrow> (conn_error option \<times> 'm ffi_stream) outcome list" where
  "server_SendMsg m s =
     (case m of
        None \<Rightarrow> [Ret (Some NotProtoMessage, s)]
      | Some r \<Rightarrow> select_ready
          (ctx_branch s (\<lambda>e. Ret (Some (CtxErr e), s)) @
           [(send_ready (fs_recvCh s),
             bind_outcome (chan_send r (fs_recvCh s)) (\<lambda>c. Ret (None, s\<lparr>fs_recvCh := c\<rparr>)))]))"

text \<open>
  The two receives of the handler. The first checks the type of its target only after it
  has taken the message.
\<close>

definition server_RecvMsg :: "msg_ref option \<Rightarrow> 'm ffi_stream \<Rightarrow> (conn_error option \<times> 'm ffi_stream) list" where
  "server_RecvMsg m s = select_ready
     (ctx_branch s (\<lambda>e. (Some (CtxErr e), s)) @
      [(recv_ready (fs_sendCh s),
        (case chan_recv (fs_sendCh s) of
           (None, c) \<Rightarrow> (Some EndOfStream, s)
         | (Some p, c) \<Rightarrow>
             (let s' = s\<lparr>fs_sendCh := c\<rparr> in
              case m of None \<Rightarrow> (Some NotProtoMessage, s') | Some dst \<Rightarrow> (None, copy_msg dst p s'))))])"

definition server_RecvMsgDirect :: "'m ffi_stream \<Rightarrow> ((conn_error + msg_ref) \<times> 'm ffi_stream) list" where
  "server_RecvMsgDirect s = select_ready
     (ctx_branch s (\<lambda>e. (Inl (CtxErr e), s)) @
      [(recv_ready (fs_sendCh s),
        (case chan_recv (fs_sendCh s) of
           (None, c) \<Rightarrow> (Inl EndOfStream, s) | (Some p, c) \<Rightarrow> (Inr p, s\<lparr>fs_sendCh := c\<rparr>)))])"

text \<open>
  What the goroutine of the handler does after it returned: it reports an error without
  blocking, and closes the two channels, the one for the error first.
\<close>

definition report_error :: "conn_error option \<Rightarrow> 'm ffi_stream \<Rightarrow> 'm ffi_stream" where
  "report_error err s =
     (case err of
        None \<Rightarrow> s
      | Some e \<Rightarrow>
          if send_ready (fs_errCh s)
          then (case chan_send e (fs_errCh s) of Ret c \<Rightarrow> s\<lparr>fs_errCh := c\<rparr> | Panic p \<Rightarrow> s)
          else s)"

definition close_errCh :: "'m ffi_stream \<Rightarrow> 'm ffi_stream outcome" where
  "close_errCh s = bind_outcome (chan_close (fs_errCh s)) (\<lambda>c. Ret (s\<lparr>fs_errCh := c\<rparr>))"

definition close_recvCh :: "'m ffi_stream \<Rightarrow> 'm ffi_stream outcome" where
  "close_recvCh s = bind_outcome (chan_close (fs_recvCh s)) (\<lambda>c. Ret (s\<lparr>fs_recvCh := c\<rparr>))"

section \<open>The step relation\<close>

text \<open>
  One stream with its caller and its handler. gRPC allows one \<open>RecvMsg\<close> at a time, whose
  place in the code is \<open>fc_recv\<close>; the sends between their check and their select are the
  multiset \<open>fc_sending\<close>. The handler uses the stream until it returns. The lists record the
  messages in the order in which they went in and out.
\<close>

datatype recv_pc = RecvIdle | RecvPhase1 msg_ref | RecvPhase2 msg_ref

datatype handler_pc = Running | Reported | ErrChClosed | Finished

record 'm ffi_conf =
  fc_s :: "'m ffi_stream"
  fc_recv :: recv_pc
  fc_sending :: "msg_ref multiset"
  fc_handler :: handler_pc
  fc_result :: "conn_error option"
  fc_sent :: "msg_ref list"
  fc_taken :: "msg_ref list"
  fc_out :: "msg_ref list"
  fc_got :: nat

definition ffi_init :: "ctx_error option \<Rightarrow> string \<Rightarrow> (msg_ref \<Rightarrow> 'm) \<Rightarrow> 'm ffi_conf" where
  "ffi_init ctx_err method heap =
     \<lparr>fc_s = newFfiClientStream ctx_err method heap, fc_recv = RecvIdle, fc_sending = {#},
      fc_handler = Running, fc_result = None, fc_sent = [], fc_taken = [], fc_out = [], fc_got = 0\<rparr>"

text \<open>What one turn of \<open>RecvMsg\<close> does, at the place where it is.\<close>

fun recv_turns :: "recv_pc \<Rightarrow> 'm ffi_stream \<Rightarrow> (conn_error option option \<times> recv_pc \<times> 'm ffi_stream) list" where
  "recv_turns RecvIdle s = []"
| "recv_turns (RecvPhase1 dst) s =
     (case RecvMsg_phase1 dst s of
        Some (r, s') \<Rightarrow> [(Some r, RecvIdle, s')] | None \<Rightarrow> [(None, RecvPhase2 dst, s)])"
| "recv_turns (RecvPhase2 dst) s =
     map (\<lambda>t. case t of Returned r s' \<Rightarrow> (Some r, RecvIdle, s') | Again s' \<Rightarrow> (None, RecvPhase1 dst, s'))
       (RecvMsg_phase2 dst s)"

inductive ffi_step :: "'m ffi_conf \<Rightarrow> 'm ffi_conf \<Rightarrow> bool" where
  fs_send: "SendMsg_check m (fc_s c) = Inr r \<Longrightarrow> ffi_step c (c\<lparr>fc_sending := add_mset r (fc_sending c)\<rparr>)"
| fs_sent: "r \<in># fc_sending c \<Longrightarrow> (None, s) \<in> set (SendMsg_select r (fc_s c)) \<Longrightarrow>
     ffi_step c (c\<lparr>fc_s := s, fc_sending := fc_sending c - {#r#}, fc_sent := fc_sent c @ [r]\<rparr>)"
| fs_not_sent: "r \<in># fc_sending c \<Longrightarrow> (Some e, s) \<in> set (SendMsg_select r (fc_s c)) \<Longrightarrow>
     ffi_step c (c\<lparr>fc_s := s, fc_sending := fc_sending c - {#r#}\<rparr>)"
| fs_close_send: "ffi_CloseSend (fc_s c) = Ret s \<Longrightarrow> ffi_step c (c\<lparr>fc_s := s\<rparr>)"
| fs_recv: "fc_recv c = RecvIdle \<Longrightarrow> RecvMsg_check m (fc_s c) = Inr dst \<Longrightarrow>
     ffi_step c (c\<lparr>fc_recv := RecvPhase1 dst\<rparr>)"
| fs_recv_turn: "(r, pc, s) \<in> set (recv_turns (fc_recv c) (fc_s c)) \<Longrightarrow>
     ffi_step c (c\<lparr>fc_s := s, fc_recv := pc, fc_got := (if r = Some None then Suc (fc_got c) else fc_got c)\<rparr>)"
| fs_cancel: "fs_ctx_err (fc_s c) = None \<Longrightarrow> ffi_step c (c\<lparr>fc_s := (fc_s c)\<lparr>fs_ctx_err := Some e\<rparr>\<rparr>)"
| fs_write: "ffi_step c (c\<lparr>fc_s := (fc_s c)\<lparr>fs_heap := h\<rparr>\<rparr>)"
| fs_handler_send: "fc_handler c = Running \<Longrightarrow> Ret (None, s) \<in> set (server_SendMsg (Some r) (fc_s c)) \<Longrightarrow>
     ffi_step c (c\<lparr>fc_s := s, fc_out := fc_out c @ [r]\<rparr>)"
| fs_handler_recv: "fc_handler c = Running \<Longrightarrow> (Inr r, s) \<in> set (server_RecvMsgDirect (fc_s c)) \<Longrightarrow>
     ffi_step c (c\<lparr>fc_s := s, fc_taken := fc_taken c @ [r]\<rparr>)"
| fs_handler_recv_copy: "fc_handler c = Running \<Longrightarrow> (r, s) \<in> set (server_RecvMsg m (fc_s c)) \<Longrightarrow>
     ch_buf (fs_sendCh (fc_s c)) = p # ch_buf (fs_sendCh s) \<Longrightarrow>
     ffi_step c (c\<lparr>fc_s := s, fc_taken := fc_taken c @ [p]\<rparr>)"
| fs_handler_return: "fc_handler c = Running \<Longrightarrow>
     ffi_step c (c\<lparr>fc_s := report_error err (fc_s c), fc_handler := Reported, fc_result := err\<rparr>)"
| fs_err_closed: "fc_handler c = Reported \<Longrightarrow> close_errCh (fc_s c) = Ret s \<Longrightarrow>
     ffi_step c (c\<lparr>fc_s := s, fc_handler := ErrChClosed\<rparr>)"
| fs_finished: "fc_handler c = ErrChClosed \<Longrightarrow> close_recvCh (fc_s c) = Ret s \<Longrightarrow>
     ffi_step c (c\<lparr>fc_s := s, fc_handler := Finished\<rparr>)"

inductive ffi_reachable :: "'m ffi_conf \<Rightarrow> bool" where
  fr_init: "ffi_reachable (ffi_init ctx_err method heap)"
| fr_step: "ffi_reachable c \<Longrightarrow> ffi_step c c' \<Longrightarrow> ffi_reachable c'"

end
