(* ===== verification/FfiStreamProps.thy ===== *)
theory FfiStreamProps
  imports FfiStream
begin

text \<open>
  What the in-process stream guarantees: the order and completeness of messages, the
  meaning of the end of a stream, that nothing panics, and where an error overtakes data.
\<close>

section \<open>The invariant\<close>

definition chans_ok :: "'m ffi_stream \<Rightarrow> bool" where
  "chans_ok s \<longleftrightarrow> ch_cap (fs_sendCh s) = 16 \<and> ch_cap (fs_recvCh s) = 16 \<and> ch_cap (fs_errCh s) = 1 \<and>
     chan_wf (fs_sendCh s) \<and> chan_wf (fs_recvCh s) \<and> ch_closed (fs_sendCh s) = fs_closed s"

text \<open>Where the handler's error is: in its channel, or taken and stored.\<close>

definition error_ok :: "conn_error option \<Rightarrow> conn_error list \<Rightarrow> conn_error option \<Rightarrow> bool" where
  "error_ok res queued stored \<longleftrightarrow>
     (case res of
        None \<Rightarrow> queued = [] \<and> stored = None
      | Some e \<Rightarrow> queued = [e] \<and> stored = None \<or> queued = [] \<and> stored = Some e)"

definition ffi_inv :: "'m ffi_conf \<Rightarrow> bool" where
  "ffi_inv c \<longleftrightarrow> chans_ok (fc_s c) \<and> error_ok (fc_result c) (ch_buf (fs_errCh (fc_s c))) (fs_streamErr (fc_s c)) \<and>
     fc_sent c = fc_taken c @ ch_buf (fs_sendCh (fc_s c)) \<and>
     fc_got c \<le> length (fc_out c) \<and> ch_buf (fs_recvCh (fc_s c)) = drop (fc_got c) (fc_out c) \<and>
     ch_closed (fs_recvCh (fc_s c)) = (fc_handler c = Finished) \<and>
     ch_closed (fs_errCh (fc_s c)) = (fc_handler c = ErrChClosed \<or> fc_handler c = Finished) \<and>
     (fc_handler c = Running \<longrightarrow> fc_result c = None) \<and>
     (fc_recv c \<noteq> RecvIdle \<longrightarrow> fs_streamErr (fc_s c) = None)"

lemma ffi_init_inv: "ffi_inv (ffi_init ctx_err method heap)"
  by (simp add: ffi_inv_def ffi_init_def newFfiClientStream_def chans_ok_def error_ok_def)

lemma in_ctx_branch: "(b, x) \<in> set (ctx_branch s f) \<longleftrightarrow> (\<exists>e. fs_ctx_err s = Some e \<and> b \<and> x = f e)"
  by (cases "fs_ctx_err s") (auto simp: ctx_branch_def)

lemma drop_eq_Cons: "drop n xs = y # ys \<Longrightarrow> n < length xs \<and> drop (Suc n) xs = ys"
  by (metis drop_Suc drop_eq_Nil drop_tl linorder_not_less list.distinct(1) list.sel(3))

lemma SendMsg_selectE:
  assumes "(r, s') \<in> set (SendMsg_select m s)"
  obtains (ctx) e where "r = Some (CtxErr e)" "s' = s" "fs_ctx_err s = Some e"
    | (closed) "r = Some SendOnClosedStream" "s' = s" "ch_closed (fs_sendCh s)"
    | (sent) "r = None" "s' = s\<lparr>fs_sendCh := (fs_sendCh s)\<lparr>ch_buf := ch_buf (fs_sendCh s) @ [m]\<rparr>\<rparr>"
        "\<not> ch_closed (fs_sendCh s)" "length (ch_buf (fs_sendCh s)) < ch_cap (fs_sendCh s)"
  using assms
  by (auto simp: SendMsg_select_def set_select_ready in_ctx_branch chan_send_def send_ready_def split: if_splits)

lemma recv_message_cases:
  "recv_message dst s =
     (case ch_buf (fs_recvCh s) of
        p # ps \<Rightarrow> (None, copy_msg dst p (s\<lparr>fs_recvCh := (fs_recvCh s)\<lparr>ch_buf := ps\<rparr>\<rparr>))
      | [] \<Rightarrow> (case ch_buf (fs_errCh s) of
                e # es \<Rightarrow> (Some e, take_error e ((fs_errCh s)\<lparr>ch_buf := es\<rparr>) s)
              | [] \<Rightarrow> (Some EndOfStream, s)))"
  by (simp add: recv_message_def split: list.splits)

text \<open>The ways in which a turn of \<open>RecvMsg\<close> can end.\<close>

lemma recv_turnsE:
  assumes "(r, pc, s') \<in> set (recv_turns pc0 s)"
  obtains (wait) dst where "r = None" "s' = s" "pc0 \<noteq> RecvIdle" "pc \<noteq> RecvIdle"
    | (ctx) e where "r = Some (Some (CtxErr e))" "s' = s" "pc = RecvIdle" "fs_ctx_err s = Some e"
    | (got) dst p ps where "r = Some None" "pc = RecvIdle" "ch_buf (fs_recvCh s) = p # ps"
        "s' = copy_msg dst p (s\<lparr>fs_recvCh := (fs_recvCh s)\<lparr>ch_buf := ps\<rparr>\<rparr>)"
    | (err) e es where "r = Some (Some e)" "pc = RecvIdle" "ch_buf (fs_errCh s) = e # es"
        "s' = take_error e ((fs_errCh s)\<lparr>ch_buf := es\<rparr>) s" "pc0 \<noteq> RecvIdle"
    | (eof) "r = Some (Some EndOfStream)" "pc = RecvIdle" "s' = s" "pc0 \<noteq> RecvIdle"
        "ch_buf (fs_recvCh s) = []" "ch_closed (fs_recvCh s)" "ch_buf (fs_errCh s) = []"
proof (cases pc0)
  case RecvIdle
  with assms show thesis by simp
next
  case (RecvPhase1 dst)
  with assms that show thesis
    by (auto simp: RecvMsg_phase1_def recv_message_cases recv_ready_def split: if_splits list.splits)
next
  case (RecvPhase2 dst)
  with assms that show thesis
    by (auto simp: RecvMsg_phase2_def set_select_ready in_ctx_branch recv_message_cases recv_ready_def
        split: if_splits list.splits)
qed

lemma server_RecvMsg_popped:
  assumes "(r, s') \<in> set (server_RecvMsg m s)" and "ch_buf (fs_sendCh s) = p # ch_buf (fs_sendCh s')"
  shows "\<exists>h. s' = s\<lparr>fs_sendCh := (fs_sendCh s)\<lparr>ch_buf := ch_buf (fs_sendCh s')\<rparr>, fs_heap := h\<rparr>"
proof -
  have ne: "s' \<noteq> s" using assms(2) by auto
  show ?thesis
  proof (cases m)
    case None
    with assms ne have "s' = s\<lparr>fs_sendCh := (fs_sendCh s)\<lparr>ch_buf := ch_buf (fs_sendCh s')\<rparr>\<rparr>"
      by (auto simp: server_RecvMsg_def set_select_ready in_ctx_branch Let_def)
    moreover have "s\<lparr>fs_sendCh := c\<rparr> = s\<lparr>fs_sendCh := c, fs_heap := fs_heap s\<rparr>" for c by simp
    ultimately show ?thesis by metis
  next
    case (Some dst)
    with assms ne have "s' = copy_msg dst p (s\<lparr>fs_sendCh := (fs_sendCh s)\<lparr>ch_buf := ch_buf (fs_sendCh s')\<rparr>\<rparr>)"
      by (auto simp: server_RecvMsg_def set_select_ready in_ctx_branch Let_def)
    then show ?thesis unfolding copy_msg_def by (intro exI) simp
  qed
qed

lemma ffi_step_inv: "ffi_step c c' \<Longrightarrow> ffi_inv c \<Longrightarrow> ffi_inv c'"
proof (induction rule: ffi_step.induct)
  case (fs_sent r c s)
  from fs_sent(2) show ?case
    by (cases rule: SendMsg_selectE)
      (use fs_sent in \<open>auto simp: ffi_inv_def chans_ok_def chan_wf_def\<close>)
next
  case (fs_not_sent r c e s)
  from fs_not_sent(2) show ?case
    by (cases rule: SendMsg_selectE) (use fs_not_sent in \<open>auto simp: ffi_inv_def\<close>)
next
  case (fs_close_send c s)
  then show ?case
    by (auto simp: ffi_inv_def chans_ok_def chan_wf_def ffi_CloseSend_def chan_close_def split: if_splits)
next
  case (fs_recv c m dst)
  then show ?case by (auto simp: ffi_inv_def RecvMsg_check_def split: option.splits)
next
  case (fs_recv_turn r pc s c)
  from fs_recv_turn(1) show ?case
  proof (cases rule: recv_turnsE)
    case (got dst p ps)
    with fs_recv_turn have "fc_got c < length (fc_out c) \<and> drop (Suc (fc_got c)) (fc_out c) = ps"
      by (intro drop_eq_Cons [of _ _ p]) (simp add: ffi_inv_def)
    with got fs_recv_turn show ?thesis
      by (auto simp: ffi_inv_def chans_ok_def chan_wf_def copy_msg_def)
  next
    case (err e es)
    with fs_recv_turn show ?thesis
      by (auto simp: ffi_inv_def chans_ok_def error_ok_def take_error_def split: option.splits)
  qed (use fs_recv_turn in \<open>auto simp: ffi_inv_def\<close>)
next
  case (fs_handler_send c s r)
  then show ?case
    by (auto simp: ffi_inv_def chans_ok_def chan_wf_def server_SendMsg_def set_select_ready
        in_ctx_branch chan_send_def send_ready_def)
next
  case (fs_handler_recv c r s)
  then show ?case
    by (auto simp: ffi_inv_def chans_ok_def chan_wf_def server_RecvMsgDirect_def set_select_ready
        in_ctx_branch split: list.splits)
next
  case (fs_handler_recv_copy c r s m p)
  obtain h where h: "s = (fc_s c)\<lparr>fs_sendCh := (fs_sendCh (fc_s c))\<lparr>ch_buf := ch_buf (fs_sendCh s)\<rparr>, fs_heap := h\<rparr>"
    using server_RecvMsg_popped [OF fs_handler_recv_copy(2,3)] by blast
  define ps where "ps = ch_buf (fs_sendCh s)"
  have "s = (fc_s c)\<lparr>fs_sendCh := (fs_sendCh (fc_s c))\<lparr>ch_buf := ps\<rparr>, fs_heap := h\<rparr>"
    and "ch_buf (fs_sendCh (fc_s c)) = p # ps"
    using h fs_handler_recv_copy(3) by (simp_all add: ps_def)
  with fs_handler_recv_copy(4) show ?case by (auto simp: ffi_inv_def chans_ok_def chan_wf_def)
next
  case (fs_handler_return c err)
  then show ?case
    by (auto simp: ffi_inv_def chans_ok_def chan_wf_def error_ok_def report_error_def chan_send_def
        send_ready_def split: option.splits)
next
  case (fs_err_closed c s)
  then show ?case
    by (auto simp: ffi_inv_def chans_ok_def chan_wf_def close_errCh_def chan_close_def
        split: option.splits)
next
  case (fs_finished c s)
  then show ?case
    by (auto simp: ffi_inv_def chans_ok_def chan_wf_def close_recvCh_def chan_close_def
        split: option.splits)
qed (auto simp: ffi_inv_def chans_ok_def chan_wf_def split: option.splits)

lemma ffi_reachable_inv: "ffi_reachable c \<Longrightarrow> ffi_inv c"
  by (induction rule: ffi_reachable.induct) (auto intro: ffi_init_inv ffi_step_inv)

section \<open>Receiving what is left\<close>

text \<open>The results of \<open>n\<close> calls of \<open>RecvMsg\<close> into \<open>dst\<close>, each with the contents of the target.\<close>

fun drain :: "nat \<Rightarrow> msg_ref \<Rightarrow> 'm ffi_stream \<Rightarrow> (conn_error option \<times> 'm) list" where
  "drain 0 dst s = []"
| "drain (Suc n) dst s =
     (case ffi_RecvMsg 1 (Some dst) s of
        [] \<Rightarrow> [] | (r, s') # rs \<Rightarrow> (r, fs_heap s' dst) # drain n dst s')"

lemma ffi_RecvMsg_queued:
  "fs_streamErr s = None \<Longrightarrow> ch_buf (fs_recvCh s) = p # ps \<Longrightarrow>
     ffi_RecvMsg (Suc n) (Some dst) s = [(None, copy_msg dst p (s\<lparr>fs_recvCh := (fs_recvCh s)\<lparr>ch_buf := ps\<rparr>\<rparr>))]"
  by (simp add: ffi_RecvMsg_def RecvMsg_check_def RecvMsg_phase1_def recv_ready_def recv_message_cases)

definition end_of :: "conn_error option \<Rightarrow> conn_error" where
  "end_of res = (case res of None \<Rightarrow> EndOfStream | Some e \<Rightarrow> e)"

lemma drain_ended:
  assumes "ch_closed (fs_recvCh s)" and "ch_buf (fs_recvCh s) = []"
    and "error_ok res (ch_buf (fs_errCh s)) (fs_streamErr s)"
  shows "map fst (drain k dst s) = replicate k (Some (end_of res))"
  using assms
proof (induction k arbitrary: s)
  case 0
  then show ?case by simp
next
  case (Suc k)
  show ?case
  proof (cases "fs_streamErr s")
    case (Some e)
    with Suc show ?thesis
      by (auto simp: ffi_RecvMsg_def RecvMsg_check_def error_ok_def end_of_def split: option.splits)
  next
    case None
    show ?thesis
    proof (cases res)
      case None
      with Suc \<open>fs_streamErr s = None\<close> show ?thesis
        by (simp add: ffi_RecvMsg_def RecvMsg_check_def RecvMsg_phase1_def recv_ready_def
            recv_message_cases error_ok_def end_of_def)
    next
      case (Some e)
      let ?s = "take_error e ((fs_errCh s)\<lparr>ch_buf := []\<rparr>) s"
      have "ffi_RecvMsg 1 (Some dst) s = [(Some e, ?s)]"
        using Suc.prems Some None
        by (simp add: ffi_RecvMsg_def RecvMsg_check_def RecvMsg_phase1_def recv_ready_def
            recv_message_cases error_ok_def)
      moreover have "map fst (drain k dst ?s) = replicate k (Some (end_of res))"
        using Suc.prems Some by (intro Suc.IH) (simp_all add: take_error_def error_ok_def)
      ultimately show ?thesis using Some by (simp add: end_of_def)
    qed
  qed
qed

lemma drain_queue:
  assumes "ch_closed (fs_recvCh s)" and "fs_streamErr s = None"
    and "error_ok res (ch_buf (fs_errCh s)) None" and "dst \<notin> set (ch_buf (fs_recvCh s))"
  shows "map fst (drain (length (ch_buf (fs_recvCh s)) + k) dst s) =
       replicate (length (ch_buf (fs_recvCh s))) None @ replicate k (Some (end_of res)) \<and>
     map snd (take (length (ch_buf (fs_recvCh s))) (drain (length (ch_buf (fs_recvCh s)) + k) dst s)) =
       map (fs_heap s) (ch_buf (fs_recvCh s))"
  using assms
proof (induction "ch_buf (fs_recvCh s)" arbitrary: s)
  case Nil
  from Nil(1) [symmetric] show ?case using drain_ended [of s res k dst] Nil by simp
next
  case (Cons p ps)
  let ?s = "copy_msg dst p (s\<lparr>fs_recvCh := (fs_recvCh s)\<lparr>ch_buf := ps\<rparr>\<rparr>)"
  note buf = Cons.hyps(2) [symmetric]
  have "ps = ch_buf (fs_recvCh ?s)" by (simp add: copy_msg_def)
  from Cons.hyps(1) [OF this] Cons.prems
  have IH: "map fst (drain (length ps + k) dst ?s) = replicate (length ps) None @ replicate k (Some (end_of res)) \<and>
      map snd (take (length ps) (drain (length ps + k) dst ?s)) = map (fs_heap ?s) ps"
    by (simp add: copy_msg_def buf)
  have "map (fs_heap ?s) ps = map (fs_heap s) ps"
    using Cons.prems(4) by (auto simp: copy_msg_def buf)
  with IH show ?case
    using ffi_RecvMsg_queued [OF Cons.prems(2) buf, of 0 dst]
    by (simp add: buf) (simp add: copy_msg_def)
qed

text \<open>Once an error is stored, no message is received any more.\<close>

lemma failed_stays:
  assumes "ffi_step\<^sup>*\<^sup>* c c'" and "fs_streamErr (fc_s c) = Some e" and "fc_recv c = RecvIdle"
  shows "fs_streamErr (fc_s c') = Some e \<and> fc_recv c' = RecvIdle \<and> fc_got c' = fc_got c"
  using assms
proof (induction rule: rtranclp_induct)
  case (step c1 c2)
  then have c1: "fs_streamErr (fc_s c1) = Some e" "fc_recv c1 = RecvIdle" "fc_got c1 = fc_got c" by auto
  from step.hyps(2) have "fs_streamErr (fc_s c2) = Some e \<and> fc_recv c2 = RecvIdle \<and> fc_got c2 = fc_got c1"
  proof cases
    case (fs_sent r s)
    from fs_sent(3) show ?thesis by (cases rule: SendMsg_selectE) (use fs_sent c1 in auto)
  next
    case (fs_not_sent r e' s)
    from fs_not_sent(3) show ?thesis by (cases rule: SendMsg_selectE) (use fs_not_sent c1 in auto)
  next
    case (fs_handler_recv_copy r s m p)
    from server_RecvMsg_popped [OF fs_handler_recv_copy(3,4)] obtain h where
      "s = (fc_s c1)\<lparr>fs_sendCh := (fs_sendCh (fc_s c1))\<lparr>ch_buf := ch_buf (fs_sendCh s)\<rparr>, fs_heap := h\<rparr>" by blast
    then have "fs_streamErr s = fs_streamErr (fc_s c1)"
      by (metis ffi_stream.surjective ffi_stream.select_convs(7) ffi_stream.update_convs(2,8))
    with fs_handler_recv_copy c1 show ?thesis by simp
  qed (use c1 in \<open>auto simp: ffi_CloseSend_def RecvMsg_check_def server_SendMsg_def server_RecvMsgDirect_def
      set_select_ready in_ctx_branch go_simps report_error_def close_errCh_def close_recvCh_def
      chan_send_def split: if_splits option.splits list.splits prod.splits outcome.splits\<close>)
  with c1 show ?case by simp
qed simp

section \<open>A concrete stream\<close>

text \<open>
  The handler sends the message 7 while the caller waits in \<open>RecvMsg\<close> for a message into 9,
  and fails; its goroutine closes the channels.
\<close>

definition demo_start :: "nat ffi_conf" where
  "demo_start = ffi_init None ''/s/M'' (\<lambda>r. r)"

definition demo_waiting :: "nat ffi_conf" where
  "demo_waiting = demo_start\<lparr>fc_recv := RecvPhase2 9\<rparr>"

definition demo_out :: "nat ffi_conf" where
  "demo_out = demo_waiting\<lparr>fc_s := (fc_s demo_waiting)\<lparr>fs_recvCh := (make_chan 16)\<lparr>ch_buf := [7]\<rparr>\<rparr>, fc_out := [7]\<rparr>"

definition demo_failed :: "nat ffi_conf" where
  "demo_failed = demo_out\<lparr>fc_s := (fc_s demo_out)\<lparr>fs_errCh := (make_chan 1)\<lparr>ch_buf := [HandlerErr ''e'']\<rparr>\<rparr>,
     fc_handler := Reported, fc_result := Some (HandlerErr ''e'')\<rparr>"

definition demo_done :: "nat ffi_conf" where
  "demo_done = demo_failed\<lparr>fc_s := (fc_s demo_failed)\<lparr>fs_errCh := (make_chan 1)\<lparr>ch_buf := [HandlerErr ''e''], ch_closed := True\<rparr>,
     fs_recvCh := (make_chan 16)\<lparr>ch_buf := [7], ch_closed := True\<rparr>\<rparr>, fc_handler := Finished\<rparr>"

lemmas demo_defs = demo_start_def demo_waiting_def demo_out_def demo_failed_def demo_done_def
  ffi_init_def newFfiClientStream_def

lemma demo_waiting_reachable: "ffi_reachable demo_waiting"
proof -
  have 1: "ffi_step demo_start (demo_start\<lparr>fc_recv := RecvPhase1 9\<rparr>)"
    by (rule fs_recv [of _ "Some 9"]) (simp_all add: demo_defs RecvMsg_check_def)
  have "ffi_step (demo_start\<lparr>fc_recv := RecvPhase1 9\<rparr>)
      ((demo_start\<lparr>fc_recv := RecvPhase1 9\<rparr>)\<lparr>fc_s := fc_s demo_start, fc_recv := RecvPhase2 9,
        fc_got := (if (None :: conn_error option option) = Some None then Suc 0 else fc_got (demo_start\<lparr>fc_recv := RecvPhase1 9\<rparr>))\<rparr>)"
    using fs_recv_turn [of None "RecvPhase2 9" "fc_s demo_start" "demo_start\<lparr>fc_recv := RecvPhase1 9\<rparr>"]
    by (simp add: demo_defs RecvMsg_phase1_def recv_ready_def)
  then have 2: "ffi_step (demo_start\<lparr>fc_recv := RecvPhase1 9\<rparr>) demo_waiting"
    by (simp add: demo_defs)
  have "ffi_reachable demo_start" unfolding demo_start_def by (rule fr_init)
  from fr_step [OF fr_step [OF this 1] 2] show ?thesis .
qed

lemma demo_out_reachable: "ffi_reachable demo_out"
proof -
  have "ffi_step demo_waiting demo_out"
    unfolding demo_out_def
    using fs_handler_send [of demo_waiting "(fc_s demo_waiting)\<lparr>fs_recvCh := (make_chan 16)\<lparr>ch_buf := [7]\<rparr>\<rparr>" 7]
    by (simp add: demo_defs server_SendMsg_def ctx_branch_def send_ready_def chan_send_def)
  with demo_waiting_reachable show ?thesis by (rule fr_step)
qed

lemma demo_failed_reachable: "ffi_reachable demo_failed"
proof -
  have "ffi_step demo_out demo_failed"
    using fs_handler_return [of demo_out "Some (HandlerErr ''e'')"]
    by (simp add: demo_defs report_error_def send_ready_def chan_send_def)
  with demo_out_reachable show ?thesis by (rule fr_step)
qed

text \<open>The same, with a handler that passes on the \<open>io.EOF\<close> of its stream.\<close>

definition demo_eof :: "nat ffi_conf" where
  "demo_eof = demo_out\<lparr>fc_s := (fc_s demo_out)\<lparr>fs_errCh := (make_chan 1)\<lparr>ch_buf := [EndOfStream]\<rparr>\<rparr>,
     fc_handler := Reported, fc_result := Some EndOfStream\<rparr>"

lemma demo_eof_reachable: "ffi_reachable demo_eof"
proof -
  have "ffi_step demo_out demo_eof"
    using fs_handler_return [of demo_out "Some EndOfStream"]
    by (simp add: demo_eof_def demo_defs report_error_def send_ready_def chan_send_def)
  with demo_out_reachable show ?thesis by (rule fr_step)
qed

lemma demo_done_reachable: "ffi_reachable demo_done"
proof -
  have 1: "ffi_step demo_failed (demo_failed\<lparr>fc_s := (fc_s demo_failed)\<lparr>fs_errCh := (make_chan 1)\<lparr>ch_buf := [HandlerErr ''e''], ch_closed := True\<rparr>\<rparr>,
      fc_handler := ErrChClosed\<rparr>)" (is "ffi_step _ ?c")
    by (rule fs_err_closed) (simp_all add: demo_defs close_errCh_def chan_close_def)
  have "ffi_step ?c (?c\<lparr>fc_s := (fc_s ?c)\<lparr>fs_recvCh := (make_chan 16)\<lparr>ch_buf := [7], ch_closed := True\<rparr>\<rparr>, fc_handler := Finished\<rparr>)"
    by (rule fs_finished) (simp_all add: demo_defs close_recvCh_def chan_close_def)
  then have 2: "ffi_step ?c demo_done" by (simp add: demo_defs)
  from fr_step [OF fr_step [OF demo_failed_reachable 1] 2] show ?thesis .
qed

section \<open>Properties\<close>

text \<open>
  C5. Both directions of an in-process stream are queues of at most 16 messages: what the
  handler has taken is a prefix of what the caller has sent, what the caller has received is a
  prefix of what the handler has sent, and the rest is in the channels, in order. This holds
  whatever the interleaving, with cancellations, closes and concurrent sends.
\<close>

theorem ffi_stream_fifo:
  assumes "ffi_reachable c"
  shows "fc_sent c = fc_taken c @ ch_buf (fs_sendCh (fc_s c)) \<and>
    fc_out c = take (fc_got c) (fc_out c) @ ch_buf (fs_recvCh (fc_s c)) \<and>
    length (ch_buf (fs_sendCh (fc_s c))) \<le> 16 \<and> length (ch_buf (fs_recvCh (fc_s c))) \<le> 16"
  using ffi_reachable_inv [OF assms] by (auto simp: ffi_inv_def chans_ok_def chan_wf_def)

text \<open>
  C14. What the end of a stream means to the caller: whatever error a \<open>RecvMsg\<close> reports is that
  of the caller's context, the error that the handler returned, or the regular end. The
  regular end, which is \<open>io.EOF\<close>, stands for a handler that returned without an error and
  whose messages have all been received. A handler that returns \<open>io.EOF\<close> itself, as the
  generated dispatcher does when the caller closes without a request, is reported in the same
  way, though messages may be left. The handler's error is reported again by every later call.
\<close>

theorem ffi_recv_end:
  assumes "ffi_reachable c" and "(Some (Some e), pc, s) \<in> set (recv_turns (fc_recv c) (fc_s c))"
  shows "(\<exists>x. e = CtxErr x \<and> fs_ctx_err (fc_s c) = Some x) \<or>
    (fc_handler c \<noteq> Running \<and> fc_result c = Some e \<and> (\<forall>m. RecvMsg_check m s = Inl e)) \<or>
    (e = EndOfStream \<and> fc_handler c = Finished \<and> fc_result c = None \<and> fc_got c = length (fc_out c))"
  using assms(2)
proof (cases rule: recv_turnsE)
  case (err e' es)
  with ffi_reachable_inv [OF assms(1)] show ?thesis
    by (auto simp: ffi_inv_def error_ok_def RecvMsg_check_def take_error_def split: option.splits)
next
  case eof
  with ffi_reachable_inv [OF assms(1)] show ?thesis
    by (auto simp: ffi_inv_def error_ok_def split: option.splits)
qed auto

text \<open>
  C23. Nothing is lost once the handler has returned: a caller that then calls \<open>RecvMsg\<close> again
  and again gets every message that is left, in order and with its contents, and after them,
  from every call, the handler's error or the regular end. No call blocks, also when the
  context has been cancelled.
\<close>

theorem ffi_recv_drains:
  assumes "ffi_reachable c" and "fc_handler c = Finished" and "fs_streamErr (fc_s c) = None"
    and "dst \<notin> set (ch_buf (fs_recvCh (fc_s c)))"
  shows "map fst (drain (length (fc_out c) - fc_got c + k) dst (fc_s c)) =
      replicate (length (fc_out c) - fc_got c) None @
      replicate k (Some (case fc_result c of None \<Rightarrow> EndOfStream | Some e \<Rightarrow> e)) \<and>
    map snd (take (length (fc_out c) - fc_got c) (drain (length (fc_out c) - fc_got c + k) dst (fc_s c))) =
      map (fs_heap (fc_s c)) (drop (fc_got c) (fc_out c))"
proof -
  have inv: "ffi_inv c" by (rule ffi_reachable_inv [OF assms(1)])
  then have buf: "ch_buf (fs_recvCh (fc_s c)) = drop (fc_got c) (fc_out c)" by (simp add: ffi_inv_def)
  have "ch_closed (fs_recvCh (fc_s c))"
    "error_ok (fc_result c) (ch_buf (fs_errCh (fc_s c))) None"
    using inv assms(2,3) by (simp_all add: ffi_inv_def)
  from drain_queue [OF this(1) assms(3) this(2) assms(4), of k] show ?thesis
    by (simp add: buf end_of_def)
qed

text \<open>
  C15. Nothing panics: \<open>CloseSend\<close> may be called at any time and any number of times, a send
  of the caller that races with it reports an error and changes nothing, the handler's sends
  go to an open channel, and its goroutine closes each of its channels once.
\<close>

theorem ffi_stream_never_panics:
  assumes "ffi_reachable c"
  shows "(\<exists>s. ffi_CloseSend (fc_s c) = Ret s \<and> ffi_CloseSend s = Ret s) \<and>
    (fs_closed (fc_s c) \<longrightarrow> (\<forall>r. \<forall>(e, s) \<in> set (SendMsg_select r (fc_s c)). e \<noteq> None \<and> s = fc_s c)) \<and>
    (fc_handler c = Running \<longrightarrow> (\<forall>m. \<forall>r \<in> set (server_SendMsg m (fc_s c)). returns r)) \<and>
    (fc_handler c = Reported \<longrightarrow> returns (close_errCh (fc_s c))) \<and>
    (fc_handler c = ErrChClosed \<longrightarrow> returns (close_recvCh (fc_s c)))"
proof (intro conjI)
  have inv: "ffi_inv c" by (rule ffi_reachable_inv [OF assms])
  show "\<exists>s. ffi_CloseSend (fc_s c) = Ret s \<and> ffi_CloseSend s = Ret s"
    using inv by (auto simp: ffi_CloseSend_def chan_close_def ffi_inv_def chans_ok_def)
  show "fs_closed (fc_s c) \<longrightarrow> (\<forall>r. \<forall>(e, s) \<in> set (SendMsg_select r (fc_s c)). e \<noteq> None \<and> s = fc_s c)"
    using inv by (auto simp: ffi_inv_def chans_ok_def elim!: SendMsg_selectE)
  show "fc_handler c = Running \<longrightarrow> (\<forall>m. \<forall>r \<in> set (server_SendMsg m (fc_s c)). returns r)"
    using inv by (auto simp: ffi_inv_def server_SendMsg_def set_select_ready in_ctx_branch chan_send_def
        split: option.splits)
  show "fc_handler c = Reported \<longrightarrow> returns (close_errCh (fc_s c))"
    "fc_handler c = ErrChClosed \<longrightarrow> returns (close_recvCh (fc_s c))"
    using inv by (auto simp: ffi_inv_def close_errCh_def close_recvCh_def chan_close_def)
qed

theorem ffi_stream_fifo_witness:
  "fc_out demo_done = take (fc_got demo_done) (fc_out demo_done) @ ch_buf (fs_recvCh (fc_s demo_done)) \<and>
   ch_buf (fs_recvCh (fc_s demo_done)) = [7]"
  using ffi_stream_fifo [OF demo_done_reachable] by (simp add: demo_defs)

theorem ffi_recv_end_witness:
  "(\<exists>pc s. (Some (Some (HandlerErr ''e'')), pc, s) \<in> set (recv_turns (fc_recv demo_failed) (fc_s demo_failed)) \<and>
     RecvMsg_check (Some 9) s = Inl (HandlerErr ''e'')) \<and>
   (\<exists>pc s. (Some (Some EndOfStream), pc, s) \<in> set (recv_turns (fc_recv demo_eof) (fc_s demo_eof)) \<and>
     RecvMsg_check (Some 9) s = Inl EndOfStream \<and> fc_got demo_eof < length (fc_out demo_eof))"
proof (rule conjI)
  let ?s = "take_error (HandlerErr ''e'') ((make_chan 1)\<lparr>ch_buf := []\<rparr>) (fc_s demo_failed)"
  have t: "(Some (Some (HandlerErr ''e'')), RecvIdle, ?s) \<in> set (recv_turns (fc_recv demo_failed) (fc_s demo_failed))"
    by (simp add: demo_defs RecvMsg_phase2_def ctx_branch_def recv_ready_def recv_message_cases)
  with ffi_recv_end [OF demo_failed_reachable t]
  show "\<exists>pc s. (Some (Some (HandlerErr ''e'')), pc, s) \<in> set (recv_turns (fc_recv demo_failed) (fc_s demo_failed)) \<and>
     RecvMsg_check (Some 9) s = Inl (HandlerErr ''e'')" by (auto simp: demo_defs)
next
  let ?s = "take_error EndOfStream ((make_chan 1)\<lparr>ch_buf := []\<rparr>) (fc_s demo_eof)"
  have t: "(Some (Some EndOfStream), RecvIdle, ?s) \<in> set (recv_turns (fc_recv demo_eof) (fc_s demo_eof))"
    by (simp add: demo_eof_def demo_defs RecvMsg_phase2_def ctx_branch_def recv_ready_def recv_message_cases)
  with ffi_recv_end [OF demo_eof_reachable t]
  show "\<exists>pc s. (Some (Some EndOfStream), pc, s) \<in> set (recv_turns (fc_recv demo_eof) (fc_s demo_eof)) \<and>
     RecvMsg_check (Some 9) s = Inl EndOfStream \<and> fc_got demo_eof < length (fc_out demo_eof)"
    by (auto simp: demo_eof_def demo_defs)
qed

theorem ffi_recv_drains_witness:
  "map fst (drain 3 9 (fc_s demo_done)) = [None, Some (HandlerErr ''e''), Some (HandlerErr ''e'')]"
  using ffi_recv_drains [OF demo_done_reachable, of 9 2]
  by (simp add: demo_defs numeral_3_eq_3 numeral_2_eq_2)

theorem ffi_stream_never_panics_witness:
  "(\<exists>s. ffi_CloseSend (fc_s demo_out) = Ret s) \<and> list_all returns (server_SendMsg (Some 8) (fc_s demo_out))"
  using ffi_stream_never_panics [OF fr_step [OF demo_waiting_reachable], of demo_out]
    fs_handler_send [of demo_waiting "(fc_s demo_waiting)\<lparr>fs_recvCh := (make_chan 16)\<lparr>ch_buf := [7]\<rparr>\<rparr>" 7]
  by (simp add: demo_defs server_SendMsg_def ctx_branch_def send_ready_def chan_send_def) blast

text \<open>
  C24. Where an error of the handler can overtake its data. Of the two selects of \<open>RecvMsg\<close>
  the first gives priority to data: with messages queued it returns one. The second gives none
  to either: with messages queued and the handler's error reported, it may return a message
  or the error, and a call that finds the context ended may return that. Once it has returned
  the error, the queued messages are lost: every later \<open>RecvMsg\<close> returns the error at once,
  and whatever happens to the stream, no further message is received.
\<close>

theorem ffi_error_overtakes_data:
  assumes "ffi_reachable c" and "fc_result c = Some e" and "fs_streamErr (fc_s c) = None"
    and "fc_got c < length (fc_out c)"
  shows "(fc_recv c = RecvPhase1 dst \<longrightarrow> fst ` set (recv_turns (fc_recv c) (fc_s c)) = {Some None}) \<and>
    (fc_recv c = RecvPhase2 dst \<longrightarrow>
       fst ` set (recv_turns (fc_recv c) (fc_s c)) =
         {Some None, Some (Some e)} \<union> (case fs_ctx_err (fc_s c) of None \<Rightarrow> {} | Some x \<Rightarrow> {Some (Some (CtxErr x))}) \<and>
       (\<exists>s. (Some (Some e), RecvIdle, s) \<in> set (recv_turns (fc_recv c) (fc_s c)) \<and>
          (\<forall>n m. ffi_RecvMsg n m s = [(Some e, s)]) \<and>
          (\<forall>c'. ffi_step\<^sup>*\<^sup>* (c\<lparr>fc_s := s, fc_recv := RecvIdle\<rparr>) c' \<longrightarrow> fc_got c' = fc_got c)))"
proof -
  let ?s = "take_error e ((fs_errCh (fc_s c))\<lparr>ch_buf := []\<rparr>) (fc_s c)"
  have inv: "ffi_inv c" by (rule ffi_reachable_inv [OF assms(1)])
  then obtain p ps where buf: "ch_buf (fs_recvCh (fc_s c)) = p # ps"
    using assms(4) by (cases "drop (fc_got c) (fc_out c)") (auto simp: ffi_inv_def)
  have queued: "ch_buf (fs_errCh (fc_s c)) = [e]"
    using inv assms(2,3) by (auto simp: ffi_inv_def error_ok_def)
  have lost: "fc_got c' = fc_got c" if "ffi_step\<^sup>*\<^sup>* (c\<lparr>fc_s := ?s, fc_recv := RecvIdle\<rparr>) c'" for c'
    using failed_stays [OF that] by (simp add: take_error_def)
  have err: "(Some (Some e), RecvIdle, ?s) \<in> set (recv_turns (RecvPhase2 dst) (fc_s c))"
    unfolding recv_turns.simps set_map
    by (rule image_eqI [of _ _ "Returned (Some e) ?s"])
       (simp_all add: RecvMsg_phase2_def set_select_ready recv_ready_def queued)
  have "ffi_RecvMsg n m ?s = [(Some e, ?s)]" for n m
    by (simp add: ffi_RecvMsg_def RecvMsg_check_def take_error_def)
  moreover have "fst ` set (recv_turns (RecvPhase1 dst) (fc_s c)) = {Some None}"
    by (simp add: RecvMsg_phase1_def recv_ready_def recv_message_cases buf)
  moreover have "fst ` set (recv_turns (RecvPhase2 dst) (fc_s c)) = {Some None, Some (Some e)} \<union>
      (case fs_ctx_err (fc_s c) of None \<Rightarrow> {} | Some x \<Rightarrow> {Some (Some (CtxErr x))})"
    by (auto simp: RecvMsg_phase2_def select_ready_def ctx_branch_def recv_ready_def recv_message_cases buf queued
        split: option.splits)
  ultimately show ?thesis using lost err by auto
qed

theorem ffi_error_overtakes_data_witness:
  "\<exists>s. (Some (Some (HandlerErr ''e'')), RecvIdle, s) \<in> set (recv_turns (fc_recv demo_failed) (fc_s demo_failed)) \<and>
     fc_out demo_failed = [7] \<and>
     (\<forall>c'. ffi_step\<^sup>*\<^sup>* (demo_failed\<lparr>fc_s := s, fc_recv := RecvIdle\<rparr>) c' \<longrightarrow> fc_got c' = 0)"
proof -
  have c: "fc_result demo_failed = Some (HandlerErr ''e'')" "fs_streamErr (fc_s demo_failed) = None"
    "fc_got demo_failed < length (fc_out demo_failed)" "fc_recv demo_failed = RecvPhase2 9"
    "fc_got demo_failed = 0" "fc_out demo_failed = [7]"
    by (simp_all add: demo_defs)
  from ffi_error_overtakes_data [OF demo_failed_reachable c(1-3), of 9] show ?thesis
    unfolding c by auto
qed

text \<open>
  A send passes the pointer, not the contents: when the handler sends a message on an
  empty stream and then writes to it, as a loop that fills one buffer again and again does,
  the caller receives what was written last.
\<close>

theorem ffi_send_aliases:
  assumes "Ret (None, s1) \<in> set (server_SendMsg (Some r) s)" and "ch_buf (fs_recvCh s) = []"
    and "fs_streamErr s = None"
  shows "\<exists>s2. ffi_RecvMsg 1 (Some dst) (s1\<lparr>fs_heap := (fs_heap s1)(r := v)\<rparr>) = [(None, s2)] \<and> fs_heap s2 dst = v"
proof -
  have s1: "s1 = s\<lparr>fs_recvCh := (fs_recvCh s)\<lparr>ch_buf := [r]\<rparr>\<rparr>"
    using assms(1,2)
    by (auto simp: server_SendMsg_def set_select_ready in_ctx_branch chan_send_def split: if_splits)
  have "ffi_RecvMsg 1 (Some dst) (s1\<lparr>fs_heap := (fs_heap s1)(r := v)\<rparr>) =
      [(None, copy_msg dst r ((s1\<lparr>fs_heap := (fs_heap s1)(r := v)\<rparr>)\<lparr>fs_recvCh := (fs_recvCh s1)\<lparr>ch_buf := []\<rparr>\<rparr>))]"
    using ffi_RecvMsg_queued [of "s1\<lparr>fs_heap := (fs_heap s1)(r := v)\<rparr>" r "[]" 0 dst] assms(3) by (simp add: s1)
  then show ?thesis by (simp add: copy_msg_def)
qed

theorem ffi_send_aliases_witness:
  "\<exists>s1 s2. Ret (None, s1) \<in> set (server_SendMsg (Some 7) (fc_s demo_start)) \<and> fs_heap s1 7 = 7 \<and>
     ffi_RecvMsg 1 (Some 9) (s1\<lparr>fs_heap := (fs_heap s1)(7 := 0)\<rparr>) = [(None, s2)] \<and> fs_heap s2 9 = 0"
proof -
  let ?s1 = "(fc_s demo_start)\<lparr>fs_recvCh := (make_chan 16)\<lparr>ch_buf := [7]\<rparr>\<rparr>"
  have m: "Ret (None, ?s1) \<in> set (server_SendMsg (Some 7) (fc_s demo_start))" "fs_heap ?s1 7 = 7"
    by (simp_all add: demo_defs server_SendMsg_def ctx_branch_def send_ready_def chan_send_def)
  have "ch_buf (fs_recvCh (fc_s demo_start)) = []" "fs_streamErr (fc_s demo_start) = None"
    by (simp_all add: demo_defs)
  from ffi_send_aliases [OF m(1) this, of 9 0] m show ?thesis by blast
qed

end
