(* ===== verification/PluginConn.thy ===== *)
theory PluginConn
  imports PluginHost FfiStream
begin

text \<open>
  \<open>pkg/synurang/plugin_conn.go\<close>: the gRPC connection over a loaded plugin, and the handle of
  an open stream. The codec is a parameter (\<open>enc\<close> may fail, \<open>dec\<close> may refuse), and so are
  the states in which the code finds the caller's context. A panic of a call into the plugin
  is not recovered: it ends the program. The state is the plugin with its
  library, and for a stream its handle with the closed flag.
\<close>

datatype pconn_error =
  PCtx ctx_error | PNotProto | PMarshal | PUnmarshal | PHost host_error | PStreamClosed

section \<open>The stream handle\<close>

record PluginStream =
  ph_handle :: uint64
  ph_closed :: bool

type_synonym 'l stream_state = "PluginStream \<times> plugin \<times> 'l"

definition lift_host :: "host_error option \<Rightarrow> pconn_error option" where
  "lift_host e = map_option PHost e"

definition closeInternal :: "'l platform \<Rightarrow> 'l stream_state \<Rightarrow> 'l stream_state" where
  "closeInternal pf st =
     (case st of (s, p, l) \<Rightarrow>
        if ph_closed s then st
        else (s\<lparr>ph_closed := True\<rparr>, StreamClose pf (ph_handle s) p l))"

definition PluginStream_Send ::
    "'l platform \<Rightarrow> bytes \<Rightarrow> 'l stream_state \<Rightarrow> (pconn_error option \<times> 'l stream_state) list" where
  "PluginStream_Send pf data st =
     (case st of (s, p, l) \<Rightarrow>
        if ph_closed s then [(Some PStreamClosed, st)]
        else map (\<lambda>(e, p', l'). (lift_host e, s, p', l')) (StreamSend pf (ph_handle s) data p l))"

definition PluginStream_Recv ::
    "'l platform \<Rightarrow> 'l stream_state \<Rightarrow> ((pconn_error + bytes) outcome \<times> 'l stream_state) list" where
  "PluginStream_Recv pf st =
     (case st of (s, p, l) \<Rightarrow>
        if ph_closed s then [(Ret (Inl (PHost EndOfFile)), st)]
        else map (\<lambda>(r, p', l').
                    case r of Ret (Inr d) \<Rightarrow> (Ret (Inr d), s, p', l')
                            | Ret (Inl e) \<Rightarrow> (Ret (Inl (PHost e)), closeInternal pf (s, p', l'))
                            | Panic q \<Rightarrow> (Panic q, s, p', l'))
               (StreamRecv pf (ph_handle s) p l))"

definition PluginStream_CloseSend ::
    "'l platform \<Rightarrow> 'l stream_state \<Rightarrow> pconn_error option \<times> 'l stream_state" where
  "PluginStream_CloseSend pf st =
     (case st of (s, p, l) \<Rightarrow>
        if ph_closed s then (None, st)
        else (case StreamCloseSend pf (ph_handle s) p l of (e, p', l') \<Rightarrow> (lift_host e, s, p', l')))"

definition PluginStream_Close :: "'l platform \<Rightarrow> 'l stream_state \<Rightarrow> pconn_error option \<times> 'l stream_state" where
  "PluginStream_Close pf st = (None, closeInternal pf st)"

section \<open>Running under a context\<close>

text \<open>
  \<open>withContext\<close>: \<open>c1\<close> is the context's error at the first check, \<open>c2\<close> the one that may
  come up while the function runs in its goroutine. The last component of a result says
  that the goroutine has been left behind and has not run yet; its result is dropped. A panic
  in the goroutine ends the program whether or not its result is still awaited.
\<close>

definition withContext ::
    "ctx_error option \<Rightarrow> ctx_error option \<Rightarrow> ('st \<Rightarrow> ('a outcome \<times> 'st) list) \<Rightarrow> 'st \<Rightarrow>
     ((ctx_error + 'a) outcome \<times> 'st \<times> bool) list" where
  "withContext c1 c2 fn st =
     (case c1 of
        Some e \<Rightarrow> [(Ret (Inl e), st, False)]
      | None \<Rightarrow>
          map (\<lambda>(r, st'). (bind_outcome r (\<lambda>a. Ret (Inr a)), st', False)) (fn st) @
          (case c2 of
             None \<Rightarrow> []
           | Some e \<Rightarrow> (Ret (Inl e), st, True) #
               map (\<lambda>(r, st'). (bind_outcome r (\<lambda>a. Ret (Inl e)), st', False)) (fn st)))"

section \<open>The connection\<close>

text \<open>
  \<open>PluginClientConn.Invoke\<close>: \<open>c0\<close> is what the call itself finds first. The reply is the
  decoded message.
\<close>

definition PluginClientConn_Invoke ::
    "'l platform \<Rightarrow> ('m \<Rightarrow> bytes option) \<Rightarrow> (bytes \<Rightarrow> 'r option) \<Rightarrow> string \<Rightarrow>
     ctx_error option \<Rightarrow> ctx_error option \<Rightarrow> ctx_error option \<Rightarrow> string \<Rightarrow> 'm option \<Rightarrow> bool \<Rightarrow>
     plugin \<times> 'l \<Rightarrow> ((pconn_error + 'r) outcome \<times> (plugin \<times> 'l) \<times> bool) list" where
  "PluginClientConn_Invoke pf enc dec svc c0 c1 c2 method args reply_ok st =
     (case c0 of
        Some e \<Rightarrow> [(Ret (Inl (PCtx e)), st, False)]
      | None \<Rightarrow>
          (case args of
             None \<Rightarrow> [(Ret (Inl PNotProto), st, False)]
           | Some req \<Rightarrow>
               if \<not> reply_ok then [(Ret (Inl PNotProto), st, False)]
               else (case enc req of
                       None \<Rightarrow> [(Ret (Inl PMarshal), st, False)]
                     | Some reqBytes \<Rightarrow>
                         map (\<lambda>(r, st', left).
                                (bind_outcome r (\<lambda>x. Ret (case x of
                                   Inl e \<Rightarrow> Inl (PCtx e)
                                 | Inr (Inl e) \<Rightarrow> Inl (PHost e)
                                 | Inr (Inr respBytes) \<Rightarrow>
                                     (case dec respBytes of None \<Rightarrow> Inl PUnmarshal | Some m \<Rightarrow> Inr m))), st', left))
                           (withContext c1 c2
                              (\<lambda>(p, l). case Plugin_Invoke pf svc method reqBytes p l of (r, p', l') \<Rightarrow> [(r, p', l')]) st))))"

definition PluginClientConn_NewStream ::
    "'l platform \<Rightarrow> string \<Rightarrow> ctx_error option \<Rightarrow> string \<Rightarrow> plugin \<times> 'l \<Rightarrow>
     (pconn_error + PluginStream) outcome \<times> plugin \<times> 'l" where
  "PluginClientConn_NewStream pf svc c0 method st =
     (case c0 of
        Some e \<Rightarrow> (Ret (Inl (PCtx e)), st)
      | None \<Rightarrow>
          (case OpenStream pf svc method (fst st) (snd st) of
             (r, p', l') \<Rightarrow>
               (bind_outcome r (\<lambda>x. Ret (case x of Inl e \<Rightarrow> Inl (PHost e)
                                              | Inr h \<Rightarrow> Inr \<lparr>ph_handle = h, ph_closed = False\<rparr>)), p', l')))"

text \<open>The client stream: a context error, and no other, closes the stream on the way out.\<close>

definition close_on_ctx :: "'l platform \<Rightarrow> (ctx_error + 'a) outcome \<Rightarrow> 'l stream_state \<Rightarrow> 'l stream_state" where
  "close_on_ctx pf r st = (case r of Ret (Inl e) \<Rightarrow> snd (PluginStream_Close pf st) | _ \<Rightarrow> st)"

definition pluginClientStream_SendMsg ::
    "'l platform \<Rightarrow> ('m \<Rightarrow> bytes option) \<Rightarrow> ctx_error option \<Rightarrow> ctx_error option \<Rightarrow> 'm option \<Rightarrow>
     'l stream_state \<Rightarrow> (pconn_error option outcome \<times> 'l stream_state \<times> bool) list" where
  "pluginClientStream_SendMsg pf enc c1 c2 m st =
     (case m of
        None \<Rightarrow> [(Ret (Some PNotProto), st, False)]
      | Some msg \<Rightarrow>
          (case enc msg of
             None \<Rightarrow> [(Ret (Some PMarshal), st, False)]
           | Some data \<Rightarrow>
               map (\<lambda>(r, st', left).
                      (bind_outcome r (\<lambda>x. Ret (case x of Inl e \<Rightarrow> Some (PCtx e) | Inr e \<Rightarrow> e)),
                       close_on_ctx pf r st', left))
                 (withContext c1 c2 (\<lambda>st. map (\<lambda>(e, st'). (Ret e, st')) (PluginStream_Send pf data st)) st)))"

definition pluginClientStream_RecvMsg ::
    "'l platform \<Rightarrow> (bytes \<Rightarrow> 'r option) \<Rightarrow> ctx_error option \<Rightarrow> ctx_error option \<Rightarrow> bool \<Rightarrow>
     'l stream_state \<Rightarrow> ((pconn_error + 'r) outcome \<times> 'l stream_state \<times> bool) list" where
  "pluginClientStream_RecvMsg pf dec c1 c2 msg_ok st =
     (if \<not> msg_ok then [(Ret (Inl PNotProto), st, False)]
      else map (\<lambda>(r, st', left).
                  (bind_outcome r (\<lambda>x. Ret (case x of
                     Inl e \<Rightarrow> Inl (PCtx e)
                   | Inr (Inl e) \<Rightarrow> Inl e
                   | Inr (Inr data) \<Rightarrow> (case dec data of None \<Rightarrow> Inl PUnmarshal | Some m \<Rightarrow> Inr m))),
                   close_on_ctx pf r st', left))
             (withContext c1 c2 (PluginStream_Recv pf) st))"

definition pluginClientStream_CloseSend ::
    "'l platform \<Rightarrow> 'l stream_state \<Rightarrow> pconn_error option \<times> 'l stream_state" where
  "pluginClientStream_CloseSend pf st = PluginStream_CloseSend pf st"

section \<open>Closed streams\<close>

text \<open>On a closed stream every operation returns at once, without a call into the plugin.\<close>

definition inert :: "'l platform \<Rightarrow> PluginStream \<Rightarrow> bool" where
  "inert pf s \<longleftrightarrow> (\<forall>p l data. let st = (s, p, l) in
     PluginStream_Send pf data st = [(Some PStreamClosed, st)] \<and>
     PluginStream_Recv pf st = [(Ret (Inl (PHost EndOfFile)), st)] \<and>
     PluginStream_CloseSend pf st = (None, st) \<and> PluginStream_Close pf st = (None, st))"

lemma inert_closed: "ph_closed s \<Longrightarrow> inert pf s"
  by (simp add: inert_def Let_def PluginStream_Send_def PluginStream_Recv_def PluginStream_CloseSend_def
      PluginStream_Close_def closeInternal_def)

lemma closeInternal_closed [simp]: "ph_closed (fst (closeInternal pf st))"
  by (auto simp: closeInternal_def split: prod.splits)

lemma closeInternal_handle [simp]: "ph_handle (fst (closeInternal pf st)) = ph_handle (fst st)"
  by (auto simp: closeInternal_def split: prod.splits)

text \<open>What a stream's close leaves of the plugin's active streams.\<close>

lemma StreamClose_inactive:
  "pl_handle p \<noteq> 0 \<or> pl_closed p \<Longrightarrow> pl_closed p \<longrightarrow> pl_activeStreams p = [] \<Longrightarrow>
     h \<notin> set (pl_activeStreams (fst (StreamClose pf h p l)))"
  by (auto simp: StreamClose_def StreamClose_lock_def leave_call_def Let_def split: option.splits)

end
