(* ===== verification/PluginConnProps.thy ===== *)
theory PluginConnProps
  imports PluginConn PluginHostProps
begin

text \<open>
  What a gRPC client of a plugin can rely on: a call is what the plugin's dispatcher answers,
  and a stream that reported an error, or whose context ended, is closed for good.
\<close>

section \<open>Streams\<close>



lemma lift_host_no_ctx [simp]: "lift_host e \<noteq> Some (PCtx x)" "Some (PCtx x) \<noteq> lift_host e"
  by (cases e; simp add: lift_host_def)+








section \<open>Unary calls\<close>

text \<open>
  C21. A gRPC client of a plugin cannot tell it from a server in the same process: with the
  Unix wrapper, an open plugin whose service is found, a context that does not end, a method
  name without a NUL, and a request and an answer whose lengths fit the C \<open>int\<close> that carries
  them (an answer has one byte more), an \<open>Invoke\<close> has one result, the decoded answer of the
  plugin's dispatcher for the method and the encoded request, or its error as a
  \<open>PluginError\<close>; and the library is left as the dispatcher leaves it. When the context may
  end, the only other results are its error.
\<close>

theorem PluginClientConn_Invoke_transparent:
  assumes "\<not> pl_closed p" and "pl_wg p = 0" and "enc req = Some data" and "length data \<le> MaxInt32"
    and "NUL \<notin> set meth" and "answer_length (fst (disp meth data w)) \<le> MaxInt32"
    and "getInvoker pf svc (p\<lparr>pl_wg := 1\<rparr>) = (Inr fn, p2)"
    and "pf_invoke pf fn (pl_freePtr p2) = unixInvoke (Synurang_Invoke disp)"
  shows "\<exists>p'. pl_wg p' = 0 \<and>
    PluginClientConn_Invoke pf enc dec svc None None None meth (Some req) True (p, w) =
      [(Ret (case fst (disp meth data w) of
          Inl e \<Rightarrow> Inl (PHost (PluginError e))
        | Inr r \<Rightarrow> (case dec r of None \<Rightarrow> Inl PUnmarshal | Some m \<Rightarrow> Inr m)),
        (p', snd (disp meth data w)), False)] \<and>
    (\<forall>(r, st, left) \<in> set (PluginClientConn_Invoke pf enc dec svc None None (Some e) meth (Some req) True (p, w)).
       r = Ret (Inl (PCtx e)) \<or>
       (r, st, left) \<in> set (PluginClientConn_Invoke pf enc dec svc None None None meth (Some req) True (p, w)))"
proof -
  obtain r p' w' where inv: "Plugin_Invoke pf svc meth data p w = (r, p', w')"
    by (cases "Plugin_Invoke pf svc meth data p w")
  have "r = Ret (case fst (disp meth data w) of Inr m \<Rightarrow> Inr m | Inl e \<Rightarrow> Inl (PluginError e))"
    "w' = snd (disp meth data w)" "pl_wg p' = 0"
    using Plugin_Invoke_dispatches [where disp = disp, OF assms(1,2,4-8)] by (simp_all add: inv)
  then show ?thesis
    by (intro exI [of _ p'])
       (auto simp: PluginClientConn_Invoke_def withContext_def assms(3) inv split: sum.splits)
qed

theorem PluginClientConn_Invoke_transparent_witness:
  "map fst (PluginClientConn_Invoke (go_platform echo) Some Some ''S'' None None None ''/S/Echo'' (Some [4, 2]) True
     (demo_plugin, init_plugin_world)) = [Ret (Inr [4, 2])]"
proof -
  have up: "\<not> pl_closed demo_plugin" "pl_wg demo_plugin = 0"
    by (simp_all add: demo_plugin_def new_plugin_def)
  have inv: "getInvoker (go_platform echo) ''S'' (demo_plugin\<lparr>pl_wg := 1\<rparr>) =
      (Inr 1, demo_plugin\<lparr>pl_wg := 1, pl_invokers := [''S'' \<mapsto> 1]\<rparr>)"
    by (simp add: getInvoker_def find_sym_def go_platform_def demo_plugin_def new_plugin_def)
  have pf: "pf_invoke (go_platform echo) 1 fr = unixInvoke (Synurang_Invoke echo)" for fr
    by (simp add: go_platform_def)
  have len: "Some [4, 2 :: byte] = Some [4, 2]" "length [4, 2 :: byte] \<le> MaxInt32"
    "NUL \<notin> set ''/S/Echo''" "answer_length (fst (echo ''/S/Echo'' [4, 2] init_plugin_world)) \<le> MaxInt32"
    by (simp_all add: MaxInt32_def NUL_def answer_length_def echo_def)
  from PluginClientConn_Invoke_transparent [of demo_plugin Some "[4, 2]", OF up len inv pf, of Some Canceled]
  show ?thesis by (clarsimp simp: echo_def)
qed

text \<open>
  The bound on the answer is needed: one of exactly \<open>2 ^ 31 - 1\<close> bytes, which the plugin sends
  without a check, makes the host panic on its negative length.
\<close>

lemma oversized_answer_panics:
  assumes "NUL \<notin> set meth" and "disp meth data w = (Inr r, w')" and "length r = MaxInt32" and "length data \<le> MaxInt32"
  shows "unixInvoke (Synurang_Invoke disp) meth data w = (Panic LengthOutOfRange, w')"
proof -
  have "GoBytes (0 # r) (C_int (length (0 # r))) = Panic LengthOutOfRange"
    unfolding GoBytes_length Let_def using assms(3) by (simp add: MaxInt32_def)
  with assms show ?thesis by (simp add: unixInvoke_def Synurang_Invoke_def GoString_CString Let_def)
qed

end
