(* ===== verification/DartStreams.thy ===== *)
theory DartStreams
  imports CoreService
begin

text \<open>
  The streaming calls from Go into Dart that run over gRPC, or with a reader of their own:
  the gRPC path of \<open>InvokeDartStream\<close> and \<open>InvokeDartBidiStream\<close>
  (\<open>pkg/service/server.go\<close>). The bidirectional call is a step relation over its two
  goroutines, the timer, and what Dart does to the session.
\<close>

section \<open>A server stream over gRPC\<close>

text \<open>
  \<open>new_stream\<close>, \<open>send\<close> and \<open>close_send\<close> are gRPC's; \<open>replies\<close> is what the stream answers, in
  order. No result means that the stream neither ends nor fails.
\<close>

definition InvokeDartStream_grpc ::
    "('n \<Rightarrow> metadata \<Rightarrow> string \<Rightarrow> 'e + 'g) \<Rightarrow> ('g \<Rightarrow> 'q \<Rightarrow> 'e option) \<Rightarrow> ('g \<Rightarrow> 'e option) \<Rightarrow>
     ('g \<Rightarrow> ('a, 'e) grpc_reply list) \<Rightarrow> config \<Rightarrow> 'n \<Rightarrow> string \<Rightarrow> 'q \<Rightarrow> ('e dart_error + 'a list) option" where
  "InvokeDartStream_grpc new_stream send close_send replies cfg n method req =
     (case new_stream n (outgoing_md cfg) method of
        Inl e \<Rightarrow> Some (Inl (GrpcFailed e))
      | Inr g \<Rightarrow>
          (case send g req of
             Some e \<Rightarrow> Some (Inl (GrpcFailed e))
           | None \<Rightarrow>
               (case close_send g of
                  Some e \<Rightarrow> Some (Inl (GrpcFailed e)) | None \<Rightarrow> grpc_collect (replies g) [])))"

section \<open>The bidirectional call\<close>

text \<open>
  One turn of the reader: the chunk it took, whether it goes on, the responses so far and
  the world. A chunk that does not decode is dropped.
\<close>

definition reader_turn ::
    "(bytes \<Rightarrow> 'a option) \<Rightarrow> nat \<Rightarrow> 'a list \<Rightarrow> world \<Rightarrow> (bytes option \<times> bool \<times> 'a list \<times> world) list" where
  "reader_turn dec a responses w =
     (let s = w_heap w ! a in
      select_ready
        [(recv_ready (ss_data s),
           (case chan_recv (ss_data s) of
              (None, ch) \<Rightarrow> (None, False, responses, w)
            | (Some d, ch) \<Rightarrow>
                (Some d, True, case dec d of None \<Rightarrow> responses | Some r \<Rightarrow> responses @ [r],
                 w\<lparr>w_heap := (w_heap w)[a := s\<lparr>ss_data := ch\<rparr>]\<rparr>))),
         (ss_done s, (None, False, responses, w))])"

text \<open>
  Where the calling goroutine is: in the callback into Dart, in the loop that sends, past it,
  waiting for the reader or the timer, waiting for the reader after a timeout, or returned.
\<close>

datatype bidi_pc = Calling | Sending | SendClosing | Waiting | TimedOutWaiting | BidiReturned

record ('q, 'a, 'e) bidi =
  bd_world :: world
  bd_pc :: bidi_pc
  bd_reader :: bool
  bd_todo :: "'q list"
  bd_index :: nat
  bd_responses :: "'a list"
  bd_err :: "'e dart_error option"
  bd_arrived :: "bytes list"
  bd_read :: "bytes list"

definition bidi_init :: "string \<Rightarrow> 'q list \<Rightarrow> world \<Rightarrow> nat \<times> ('q, 'a, 'e) bidi" where
  "bidi_init method reqs w =
     (let (a, w1) = NewStreamSession method StreamTypeBidiStream w in
      (a, \<lparr>bd_world = w1, bd_pc = Calling, bd_reader = False, bd_todo = reqs, bd_index = 0,
           bd_responses = [], bd_err = None, bd_arrived = [], bd_read = []\<rparr>))"

text \<open>What may happen to the world without touching the session.\<close>

definition elsewhere :: "nat \<Rightarrow> world \<Rightarrow> world \<Rightarrow> bool" where
  "elsewhere a w w' \<longleftrightarrow> world_inv w' \<and> length (w_heap w) \<le> length (w_heap w') \<and> w_heap w' ! a = w_heap w ! a \<and>
     w_registry w' (ss_id (w_heap w ! a)) = w_registry w (ss_id (w_heap w ! a))"

inductive bidi_step ::
    "('q \<Rightarrow> bytes option) \<Rightarrow> (bytes \<Rightarrow> 'a option) \<Rightarrow> int \<Rightarrow> nat \<Rightarrow>
     ('q, 'a, 'e) bidi \<Rightarrow> ('q, 'a, 'e) bidi \<Rightarrow> bool" for enc dec timeout a where
  bi_called: "bd_pc c = Calling \<Longrightarrow> bidi_step enc dec timeout a c (c\<lparr>bd_pc := Sending, bd_reader := True\<rparr>)"
| bi_call_failed: "bd_pc c = Calling \<Longrightarrow>
     bidi_step enc dec timeout a c (c\<lparr>bd_pc := BidiReturned, bd_err := Some (CallbackFailed e),
       bd_world := drop_stream (ss_id (w_heap (bd_world c) ! a)) (bd_world c)\<rparr>)"
| bi_read: "bd_reader c \<Longrightarrow> (d, goes, rs, w) \<in> set (reader_turn dec a (bd_responses c) (bd_world c)) \<Longrightarrow>
     bidi_step enc dec timeout a c (c\<lparr>bd_reader := goes, bd_responses := rs, bd_world := w,
       bd_read := bd_read c @ (case d of None \<Rightarrow> [] | Some x \<Rightarrow> [x])\<rparr>)"
| bi_sent: "bd_pc c = Sending \<Longrightarrow> bd_todo c = q # qs \<Longrightarrow>
     SendFromStream a (case enc q of Some b \<Rightarrow> b | None \<Rightarrow> []) (bd_world c) = (None, w) \<Longrightarrow>
     bidi_step enc dec timeout a c (c\<lparr>bd_world := w, bd_todo := qs, bd_index := bd_index c + 1\<rparr>)"
| bi_send_failed: "bd_pc c = Sending \<Longrightarrow> bd_todo c = q # qs \<Longrightarrow>
     SendFromStream a (case enc q of Some b \<Rightarrow> b | None \<Rightarrow> []) (bd_world c) = (Some e, w) \<Longrightarrow>
     bidi_step enc dec timeout a c (c\<lparr>bd_world := w, bd_pc := SendClosing, bd_err := Some (SendFailedAt (bd_index c) e)\<rparr>)"
| bi_all_sent: "bd_pc c = Sending \<Longrightarrow> bd_todo c = [] \<Longrightarrow> bidi_step enc dec timeout a c (c\<lparr>bd_pc := SendClosing\<rparr>)"
| bi_close_send: "bd_pc c = SendClosing \<Longrightarrow>
     bidi_step enc dec timeout a c (c\<lparr>bd_pc := Waiting, bd_world := snd (CloseSend a (bd_world c))\<rparr>)"
| bi_finished: "bd_pc c = Waiting \<Longrightarrow> \<not> bd_reader c \<Longrightarrow> bidi_step enc dec timeout a c (c\<lparr>bd_pc := BidiReturned\<rparr>)"
| bi_timeout: "bd_pc c = Waiting \<Longrightarrow> 0 < timeout \<Longrightarrow>
     bidi_step enc dec timeout a c (c\<lparr>bd_pc := TimedOutWaiting, bd_err := Some StreamTimeout,
       bd_world := drop_stream (ss_id (w_heap (bd_world c) ! a)) (bd_world c)\<rparr>)"
| bi_timed_out: "bd_pc c = TimedOutWaiting \<Longrightarrow> \<not> bd_reader c \<Longrightarrow>
     bidi_step enc dec timeout a c (c\<lparr>bd_pc := BidiReturned\<rparr>)"
| bi_arrive: "Ret (None, w) \<in> set (SendToStream_select (ss_id (w_heap (bd_world c) ! a)) a d (bd_world c)) \<Longrightarrow>
     bidi_step enc dec timeout a c (c\<lparr>bd_world := w, bd_arrived := bd_arrived c @ [d]\<rparr>)"
| bi_close_input: "CloseStreamInput (ss_id (w_heap (bd_world c) ! a)) (bd_world c) = Ret w \<Longrightarrow>
     bidi_step enc dec timeout a c (c\<lparr>bd_world := w\<rparr>)"
| bi_close: "CloseStreamSession (ss_id (w_heap (bd_world c) ! a)) (bd_world c) = Ret w \<Longrightarrow>
     bidi_step enc dec timeout a c (c\<lparr>bd_world := w\<rparr>)"
| bi_elsewhere: "elsewhere a (bd_world c) w \<Longrightarrow> bidi_step enc dec timeout a c (c\<lparr>bd_world := w\<rparr>)"

inductive bidi_reachable ::
    "('q \<Rightarrow> bytes option) \<Rightarrow> (bytes \<Rightarrow> 'a option) \<Rightarrow> int \<Rightarrow> nat \<Rightarrow> 'q list \<Rightarrow> ('q, 'a, 'e) bidi \<Rightarrow> bool"
  for enc dec timeout a reqs where
  br_init: "world_inv w \<Longrightarrow> bidi_init method reqs w = (a, c) \<Longrightarrow> bidi_reachable enc dec timeout a reqs c"
| br_step: "bidi_reachable enc dec timeout a reqs c \<Longrightarrow> bidi_step enc dec timeout a c c' \<Longrightarrow>
     bidi_reachable enc dec timeout a reqs c'"

section \<open>The invariant\<close>

text \<open>
  The session is registered until it is done, and what has arrived on it is what the reader
  took, followed by what is queued.
\<close>

definition on_stream :: "nat \<Rightarrow> bytes list \<Rightarrow> world \<Rightarrow> bool" where
  "on_stream a chunks w \<longleftrightarrow> world_inv w \<and> a < length (w_heap w) \<and> settled (w_heap w ! a) \<and>
     (w_registry w (ss_id (w_heap w ! a)) = Some a \<or> ss_done (w_heap w ! a)) \<and>
     ch_buf (ss_data (w_heap w ! a)) = chunks"

text \<open>
  Why a reader stops: the session is done, or its input is closed and read to the end. And
  what the caller is told, which fixes how far the call went.
\<close>

definition reader_over :: "session \<Rightarrow> bool" where
  "reader_over s \<longleftrightarrow> ss_done s \<or> ss_input_closed s \<and> ch_buf (ss_data s) = []"

definition err_inv :: "int \<Rightarrow> 'q list \<Rightarrow> ('q, 'a, 'e) bidi \<Rightarrow> bool \<Rightarrow> bool" where
  "err_inv timeout reqs c over \<longleftrightarrow>
     (case bd_err c of
        None \<Rightarrow> bd_pc c \<in> {SendClosing, Waiting, BidiReturned} \<longrightarrow> bd_todo c = []
      | Some (CallbackFailed e) \<Rightarrow> bd_pc c = BidiReturned \<and> bd_read c = [] \<and> bd_index c = 0 \<and> over
      | Some (SendFailedAt i e) \<Rightarrow> bd_pc c \<in> {SendClosing, Waiting, BidiReturned} \<and> i = bd_index c \<and> i < length reqs
      | Some StreamTimeout \<Rightarrow> bd_pc c \<in> {TimedOutWaiting, BidiReturned} \<and> 0 < timeout \<and> over
      | Some _ \<Rightarrow> False)"

definition bidi_inv :: "(bytes \<Rightarrow> 'a option) \<Rightarrow> int \<Rightarrow> nat \<Rightarrow> 'q list \<Rightarrow> ('q, 'a, 'e) bidi \<Rightarrow> bool" where
  "bidi_inv dec timeout a reqs c \<longleftrightarrow>
     (\<exists>ds. on_stream a ds (bd_world c) \<and> bd_arrived c = bd_read c @ ds) \<and>
     bd_responses c = List.map_filter dec (bd_read c) \<and>
     drop (bd_index c) reqs = bd_todo c \<and> bd_index c \<le> length reqs \<and>
     (bd_pc c = Calling \<longrightarrow> \<not> bd_reader c \<and> bd_read c = [] \<and> bd_index c = 0) \<and>
     (bd_pc c \<in> {Calling, Sending} \<longrightarrow> bd_err c = None) \<and>
     (bd_pc c = BidiReturned \<longrightarrow> \<not> bd_reader c) \<and>
     (bd_pc c = TimedOutWaiting \<longrightarrow> bd_err c = Some StreamTimeout) \<and>
     (bd_pc c \<noteq> Calling \<longrightarrow> \<not> bd_reader c \<longrightarrow> reader_over (w_heap (bd_world c) ! a)) \<and>
     err_inv timeout reqs c (ss_done (w_heap (bd_world c) ! a))"

lemma on_stream_done:
  assumes "on_stream a ds w" and "CloseStreamSession (ss_id (w_heap w ! a)) w = Ret w'"
  shows "on_stream a ds w' \<and> ss_done (w_heap w' ! a) \<and> ss_id (w_heap w' ! a) = ss_id (w_heap w ! a)"
proof (cases "w_registry w (ss_id (w_heap w ! a))")
  case None
  with assms show ?thesis by (auto simp: on_stream_def CloseStreamSession_def)
next
  case (Some b)
  have inv: "world_inv w" and a: "a < length (w_heap w)" using assms(1) by (simp_all add: on_stream_def)
  obtain s' where s': "w' = w\<lparr>w_registry := (w_registry w)(ss_id (w_heap w ! a) := None), w_heap := (w_heap w)[b := s']\<rparr>"
    "close_session (w_heap w ! b) = Ret s'" "ss_id s' = ss_id (w_heap w ! a)"
    using CloseStreamSession_some [OF inv Some] assms(2) by auto
  have w': "world_inv w'"
    using CloseStreamSession_inv [OF inv, of "ss_id (w_heap w ! a)"] assms(2) by auto
  have "session_inv (w_heap w ! b)" using world_invD(1,2) [OF inv] Some by blast
  from close_session_inv [OF this] s'(2) have s: "settled (w_heap w ! b) \<longrightarrow> ss_done s'"
    "ch_buf (ss_data s') = ch_buf (ss_data (w_heap w ! b))" by auto
  show ?thesis
  proof (cases "b = a")
    case True
    with assms(1) s s' w' a show ?thesis by (auto simp: on_stream_def settled_def)
  next
    case False
    with assms(1) Some s' w' a show ?thesis by (auto simp: on_stream_def)
  qed
qed

lemma on_stream_drop:
  assumes "on_stream a ds w"
  shows "on_stream a ds (drop_stream (ss_id (w_heap w ! a)) w)"
    and "ss_done (w_heap (drop_stream (ss_id (w_heap w ! a)) w) ! a)"
proof -
  have "world_inv w" using assms by (simp add: on_stream_def)
  from CloseStreamSession_inv [OF this, of "ss_id (w_heap w ! a)"] obtain w'
    where w': "CloseStreamSession (ss_id (w_heap w ! a)) w = Ret w'" by blast
  from on_stream_done [OF assms w'] w'
  show "on_stream a ds (drop_stream (ss_id (w_heap w ! a)) w)"
    "ss_done (w_heap (drop_stream (ss_id (w_heap w ! a)) w) ! a)"
    by (simp_all add: drop_stream_def)
qed

lemma on_stream_elsewhere: "on_stream a ds w \<Longrightarrow> elsewhere a w w' \<Longrightarrow> on_stream a ds w'"
  by (auto simp: on_stream_def elsewhere_def)

lemma on_stream_emit [simp]: "on_stream a ds (emit es w) = on_stream a ds w"
  by (simp add: on_stream_def)

lemma finish_call_stream: "finish_call r w = (e, w') \<Longrightarrow> \<exists>es. w' = emit es w"
  by (cases r) (auto simp: emit_def intro: exI [of _ "[]"])

lemma SendFromStream_emits: "SendFromStream a d w = (e, w') \<Longrightarrow> \<exists>es. w' = emit es w"
  unfolding SendFromStream_def by (rule finish_call_stream)

lemma CloseSend_emits: "\<exists>es. snd (CloseSend a w) = emit es w"
  unfolding CloseSend_def using finish_call_stream prod.collapse by metis

lemma on_stream_new:
  assumes "world_inv w" and "NewStreamSession m ty w = (a, w1)"
  shows "on_stream a [] w1"
  using assms world_inv_new [OF assms(1), of m ty]
  by (auto simp: on_stream_def NewStreamSession_def Let_def nth_append) (simp_all add: new_session_def)

lemma on_stream_arrive:
  assumes "on_stream a ds w" and "Ret (None, w') \<in> set (SendToStream_select i a d w)"
  shows "on_stream a (ds @ [d]) w' \<and> ss_done (w_heap w' ! a) = ss_done (w_heap w ! a) \<and>
    (reader_over (w_heap w ! a) \<longrightarrow> reader_over (w_heap w' ! a))"
proof -
  let ?s = "w_heap w ! a"
  have s: "\<not> ch_closed (ss_data ?s)" "length (ch_buf (ss_data ?s)) < ch_cap (ss_data ?s)"
    "w' = w\<lparr>w_heap := (w_heap w)[a := ?s\<lparr>ss_data := (ss_data ?s)\<lparr>ch_buf := ch_buf (ss_data ?s) @ [d]\<rparr>\<rparr>]\<rparr>"
    using assms(2)
    by (auto simp: SendToStream_select_def Let_def chan_send_def send_ready_def on_session_def split: if_splits)
  have "session_inv ?s" using assms(1) world_invD(1) by (simp add: on_stream_def)
  moreover from this have "world_inv w'"
    unfolding s(3) using s(1,2) assms(1)
    by (intro world_inv_update) (auto simp: on_stream_def session_inv_def chan_wf_def)
  ultimately show ?thesis using s assms(1)
    by (auto simp: on_stream_def settled_def reader_over_def session_inv_def)
qed

lemma on_stream_close_input:
  assumes "on_stream a ds w" and "CloseStreamInput (ss_id (w_heap w ! a)) w = Ret w'"
  shows "on_stream a ds w' \<and> ss_done (w_heap w' ! a) = ss_done (w_heap w ! a) \<and>
    (reader_over (w_heap w ! a) \<longrightarrow> reader_over (w_heap w' ! a))"
proof (cases "w_registry w (ss_id (w_heap w ! a))")
  case None
  with assms show ?thesis by (auto simp: CloseStreamInput_def GetStreamSession_def)
next
  case (Some b)
  have inv: "world_inv w" and a: "a < length (w_heap w)" using assms(1) by (simp_all add: on_stream_def)
  have sb: "session_inv (w_heap w ! b)" using world_invD(1,2) [OF inv] Some by blast
  have w': "world_inv w'"
    using CloseStreamInput_inv [OF inv, of "ss_id (w_heap w ! a)"] assms(2) by auto
  show ?thesis
  proof (cases "\<not> ss_closed (w_heap w ! b) \<and> \<not> ss_input_closed (w_heap w ! b)")
    case True
    from close_input_inv [OF sb] obtain s' where s': "close_input (w_heap w ! b) = Ret s'"
      "ss_id s' = ss_id (w_heap w ! b)" "ss_closed s' = ss_closed (w_heap w ! b)"
      "ss_done s' = ss_done (w_heap w ! b)" "ch_buf (ss_data s') = ch_buf (ss_data (w_heap w ! b))"
      "ss_input_closed s'" by blast
    then have "w' = w\<lparr>w_heap := (w_heap w)[b := s']\<rparr>"
      using True Some assms(2) by (auto simp: CloseStreamInput_def GetStreamSession_def on_session_def)
    with s' assms(1) a w' show ?thesis
      by (cases "b = a") (auto simp: on_stream_def settled_def reader_over_def)
  next
    case False
    then have "w' = w" using Some assms(2)
      by (auto simp: CloseStreamInput_def GetStreamSession_def on_session_def)
    with assms(1) show ?thesis by simp
  qed
qed

lemma on_stream_read:
  assumes "on_stream a ds w" and "(d, goes, rs', w') \<in> set (reader_turn dec a rs w)"
  shows "(case d of
       None \<Rightarrow> \<not> goes \<and> rs' = rs \<and> w' = w \<and> reader_over (w_heap w ! a)
     | Some x \<Rightarrow> goes \<and> ds \<noteq> [] \<and> x = hd ds \<and> rs' = rs @ List.map_filter dec [x] \<and> on_stream a (tl ds) w' \<and>
         ss_done (w_heap w' ! a) = ss_done (w_heap w ! a))"
proof -
  let ?s = "w_heap w ! a"
  have inv: "session_inv ?s" using assms(1) world_invD(1) by (simp add: on_stream_def)
  consider "d = None" "\<not> goes" "rs' = rs" "w' = w" "reader_over ?s"
    | x xs where "ch_buf (ss_data ?s) = x # xs" "d = Some x" "goes"
        "rs' = (case dec x of None \<Rightarrow> rs | Some r \<Rightarrow> rs @ [r])"
        "w' = w\<lparr>w_heap := (w_heap w)[a := ?s\<lparr>ss_data := (ss_data ?s)\<lparr>ch_buf := xs\<rparr>\<rparr>]\<rparr>"
    using assms(2) inv
    by (auto simp: reader_turn_def reader_over_def session_inv_def recv_ready_def Let_def split: if_splits list.splits)
  then show ?thesis
  proof cases
    case 2
    from inv have "world_inv w'"
      unfolding 2(5) using 2(1) assms(1)
      by (intro world_inv_update) (auto simp: on_stream_def session_inv_def chan_wf_def)
    moreover have "ds = x # xs" using assms(1) 2(1) by (simp add: on_stream_def)
    ultimately show ?thesis using 2 assms(1)
      by (cases "dec x") (auto simp: on_stream_def settled_def List.map_filter_def)
  qed simp
qed

end
