(* ===== verification/DartStreamProps.thy ===== *)
theory DartStreamProps
  imports DartStreams
begin

text \<open>
  What a bidirectional call into Dart returns, and that a timeout ends it.
\<close>

section \<open>The invariant is kept\<close>

lemma map_filter_snoc: "List.map_filter f (xs @ [x]) = List.map_filter f xs @ List.map_filter f [x]"
  by (induction xs) (simp_all add: List.map_filter_def)

lemma bidi_inv_init:
  assumes "world_inv w" and "bidi_init method reqs w = (a, c)"
  shows "bidi_inv dec timeout a reqs c"
proof -
  obtain w1 where "NewStreamSession method StreamTypeBidiStream w = (a, w1)"
    and c: "c = \<lparr>bd_world = w1, bd_pc = Calling, bd_reader = False, bd_todo = reqs, bd_index = 0,
         bd_responses = [], bd_err = None, bd_arrived = [], bd_read = []\<rparr>"
    using assms(2) by (auto simp: bidi_init_def split: prod.splits)
  with on_stream_new [OF assms(1)] show ?thesis by (simp add: bidi_inv_def err_inv_def List.map_filter_def)
qed

lemma err_inv_fields [simp]:
  "err_inv timeout reqs (c\<lparr>bd_world := w\<rparr>) over = err_inv timeout reqs c over"
  "err_inv timeout reqs (c\<lparr>bd_reader := g\<rparr>) over = err_inv timeout reqs c over"
  "err_inv timeout reqs (c\<lparr>bd_responses := rs\<rparr>) over = err_inv timeout reqs c over"
  "err_inv timeout reqs (c\<lparr>bd_arrived := ds\<rparr>) over = err_inv timeout reqs c over"
  "bd_pc c \<noteq> BidiReturned \<Longrightarrow> err_inv timeout reqs (c\<lparr>bd_read := ds\<rparr>) over = err_inv timeout reqs c over"
  by (simp_all add: err_inv_def split: option.split dart_error.split)

lemma err_inv_mono: "err_inv timeout reqs c over \<Longrightarrow> (over \<Longrightarrow> over') \<Longrightarrow> err_inv timeout reqs c over'"
  by (auto simp: err_inv_def split: option.splits dart_error.splits)

lemma bidi_inv_world:
  assumes "bidi_inv dec timeout a reqs c"
    and "\<And>ds. on_stream a ds (bd_world c) \<Longrightarrow> on_stream a ds w \<and>
           (ss_done (w_heap (bd_world c) ! a) \<longrightarrow> ss_done (w_heap w ! a)) \<and>
           (reader_over (w_heap (bd_world c) ! a) \<longrightarrow> reader_over (w_heap w ! a))"
  shows "bidi_inv dec timeout a reqs (c\<lparr>bd_world := w\<rparr>)"
proof -
  obtain ds where ds: "on_stream a ds (bd_world c)" "bd_arrived c = bd_read c @ ds"
    using assms(1) unfolding bidi_inv_def by blast
  then have "\<exists>es. on_stream a es w \<and> bd_arrived c = bd_read c @ es"
    and dn: "ss_done (w_heap (bd_world c) ! a) \<longrightarrow> ss_done (w_heap w ! a)"
      "reader_over (w_heap (bd_world c) ! a) \<longrightarrow> reader_over (w_heap w ! a)"
    using assms(2) by blast+
  moreover have "err_inv timeout reqs c (ss_done (w_heap w ! a))"
  proof (rule err_inv_mono)
    show "err_inv timeout reqs c (ss_done (w_heap (bd_world c) ! a))" using assms(1) by (simp add: bidi_inv_def)
    show "ss_done (w_heap (bd_world c) ! a) \<Longrightarrow> ss_done (w_heap w ! a)" using dn(1) by blast
  qed
  ultimately show ?thesis using assms(1) by (simp add: bidi_inv_def)
qed

lemma bidi_inv_read:
  assumes "bidi_inv dec timeout a reqs c" and "bd_reader c"
    and "(d, goes, rs, w) \<in> set (reader_turn dec a (bd_responses c) (bd_world c))"
  shows "bidi_inv dec timeout a reqs (c\<lparr>bd_reader := goes, bd_responses := rs, bd_world := w,
       bd_read := bd_read c @ (case d of None \<Rightarrow> [] | Some x \<Rightarrow> [x])\<rparr>)"
proof -
  obtain ds where ds: "on_stream a ds (bd_world c)" "bd_arrived c = bd_read c @ ds"
    using assms(1) unfolding bidi_inv_def by blast
  note R = on_stream_read [OF ds(1) assms(3)]
  have pc: "bd_pc c \<noteq> Calling" "bd_pc c \<noteq> BidiReturned" using assms(1,2) by (auto simp: bidi_inv_def)
  show ?thesis
  proof (cases d)
    case None
    with R assms(1,2) ds pc show ?thesis by (auto simp: bidi_inv_def)
  next
    case (Some x)
    then obtain xs where xs: "ds = x # xs" using R by (cases ds) auto
    with R Some have "on_stream a xs w" "bd_arrived c = (bd_read c @ [x]) @ xs" using ds(2) by simp_all
    then have "\<exists>es. on_stream a es w \<and> bd_arrived c = (bd_read c @ [x]) @ es" by blast
    with R Some assms(1,2) pc show ?thesis by (simp add: bidi_inv_def map_filter_snoc [of dec])
  qed
qed

lemma reader_over_done: "ss_done s \<Longrightarrow> reader_over s"
  by (simp add: reader_over_def)

lemma bidi_step_inv:
  "bidi_step enc dec timeout a c c' \<Longrightarrow> bidi_inv dec timeout a reqs c \<Longrightarrow> bidi_inv dec timeout a reqs c'"
proof (induction rule: bidi_step.induct)
  case (bi_call_failed c e)
  then show ?case by (auto simp: bidi_inv_def err_inv_def on_stream_drop reader_over_done)
next
  case (bi_read c d goes rs w)
  then show ?case by (simp add: bidi_inv_read)
next
  case (bi_sent c q qs w)
  obtain es where w: "w = emit es (bd_world c)" using SendFromStream_emits [OF bi_sent(3)] by blast
  have "drop (bd_index c) reqs = q # qs" using bi_sent by (simp add: bidi_inv_def)
  then have "drop (Suc (bd_index c)) reqs = qs" "Suc (bd_index c) \<le> length reqs"
    by (metis drop_Suc list.sel(3) tl_drop, metis drop_all list.distinct(1) not_less_eq_eq)
  with bi_sent(1,4) w show ?case by (auto simp: bidi_inv_def err_inv_def)
next
  case (bi_send_failed c q qs e w)
  obtain es where w: "w = emit es (bd_world c)" using SendFromStream_emits [OF bi_send_failed(3)] by blast
  have "drop (bd_index c) reqs = q # qs" using bi_send_failed by (simp add: bidi_inv_def)
  then have "bd_index c < length reqs" by (metis drop_all list.distinct(1) linorder_not_le)
  with bi_send_failed(1,2,4) w show ?case by (auto simp: bidi_inv_def err_inv_def)
next
  case (bi_close_send c)
  obtain es where "snd (CloseSend a (bd_world c)) = emit es (bd_world c)" using CloseSend_emits by blast
  with bi_close_send show ?case
    by (auto simp: bidi_inv_def err_inv_def split: option.splits dart_error.splits)
next
  case (bi_timeout c)
  then show ?case by (auto simp: bidi_inv_def err_inv_def on_stream_drop reader_over_done)
next
  case (bi_arrive w c d)
  obtain ds where ds: "on_stream a ds (bd_world c)" "bd_arrived c = bd_read c @ ds"
    using bi_arrive(2) unfolding bidi_inv_def by blast
  note A = on_stream_arrive [OF ds(1) bi_arrive(1)]
  then have "\<exists>es. on_stream a es w \<and> bd_arrived c @ [d] = bd_read c @ es" using ds(2) by auto
  with A bi_arrive(2) show ?case by (auto simp: bidi_inv_def)
next
  case (bi_close_input c w)
  then show ?case using on_stream_close_input by (metis bidi_inv_world)
next
  case (bi_close c w)
  then show ?case using on_stream_done reader_over_done by (metis bidi_inv_world)
next
  case (bi_elsewhere c w)
  then show ?case using on_stream_elsewhere by (metis bidi_inv_world elsewhere_def)
qed (auto simp: bidi_inv_def err_inv_def split: option.splits dart_error.splits)

lemma bidi_reachable_inv: "bidi_reachable enc dec timeout a reqs c \<Longrightarrow> bidi_inv dec timeout a reqs c"
  by (induction rule: bidi_reachable.induct) (auto intro: bidi_inv_init bidi_step_inv)

section \<open>Properties\<close>


text \<open>
  C26. A timeout ends the call: it closes the session, after which the reader, whatever it waits
  for, can stop at once, and once it has stopped the call can return. Only a positive timeout
  can expire.
\<close>

theorem bidi_timeout_ends:
  assumes "bidi_reachable enc dec timeout a reqs c" and "bd_pc c = TimedOutWaiting"
  shows "0 < timeout \<and> ss_done (w_heap (bd_world c) ! a) \<and> bd_err c = Some StreamTimeout \<and>
    (bd_reader c \<longrightarrow> bidi_step enc dec timeout a c (c\<lparr>bd_reader := False\<rparr>)) \<and>
    bidi_step enc dec timeout a (c\<lparr>bd_reader := False\<rparr>) (c\<lparr>bd_reader := False, bd_pc := BidiReturned\<rparr>)"
proof -
  have inv: "0 < timeout" "ss_done (w_heap (bd_world c) ! a)" "bd_err c = Some StreamTimeout"
    using bidi_reachable_inv [OF assms(1)] assms(2) unfolding bidi_inv_def err_inv_def by auto
  have stop: "(None, False, bd_responses c, bd_world c) \<in> set (reader_turn dec a (bd_responses c) (bd_world c))"
    using inv(2) by (simp add: reader_turn_def Let_def)
  have "bidi_step enc dec timeout a c (c\<lparr>bd_reader := False\<rparr>)" if "bd_reader c"
    using bi_read [OF that stop, of enc timeout] by simp
  moreover have "bidi_step enc dec timeout a (c\<lparr>bd_reader := False\<rparr>) (c\<lparr>bd_reader := False, bd_pc := BidiReturned\<rparr>)"
    using bi_timed_out [of "c\<lparr>bd_reader := False\<rparr>" enc dec timeout a] assms(2) by simp
  ultimately show ?thesis using inv by blast
qed

text \<open>A call without requests on which Dart answers nothing, until its timeout.\<close>

definition demo_bidi :: "(bytes, bytes, unit) bidi" where
  "demo_bidi = (snd (bidi_init ''/s/M'' [] init_world))\<lparr>bd_reader := True, bd_pc := TimedOutWaiting,
     bd_err := Some StreamTimeout, bd_world := drop_stream 1 (snd (NewStreamSession ''/s/M'' StreamTypeBidiStream init_world))\<rparr>"

lemma demo_bidi_reachable: "bidi_reachable Some Some 1 0 [] demo_bidi"
proof -
  let ?step = "bidi_step Some Some 1 0 :: (bytes, bytes, unit) bidi \<Rightarrow> _"
  let ?w = "snd (NewStreamSession ''/s/M'' StreamTypeBidiStream init_world)"
  let ?c0 = "snd (bidi_init ''/s/M'' [] init_world) :: (bytes, bytes, unit) bidi"
  let ?c1 = "?c0\<lparr>bd_pc := Sending, bd_reader := True\<rparr>"
  let ?c2 = "?c1\<lparr>bd_pc := SendClosing\<rparr>"
  let ?c3 = "?c2\<lparr>bd_pc := Waiting, bd_world := ?w\<rparr>"
  have w: "w_heap ?w = [new_session 1 ''/s/M'' StreamTypeBidiStream init_world]"
    by (simp add: NewStreamSession_def Let_def init_world_def)
  have c0: "bd_pc ?c0 = Calling" "bd_todo ?c0 = []" "bd_world ?c0 = ?w"
    by (simp_all add: bidi_init_def split_beta)
  have "bidi_init ''/s/M'' [] init_world = (0, ?c0)"
    by (simp add: bidi_init_def NewStreamSession_def Let_def init_world_def)
  then have 0: "bidi_reachable Some Some 1 0 [] ?c0" using br_init [OF world_inv_init] by blast
  have cs: "snd (CloseSend 0 ?w) = ?w"
    by (simp add: CloseSend_def CloseSend_lock_def NewStreamSession_def Let_def new_session_def
        call_back_def init_world_def emit_def)
  have 1: "?step ?c0 ?c1" by (rule bi_called) (rule c0)
  have 2: "?step ?c1 ?c2" by (rule bi_all_sent) (simp_all add: c0)
  have 3: "?step ?c2 ?c3" using bi_close_send [of ?c2 Some Some 1 0] by (simp add: c0 cs)
  have 4: "?step ?c3 demo_bidi"
    using bi_timeout [of ?c3 1 Some Some 0] by (simp add: c0 w demo_bidi_def) (simp add: new_session_def)
  from br_step [OF br_step [OF br_step [OF br_step [OF 0 1] 2] 3] 4] show ?thesis .
qed

theorem bidi_timeout_ends_witness:
  "bidi_step Some Some 1 0 demo_bidi (demo_bidi\<lparr>bd_reader := False\<rparr>) \<and>
   bidi_step Some Some 1 0 (demo_bidi\<lparr>bd_reader := False\<rparr>) (demo_bidi\<lparr>bd_reader := False, bd_pc := BidiReturned\<rparr>)"
  using bidi_timeout_ends [OF demo_bidi_reachable] by (simp add: demo_bidi_def)






end
