(* ===== verification/ServerLife.thy ===== *)
theory ServerLife
  imports FfiEntry
begin

text \<open>
  The life of a server: the contract of its start and stop, which the server library and the
  example server both meet, and the goroutines that a start leaves behind to serve the
  listeners (\<open>cmd/server/main.go\<close>).
\<close>

section \<open>Start and stop\<close>

text \<open>A program of starts (\<open>True\<close>) and stops: the result of each start, and the final state.\<close>

fun life_run :: "('s \<Rightarrow> int \<times> 's) \<Rightarrow> ('s \<Rightarrow> 's) \<Rightarrow> bool list \<Rightarrow> 's \<Rightarrow> int list \<times> 's" where
  "life_run start stop [] s = ([], s)"
| "life_run start stop (b # bs) s =
     (if b then (let (r, s') = start s; (rs, s'') = life_run start stop bs s' in (r # rs, s''))
      else life_run start stop bs (stop s))"

text \<open>What the starts should return when the server runs or does not at the beginning.\<close>

fun life_spec :: "bool list \<Rightarrow> bool \<Rightarrow> int list \<times> bool" where
  "life_spec [] up = ([], up)"
| "life_spec (b # bs) up =
     (if b then ((if up then - 1 else 0) # fst (life_spec bs True), snd (life_spec bs True)) else life_spec bs False)"

locale server_life =
  fixes start :: "'s \<Rightarrow> int \<times> 's" and stop :: "'s \<Rightarrow> 's" and running :: "'s \<Rightarrow> bool"
  assumes start_idle: "\<not> running s \<Longrightarrow> fst (start s) = 0 \<and> running (snd (start s))"
    and start_running: "running s \<Longrightarrow> start s = (- 1, s)"
    and stop_ends: "\<not> running (stop s)"
    and stop_idle: "\<not> running s \<Longrightarrow> stop s = s"
begin

lemma life_run_spec:
  "fst (life_run start stop bs s) = fst (life_spec bs (running s)) \<and>
   running (snd (life_run start stop bs s)) = snd (life_spec bs (running s))"
proof (induction bs arbitrary: s)
  case (Cons b bs)
  show ?case
    using Cons [of "snd (start s)"] Cons [of s] Cons [of "stop s"] start_idle [of s] start_running [of s] stop_ends [of s]
    by (cases "running s") (auto simp: split_beta)
qed simp

lemma stop_stop: "stop (stop s) = stop s"
  by (rule stop_idle) (rule stop_ends)

end

definition server_start ::
    "(string \<Rightarrow> 'k option) \<Rightarrow> (string \<Rightarrow> 'n option) \<Rightarrow> (string \<times> string \<Rightarrow> bool) \<Rightarrow> bool \<Rightarrow> core_argument \<Rightarrow>
     ('n, 'k) server \<times> world \<Rightarrow> int \<times> (('n, 'k) server \<times> world)" where
  "server_start nc dial listen tcp_first arg st = StartGrpcServer nc dial listen tcp_first arg (fst st) (snd st)"

definition server_stop :: "('n, 'k) server \<times> world \<Rightarrow> ('n, 'k) server \<times> world" where
  "server_stop st = (snd (StopGrpcServer (fst st)), snd st)"

interpretation ffi_life: server_life "server_start nc dial listen tcp_first arg" server_stop "\<lambda>st. sv_srv (fst st) \<noteq> None"
  by unfold_locales
     (auto simp: server_start_def server_stop_def StartGrpcServer_def StopGrpcServer_def Let_def)

section \<open>The serving goroutines\<close>

text \<open>
  A start with listeners leaves a goroutine that ranges over the listeners and starts one more
  goroutine for each. These read the globals when they run: the first \<open>listeners\<close>, the
  others \<open>srv\<close>, on which they call \<open>Serve\<close>; a nil server is dereferenced there. A \<open>Serve\<close> that
  fails reports it to \<open>serverErrors\<close>, made anew by each start, with room for one error.
\<close>

record ('n, 'k) life =
  lf_sv :: "('n, 'k) server"
  lf_world :: world
  lf_spawners :: nat
  lf_starting :: "(string \<times> string) list"
  lf_serving :: "(string \<times> string) list"
  lf_errors :: "unit chan"
  lf_stops :: nat

definition life_init :: "world \<Rightarrow> ('n, 'k) life" where
  "life_init w = \<lparr>lf_sv = \<lparr>sv_srv = None, sv_impl = None, sv_listeners = []\<rparr>, lf_world = w, lf_spawners = 0,
     lf_starting = [], lf_serving = [], lf_errors = make_chan 1, lf_stops = 0\<rparr>"

definition serve :: "('n, 'k) server \<Rightarrow> unit service list outcome" where
  "serve sv = (case sv_srv sv of None \<Rightarrow> Panic NilDeref | Some s \<Rightarrow> Ret s)"

inductive life_step ::
    "(string \<Rightarrow> 'k option) \<Rightarrow> (string \<Rightarrow> 'n option) \<Rightarrow> (string \<times> string \<Rightarrow> bool) \<Rightarrow>
     ('n, 'k) life \<Rightarrow> ('n, 'k) life \<Rightarrow> bool"
  for nc :: "string \<Rightarrow> 'k option" and dial :: "string \<Rightarrow> 'n option" and listen :: "string \<times> string \<Rightarrow> bool"
where
  life_start: "StartGrpcServer nc dial listen tcp_first arg (lf_sv c) (lf_world c) = (0, sv, w) \<Longrightarrow>
    life_step nc dial listen c
      (c\<lparr>lf_sv := sv, lf_world := w, lf_spawners := lf_spawners c + (if sv_listeners sv = [] then 0 else 1),
         lf_errors := make_chan 1\<rparr>)"
| life_stop: "life_step nc dial listen c
      (c\<lparr>lf_sv := snd (StopGrpcServer (lf_sv c)), lf_stops := lf_stops c + 1\<rparr>)"
| life_spawn: "0 < lf_spawners c \<Longrightarrow> life_step nc dial listen c
      (c\<lparr>lf_spawners := lf_spawners c - 1, lf_starting := lf_starting c @ sv_listeners (lf_sv c)\<rparr>)"
| life_serve: "l \<in> set (lf_starting c) \<Longrightarrow> serve (lf_sv c) = Ret s \<Longrightarrow> life_step nc dial listen c
      (c\<lparr>lf_starting := remove1 l (lf_starting c), lf_serving := l # lf_serving c\<rparr>)"
| life_served: "l \<in> set (lf_serving c) \<Longrightarrow> life_step nc dial listen c
      (c\<lparr>lf_serving := remove1 l (lf_serving c)\<rparr>)"
| life_failed: "l \<in> set (lf_serving c) \<Longrightarrow> send_ready (lf_errors c) \<Longrightarrow> chan_send () (lf_errors c) = Ret ch \<Longrightarrow>
    life_step nc dial listen c (c\<lparr>lf_serving := remove1 l (lf_serving c), lf_errors := ch\<rparr>)"

definition life_reachable ::
    "(string \<Rightarrow> 'k option) \<Rightarrow> (string \<Rightarrow> 'n option) \<Rightarrow> (string \<times> string \<Rightarrow> bool) \<Rightarrow> world \<Rightarrow> ('n, 'k) life \<Rightarrow> bool" where
  "life_reachable nc dial listen w c \<longleftrightarrow> (life_step nc dial listen)\<^sup>*\<^sup>* (life_init w) c"

definition life_panics :: "('n, 'k) life \<Rightarrow> bool" where
  "life_panics c \<longleftrightarrow> lf_starting c \<noteq> [] \<and> serve (lf_sv c) = Panic NilDeref"

text \<open>Without a stop, whoever is about to serve finds a server.\<close>

definition life_inv :: "('n, 'k) life \<Rightarrow> bool" where
  "life_inv c \<longleftrightarrow> (lf_stops c = 0 \<longrightarrow> 0 < lf_spawners c \<or> lf_starting c \<noteq> [] \<longrightarrow> sv_srv (lf_sv c) \<noteq> None)"

lemma life_step_inv: "life_step nc dial listen c c' \<Longrightarrow> life_inv c \<Longrightarrow> life_inv c'"
  by (induction rule: life_step.induct)
     (auto simp: life_inv_def StartGrpcServer_def Let_def split: if_splits)

lemma life_reachable_inv: "life_reachable nc dial listen w c \<Longrightarrow> life_inv c"
  unfolding life_reachable_def
  by (induction rule: rtranclp_induct) (auto simp: life_inv_def life_init_def dest: life_step_inv)

text \<open>
  C34. A stop races with the goroutines of its start: until the first stop no serving goroutine
  dereferences a nil server, but a stop while one of them is about to serve leaves it with
  none, so that the process dies.
\<close>

theorem serve_only_stop_panics:
  assumes "life_reachable nc dial listen w c" and "lf_starting c \<noteq> []"
  shows "(lf_stops c = 0 \<longrightarrow> \<not> life_panics c) \<and>
    (\<exists>c'. life_step nc dial listen c c' \<and> lf_stops c' = lf_stops c + 1 \<and> life_panics c')"
proof -
  have "lf_stops c = 0 \<longrightarrow> \<not> life_panics c"
    using life_reachable_inv [OF assms(1)] assms(2) by (auto simp: life_inv_def life_panics_def serve_def)
  moreover have "life_panics (c\<lparr>lf_sv := snd (StopGrpcServer (lf_sv c)), lf_stops := lf_stops c + 1\<rparr>)"
    using assms(2) by (auto simp: life_panics_def serve_def StopGrpcServer_def)
  ultimately show ?thesis using life_stop [of nc dial listen c] by fastforce
qed

definition demo_arg :: core_argument where
  "demo_arg = \<lparr>arg_storagePath = None, arg_cachePath = None, arg_engineSocketPath = None,
     arg_engineTcpPort = Some ''80'', arg_viewSocketPath = None, arg_viewTcpPort = None,
     arg_token = None, arg_enableCache = 0, arg_streamTimeout = 0\<rparr>"

text \<open>A server that listens on a port, whose goroutine is about to serve.\<close>

definition started :: "(unit, unit) life" where
  "started = \<lparr>lf_sv = \<lparr>sv_srv = Some [HealthService],
       sv_impl = Some (NewCoreService (\<lambda>p. None) (\<lambda>p. None) (start_config demo_arg)),
       sv_listeners = [(''tcp'', '':80'')]\<rparr>, lf_world = init_world, lf_spawners = 0,
     lf_starting = [(''tcp'', '':80'')], lf_serving = [], lf_errors = make_chan 1, lf_stops = 0\<rparr>"

lemma started_reachable: "life_reachable (\<lambda>p. None) (\<lambda>p. None) (\<lambda>l. True) init_world started"
proof -
  let ?step = "life_step (\<lambda>p. None) (\<lambda>p. None) (\<lambda>l. True)"
  let ?s = "started\<lparr>lf_spawners := 1, lf_starting := []\<rparr>"
  have "StartGrpcServer (\<lambda>p. None) (\<lambda>p. None) (\<lambda>l. True) False demo_arg
      (lf_sv (life_init init_world)) (lf_world (life_init init_world)) = (0, lf_sv started, init_world)"
    by (simp add: StartGrpcServer_def Let_def life_init_def started_def NewGrpcServer_def NewCoreService_def
        start_config_def demo_arg_def or_empty_def start_listeners_def SetDefaultStreamTimeout_def wrap64_def init_world_def)
  from life_start [OF this] have "?step (life_init init_world) ?s"
    by (simp add: life_init_def started_def)
  moreover have "?step ?s started"
    using life_spawn [of ?s "\<lambda>p. None" "\<lambda>p. None" "\<lambda>l. True"] by (simp add: started_def)
  ultimately show ?thesis by (auto simp: life_reachable_def)
qed

theorem serve_only_stop_panics_witness:
  "life_reachable (\<lambda>p. None) (\<lambda>p. None) (\<lambda>l. True) init_world started \<and> \<not> life_panics started \<and>
   (\<exists>c. life_step (\<lambda>p. None) (\<lambda>p. None) (\<lambda>l. True) started c \<and> life_panics c)"
  using serve_only_stop_panics [OF started_reachable] started_reachable by (auto simp: started_def)

end
