(* ===== verification/SessionLoop.thy ===== *)
theory SessionLoop
  imports StreamSession
begin

text \<open>
  The loop that the stream handlers of the example share: a select over \<open>DataChan\<close> and
  \<open>DoneChan\<close> that treats a chunk, the end of the input, and the end of the session. The
  handlers' own parts are its arguments: \<open>on_data\<close> returns from the handler (\<open>Inl\<close>) or goes
  on with a new value of its local variables (\<open>Inr\<close>).
\<close>

type_synonym 's on_data = "bytes \<Rightarrow> 's \<Rightarrow> world \<Rightarrow> world outcome + ('s \<times> world)"

text \<open>
  The results of a run in which nobody else touches the session, with fuel for the turns;
  no result means that the handler waits.
\<close>

fun session_loop ::
    "nat \<Rightarrow> 's on_data \<Rightarrow> ('s \<Rightarrow> world \<Rightarrow> world outcome) \<Rightarrow> nat \<Rightarrow> 's \<Rightarrow> world \<Rightarrow> world outcome list" where
  "session_loop 0 on_data on_eof a st w = []"
| "session_loop (Suc n) on_data on_eof a st w =
     concat (map (\<lambda>(v, w').
       case v of
         None \<Rightarrow> [on_eof st w']
       | Some d \<Rightarrow> (case on_data d st w' of
                      Inl r \<Rightarrow> [r] | Inr (st', w'') \<Rightarrow> session_loop n on_data on_eof a st' w''))
       (RecvData a w)) @
     (if ss_done (w_heap w ! a) then [Ret w] else [])"

section \<open>A finished input\<close>

text \<open>The world when everything queued on session \<open>a\<close> has been received but \<open>ds\<close>.\<close>

definition with_queue :: "nat \<Rightarrow> bytes list \<Rightarrow> world \<Rightarrow> world" where
  "with_queue a ds w =
     w\<lparr>w_heap := (w_heap w)[a := (w_heap w ! a)\<lparr>ss_data := (ss_data (w_heap w ! a))\<lparr>ch_buf := ds\<rparr>\<rparr>]\<rparr>"

definition input_finished :: "nat \<Rightarrow> bytes list \<Rightarrow> world \<Rightarrow> bool" where
  "input_finished a ds w \<longleftrightarrow> a < length (w_heap w) \<and> \<not> ss_done (w_heap w ! a) \<and>
     ch_closed (ss_data (w_heap w ! a)) \<and> ch_buf (ss_data (w_heap w ! a)) = ds"

lemma with_queue_simps [simp]:
  "w_out (with_queue a ds w) = w_out w" "w_registry (with_queue a ds w) = w_registry w"
  "length (w_heap (with_queue a ds w)) = length (w_heap w)"
  by (simp_all add: with_queue_def)

lemma with_queue_session:
  "a < length (w_heap w) \<Longrightarrow>
     w_heap (with_queue a ds w) ! a = (w_heap w ! a)\<lparr>ss_data := (ss_data (w_heap w ! a))\<lparr>ch_buf := ds\<rparr>\<rparr>"
  by (simp add: with_queue_def)

lemma with_queue_emit: "with_queue a ds (emit es w) = emit es (with_queue a ds w)"
  by (simp add: with_queue_def emit_def)

lemma with_queue_again [simp]: "with_queue a ds (with_queue a es w) = with_queue a ds w"
  by (cases "a < length (w_heap w)") (simp_all add: with_queue_def list_update_beyond)

lemma emit_emit [simp]: "emit es (emit fs w) = emit (fs @ es) w"
  by (simp add: emit_def)

lemma emit_Nil [simp]: "emit [] w = w"
  by (simp add: emit_def)

lemma input_finished_emit [simp]: "input_finished a ds (emit es w) = input_finished a ds w"
  by (simp add: input_finished_def)

lemma input_finished_queue: "input_finished a ds w \<Longrightarrow> input_finished a es (with_queue a es w)"
  by (simp add: input_finished_def with_queue_session)

lemma with_queue_self: "input_finished a ds w \<Longrightarrow> with_queue a ds w = w"
proof -
  assume "input_finished a ds w"
  then have "(w_heap w ! a)\<lparr>ss_data := (ss_data (w_heap w ! a))\<lparr>ch_buf := ds\<rparr>\<rparr> = w_heap w ! a"
    by (auto simp: input_finished_def)
  then show ?thesis by (simp add: with_queue_def)
qed

lemma RecvData_finished:
  "input_finished a (d # ds) w \<Longrightarrow> RecvData a w = [(Some d, with_queue a ds w)]"
  by (simp add: RecvData_def Let_def recv_ready_def input_finished_def with_queue_def)

lemma RecvData_eof: "input_finished a [] w \<Longrightarrow> RecvData a w = [(None, w)]"
  by (simp add: RecvData_def Let_def recv_ready_def input_finished_def)

text \<open>What a loop that goes on for every chunk calls back, chunk after chunk.\<close>

fun loop_events :: "(bytes \<Rightarrow> 's \<Rightarrow> 's) \<Rightarrow> (bytes \<Rightarrow> 's \<Rightarrow> stream_event list) \<Rightarrow> bytes list \<Rightarrow> 's \<Rightarrow> stream_event list" where
  "loop_events f g [] st = []"
| "loop_events f g (d # ds) st = g d st @ loop_events f g ds (f d st)"

text \<open>
  On a finished input the loop is deterministic: it treats the chunks in order, then the end.
  \<open>f\<close> and \<open>g\<close> say what a chunk does to the local variables and what it calls back.
\<close>

lemma session_loop_finished:
  assumes "input_finished a ds w" and "length ds < n"
    and "\<And>d st es fs. d \<in> set ds \<Longrightarrow>
           on_data d st (emit es (with_queue a fs w)) = Inr (f d st, emit (g d st) (emit es (with_queue a fs w)))"
  shows "session_loop n on_data on_eof a st w =
     [on_eof (fold f ds st) (emit (loop_events f g ds st) (with_queue a [] w))]"
proof -
  have "session_loop n on_data on_eof a st (emit es (with_queue a xs w)) =
      [on_eof (fold f xs st) (emit (es @ loop_events f g xs st) (with_queue a [] w))]"
    if "set xs \<subseteq> set ds" "length xs < n" for xs n es st
    using that
  proof (induction xs arbitrary: n es st)
    case Nil
    then obtain k where n: "n = Suc k" by (cases n) auto
    let ?w = "emit es (with_queue a [] w)"
    have "input_finished a [] ?w" using assms(1) by (simp add: input_finished_queue)
    then show ?case
      by (simp add: n RecvData_eof del: emit_simps) (simp add: input_finished_def)
  next
    case (Cons d xs)
    then obtain k where n: "n = Suc k" by (cases n) auto
    let ?w = "emit es (with_queue a (d # xs) w)"
    have fin: "input_finished a (d # xs) ?w" using assms(1) by (simp add: input_finished_queue)
    have recv: "RecvData a ?w = [(Some d, emit es (with_queue a xs w))]"
      by (simp only: RecvData_finished [OF fin] with_queue_emit with_queue_again)
    have nd: "\<not> ss_done (w_heap ?w ! a)" using fin by (simp add: input_finished_def)
    have data: "on_data d st (emit es (with_queue a xs w)) = Inr (f d st, emit (es @ g d st) (with_queue a xs w))"
      using assms(3) [of d st es xs] Cons.prems(1) by simp
    have "session_loop n on_data on_eof a st ?w =
        session_loop k on_data on_eof a (f d st) (emit (es @ g d st) (with_queue a xs w))"
      using nd by (simp only: n session_loop.simps recv) (simp add: data)
    also have "\<dots> = [on_eof (fold f xs (f d st)) (emit ((es @ g d st) @ loop_events f g xs (f d st)) (with_queue a [] w))]"
      using Cons.prems n by (intro Cons.IH) auto
    finally show ?case by simp
  qed
  from this [of ds n st "[]"] assms(2) show ?thesis by (simp add: with_queue_self [OF assms(1)])
qed

section \<open>Sending on an open session\<close>

lemma SendFromStream_open:
  "\<not> ss_closed (w_heap w ! a) \<Longrightarrow>
     SendFromStream a d w = (None, emit (call_back (ss_callback (w_heap w ! a)) (ss_id (w_heap w ! a)) StreamMsgData d) w)"
  by (simp add: SendFromStream_def SendFromStream_lock_def Let_def)

text \<open>Ending an open session: the calls, and the flags it leaves.\<close>

lemma EndStream_open:
  assumes "a < length (w_heap w)" and "session_inv (w_heap w ! a)" and "\<not> ss_closed (w_heap w ! a)"
  shows "\<exists>w'. EndStream ord a w = Ret w' \<and> w_out w' = w_out w @ EndStream_calls ord (w_heap w ! a) (w_heap w ! a) \<and>
    ss_closed (w_heap w' ! a) \<and> ss_done (w_heap w' ! a)"
proof -
  let ?s = "w_heap w ! a"
  have "\<not> ss_done ?s" using assms(2,3) by (auto simp: session_inv_def)
  moreover obtain s' where s': "close_input (?s\<lparr>ss_closed := True\<rparr>) = Ret s'" "ss_closed s'"
    "ss_done s' = ss_done ?s" "ss_callback s' = ss_callback ?s" "ss_trailers s' = ss_trailers ?s" "ss_id s' = ss_id ?s"
    using assms(2,3) by (auto simp: close_input_def chan_close_def session_inv_def)
  ultimately show ?thesis using assms(1,3)
    by (auto simp: EndStream_def end_lock_def end_done_def on_session_def signal_close_def EndStream_calls_def)
qed

end
