(* ===== verification/GoStrings.thy ===== *)
theory GoStrings
  imports Prelude "HOL-Library.List_Lexorder" "HOL-Library.Char_ord" "HOL-Library.Sublist"
begin

text \<open>
  The functions of Go's \<open>strings\<close> and \<open>path/filepath\<close> packages that the program uses, on
  strings as lists of bytes. An index of -1 is \<open>None\<close>. Case and blanks are those of ASCII.
\<close>

section \<open>Searching\<close>

definition HasPrefix :: "string \<Rightarrow> string \<Rightarrow> bool" where
  "HasPrefix s p \<longleftrightarrow> take (length p) s = p"

fun Index :: "string \<Rightarrow> string \<Rightarrow> nat option" where
  "Index [] sub = (if sub = [] then Some 0 else None)"
| "Index (c # cs) sub = (if HasPrefix (c # cs) sub then Some 0 else map_option Suc (Index cs sub))"

fun LastIndex :: "string \<Rightarrow> string \<Rightarrow> nat option" where
  "LastIndex [] sub = (if sub = [] then Some 0 else None)"
| "LastIndex (c # cs) sub =
     (case LastIndex cs sub of
        Some i \<Rightarrow> Some (Suc i)
      | None \<Rightarrow> if HasPrefix (c # cs) sub then Some 0 else None)"

text \<open>\<open>strings.Contains\<close>.\<close>

definition Contains_str :: "string \<Rightarrow> string \<Rightarrow> bool" where
  "Contains_str s sub \<longleftrightarrow> Index s sub \<noteq> None"

lemma HasPrefix_length: "HasPrefix s p \<Longrightarrow> length p \<le> length s"
  by (auto simp: HasPrefix_def dest: arg_cong [where f = length])

lemma Index_bound: "Index s sub = Some i \<Longrightarrow> i + length sub \<le> length s"
proof (induction s arbitrary: i)
  case (Cons c cs)
  then show ?case using HasPrefix_length [of "c # cs" sub] by (auto split: if_splits)
qed (auto split: if_splits)

section \<open>Cutting\<close>

text \<open>\<open>strings.Split\<close>; an empty separator splits between all characters.\<close>

function Split :: "string \<Rightarrow> string \<Rightarrow> string list" where
  "Split s sep =
     (if sep = [] then map (\<lambda>c. [c]) s
      else (case Index s sep of
              None \<Rightarrow> [s]
            | Some i \<Rightarrow> take i s # Split (drop (i + length sep) s) sep))"
  by pat_completeness auto

termination
proof (relation "measure (\<lambda>(s, sep). length s)", simp)
  fix s sep :: string and i
  assume "sep \<noteq> []" "Index s sep = Some i"
  with Index_bound [of s sep i] show "((drop (i + length sep) s, sep), (s, sep)) \<in> measure (\<lambda>(s, sep). length s)"
    by (cases s) auto
qed

declare Split.simps [simp del]

definition TrimPrefix :: "string \<Rightarrow> string \<Rightarrow> string" where
  "TrimPrefix s p = (if HasPrefix s p then drop (length p) s else s)"

definition TrimSuffix :: "string \<Rightarrow> string \<Rightarrow> string" where
  "TrimSuffix s p = (if HasPrefix (rev s) (rev p) then take (length s - length p) s else s)"

definition blank :: "char \<Rightarrow> bool" where
  "blank c \<longleftrightarrow> of_char c \<in> {9, 10, 11, 12, 13, 32 :: nat}"

definition TrimSpace :: "string \<Rightarrow> string" where
  "TrimSpace s = rev (dropWhile blank (rev (dropWhile blank s)))"

section \<open>Making\<close>

text \<open>\<open>strings.Join\<close>.\<close>

fun join :: "string \<Rightarrow> string list \<Rightarrow> string" where
  "join sep [] = ''''"
| "join sep [x] = x"
| "join sep (x # y # ys) = x @ sep @ join sep (y # ys)"

text \<open>\<open>strings.ReplaceAll\<close> of a text that is not empty.\<close>

definition ReplaceAll :: "string \<Rightarrow> string \<Rightarrow> string \<Rightarrow> string" where
  "ReplaceAll s old new = join new (Split s old)"

definition is_upper :: "char \<Rightarrow> bool" where
  "is_upper c \<longleftrightarrow> 65 \<le> (of_char c :: nat) \<and> (of_char c :: nat) \<le> 90"

definition is_lower :: "char \<Rightarrow> bool" where
  "is_lower c \<longleftrightarrow> 97 \<le> (of_char c :: nat) \<and> (of_char c :: nat) \<le> 122"

definition ToLower :: "string \<Rightarrow> string" where
  "ToLower = map (\<lambda>c. if is_upper c then char_of (of_char c + 32 :: nat) else c)"

definition ToUpper :: "string \<Rightarrow> string" where
  "ToUpper = map (\<lambda>c. if is_lower c then char_of (of_char c - 32 :: nat) else c)"

text \<open>\<open>filepath.Base\<close> on slashes.\<close>

definition after_last :: "string \<Rightarrow> string \<Rightarrow> string" where
  "after_last s sep = (case LastIndex s sep of Some i \<Rightarrow> drop (i + 1) s | None \<Rightarrow> s)"

definition Base :: "string \<Rightarrow> string" where
  "Base path =
     (if path = [] then ''.''
      else (let p = rev (dropWhile (\<lambda>c. c = CHR ''/'') (rev path)); b = after_last p ''/'' in
            if b = [] then ''/'' else b))"

section \<open>Facts\<close>

lemma Split_nonempty [simp]: "sep \<noteq> [] \<Longrightarrow> Split s sep \<noteq> []"
  by (subst Split.simps) (simp split: option.split)

text \<open>What is split can be joined again.\<close>

lemma Index_split: "Index s sub = Some i \<Longrightarrow> take i s @ sub @ drop (i + length sub) s = s"
proof (induction s arbitrary: i)
  case (Cons c cs)
  show ?case
  proof (cases "HasPrefix (c # cs) sub")
    case True
    with Cons.prems have "i = 0" by simp
    with True show ?thesis using append_take_drop_id [of "length sub" "c # cs"] by (simp add: HasPrefix_def)
  next
    case False
    with Cons.prems obtain j where "Index cs sub = Some j" "i = Suc j" by auto
    with Cons.IH show ?thesis by simp
  qed
qed (auto split: if_splits)

lemma join_Cons: "xs \<noteq> [] \<Longrightarrow> join sep (x # xs) = x @ sep @ join sep xs"
  by (cases xs) simp_all

lemma join_Split: "sep \<noteq> [] \<Longrightarrow> join sep (Split s sep) = s"
proof (induction s sep rule: Split.induct)
  case (1 s sep)
  show ?case
  proof (cases "Index s sep")
    case None
    then show ?thesis using 1(2) by (simp add: Split.simps [of s])
  next
    case (Some i)
    then show ?thesis using 1 Index_split [OF Some]
      by (simp add: Split.simps [of s] join_Cons)
  qed
qed

text \<open>The last slash is followed by no other.\<close>

lemma LastIndex_char_None: "LastIndex s [c] = None \<longleftrightarrow> c \<notin> set s"
  by (induction s) (auto simp: HasPrefix_def split: option.splits if_splits)

lemma after_last_no_sep: "c \<notin> set (after_last s [c])"
proof (induction s)
  case (Cons d ds)
  then show ?case
    using LastIndex_char_None [of ds c]
    by (cases "LastIndex ds [c]") (auto simp: after_last_def HasPrefix_def)
qed (simp add: after_last_def)

end
