(* ===== verification/ExampleGreeter.thy ===== *)
theory ExampleGreeter
  imports CoreService GoStrings
begin

text \<open>
  The greeter service of the example (\<open>example/go/service/greeter.go\<close> and the gRPC half of
  \<open>file_service.go\<close>): its methods as gRPC calls them, and the calls from Go into Dart that it
  makes through the core service. A stream of gRPC is the list of what its receives return,
  and the success of its sends. The time that \<open>timestamppb.Now\<close> reads is an argument (\<open>now\<close>, or
  \<open>clock k\<close> for the response after \<open>k\<close> others); logging is left out.
\<close>

section \<open>Messages\<close>

record hello_request =
  hq_name :: string
  hq_language :: string

record hello_response =
  hr_message :: string
  hr_from :: string
  hr_timestamp :: "int option"

record goroutines_response =
  gr_count :: int
  gr_message :: string

text \<open>The greetings, as the bytes of their UTF-8 text.\<close>

definition getGreeting :: "string \<Rightarrow> string \<Rightarrow> string" where
  "getGreeting language name =
     (if language = ''ko'' then
        bytes_str [0xec, 0x95, 0x88, 0xeb, 0x85, 0x95, 0xed, 0x95, 0x98, 0xec, 0x84, 0xb8, 0xec, 0x9a, 0x94, 0x2c, 0x20]
          @ name @ bytes_str [0xeb, 0x8b, 0x98, 0x21]
      else if language = ''zh'' then
        bytes_str [0xe4, 0xbd, 0xa0, 0xe5, 0xa5, 0xbd, 0x2c, 0x20] @ name @ ''!''
      else if language = ''jp'' then
        bytes_str [0xe3, 0x81, 0x93, 0xe3, 0x82, 0x93, 0xe3, 0x81, 0xab, 0xe3, 0x81, 0xa1, 0xe3, 0x81, 0xaf, 0xe3, 0x80, 0x81]
          @ name @ bytes_str [0xe3, 0x81, 0x95, 0xe3, 0x82, 0x93, 0x21]
      else if language = ''hi'' then
        bytes_str [0xe0, 0xa4, 0xa8, 0xe0, 0xa4, 0xae, 0xe0, 0xa4, 0xb8, 0xe0, 0xa5, 0x8d, 0xe0, 0xa4, 0xa4, 0xe0, 0xa5, 0x87, 0x2c, 0x20]
          @ name @ ''!''
      else ''Hello, '' @ name @ ''!'')"

definition go_response :: "int \<Rightarrow> string \<Rightarrow> hello_response" where
  "go_response now msg = \<lparr>hr_message = msg, hr_from = ''go'', hr_timestamp = Some now\<rparr>"

section \<open>The Go methods over gRPC\<close>

text \<open>\<open>GetGoroutines\<close> on the counters of the server; \<open>stack\<close> is the dump of the runtime.\<close>

record greeter =
  gs_lastGoroutineCount :: int
  gs_callCount :: int

definition GetGoroutines :: "int \<Rightarrow> string \<Rightarrow> bool \<Rightarrow> greeter \<Rightarrow> goroutines_response \<times> greeter" where
  "GetGoroutines current stack as_string g =
     (\<lparr>gr_count = (current + 2 ^ 31) mod 2 ^ 32 - 2 ^ 31,
       gr_message = (if as_string then take (2 * 2 ^ 20) stack else '''')\<rparr>,
      \<lparr>gs_lastGoroutineCount = current, gs_callCount = wrap64 (gs_callCount g + 1)\<rparr>)"

text \<open>The peer of a context, if there is one, by the network of its address.\<close>

definition getTransport :: "string option \<Rightarrow> string" where
  "getTransport p =
     (case p of
        None \<Rightarrow> ''FFI''
      | Some network \<Rightarrow>
          if network = ''unix'' then ''UDS'' else if network = ''tcp'' then ''TCP'' else network)"

definition Bar :: "int \<Rightarrow> hello_request \<Rightarrow> hello_response" where
  "Bar now req = go_response now (getGreeting (hq_language req) (hq_name req))"

text \<open>
  \<open>BarServerStream\<close>: the numbered greetings, until a send fails (\<open>send_err k\<close> is the error of
  the send after \<open>k\<close> others).
\<close>

definition numbered :: "nat \<Rightarrow> string \<Rightarrow> string" where
  "numbered i greeting = ''['' @ show_nat i @ ''/5] '' @ greeting"

fun greet_all ::
    "(nat \<Rightarrow> int) \<Rightarrow> (nat \<Rightarrow> 'e option) \<Rightarrow> string \<Rightarrow> nat \<Rightarrow> string list \<Rightarrow> hello_response list \<Rightarrow>
     hello_response list \<times> 'e option" where
  "greet_all clock send_err name i [] sent = (sent, None)"
| "greet_all clock send_err name i (lang # langs) sent =
     (case send_err (length sent) of
        Some e \<Rightarrow> (sent, Some e)
      | None \<Rightarrow> greet_all clock send_err name (i + 1) langs
                  (sent @ [go_response (clock (length sent)) (numbered (i + 1) (getGreeting lang name))]))"

definition BarServerStream ::
    "(nat \<Rightarrow> int) \<Rightarrow> (nat \<Rightarrow> 'e option) \<Rightarrow> hello_request \<Rightarrow> hello_response list \<times> 'e option" where
  "BarServerStream clock send_err req =
     greet_all clock send_err (hq_name req) 0 [''ko'', ''en'', ''zh'', ''jp'', ''hi''] []"

text \<open>What the receives of a stream return.\<close>

datatype ('m, 'e) grpc_in = InMsg 'm | InEOF | InErr 'e

text \<open>The receiving loop of a client stream; no result means that the stream goes on.\<close>

fun recv_all :: "('m, 'e) grpc_in list \<Rightarrow> 'm list \<Rightarrow> ('e + 'm list) option" where
  "recv_all [] ms = None"
| "recv_all (InMsg m # ins) ms = recv_all ins (ms @ [m])"
| "recv_all (InEOF # ins) ms = Some (Inr ms)"
| "recv_all (InErr e # ins) ms = Some (Inl e)"

definition BarClientStream :: "int \<Rightarrow> (hello_request, 'e) grpc_in list \<Rightarrow> ('e + hello_response) option" where
  "BarClientStream now ins =
     map_option (map_sum id (\<lambda>reqs. go_response now (''Hello to all: '' @ join '', '' (map hq_name reqs) @ ''!'')))
       (recv_all ins [])"

text \<open>The loop of a bidirectional stream: one reply per message, after those sent so far.\<close>

fun reply_each ::
    "(nat \<Rightarrow> 'm \<Rightarrow> 'r) \<Rightarrow> (nat \<Rightarrow> 'e option) \<Rightarrow> ('m, 'e) grpc_in list \<Rightarrow> 'r list \<Rightarrow> ('r list \<times> 'e option) option" where
  "reply_each f send_err [] sent = None"
| "reply_each f send_err (InMsg m # ins) sent =
     (case send_err (length sent) of
        Some e \<Rightarrow> Some (sent, Some e) | None \<Rightarrow> reply_each f send_err ins (sent @ [f (length sent) m]))"
| "reply_each f send_err (InEOF # ins) sent = Some (sent, None)"
| "reply_each f send_err (InErr e # ins) sent = Some (sent, Some e)"

definition BarBidiStream ::
    "(nat \<Rightarrow> int) \<Rightarrow> (nat \<Rightarrow> 'e option) \<Rightarrow> (hello_request, 'e) grpc_in list \<Rightarrow>
     (hello_response list \<times> 'e option) option" where
  "BarBidiStream clock send_err ins =
     reply_each (\<lambda>k req. go_response (clock k) (getGreeting (hq_language req) (hq_name req))) send_err ins []"

section \<open>Files over gRPC\<close>

text \<open>
  A file is sent in chunks. \<open>hash\<close> is the hexadecimal SHA-256 of what has been written to the
  hasher, \<open>rd n r\<close> the next \<open>n\<close> bytes of the random source. The result of an upload is
  the trailer with the status.
\<close>

definition add_size :: "int \<Rightarrow> nat \<Rightarrow> int" where
  "add_size t n = (t + int n + 2 ^ 63) mod 2 ^ 64 - 2 ^ 63"

definition UploadFile ::
    "(bytes \<Rightarrow> string) \<Rightarrow> (bytes, 'e) grpc_in list \<Rightarrow> ('e + (string \<times> string) list \<times> int) option" where
  "UploadFile hash ins =
     map_option (map_sum id (\<lambda>chunks. ([(''x-file-hash'', hash (concat chunks))],
         foldl (\<lambda>t c. add_size t (length c)) 0 chunks)))
       (recv_all ins [])"

definition bufSize :: int where
  "bufSize = 64 * 1024"

function DownloadFile_loop ::
    "(int \<Rightarrow> 'r \<Rightarrow> bytes \<times> 'r) \<Rightarrow> (nat \<Rightarrow> 'e option) \<Rightarrow> int \<Rightarrow> 'r \<Rightarrow> bytes list \<Rightarrow> bytes list \<times> 'e option" where
  "DownloadFile_loop rd send_err remaining r sent =
     (if remaining > 0
      then (let chunkSize = (if remaining < bufSize then remaining else bufSize);
                (chunkData, r') = rd chunkSize r
            in case send_err (length sent) of
                 Some e \<Rightarrow> (sent, Some e)
               | None \<Rightarrow> DownloadFile_loop rd send_err (remaining - chunkSize) r' (sent @ [chunkData]))
      else (sent, None))"
  by pat_completeness auto

termination
  by (relation "measure (\<lambda>(rd, send_err, remaining, r, sent). nat remaining)")
     (auto simp: bufSize_def split: if_splits)

declare DownloadFile_loop.simps [simp del]

definition DownloadFile ::
    "(bytes \<Rightarrow> string) \<Rightarrow> (int \<Rightarrow> 'r \<Rightarrow> bytes \<times> 'r) \<Rightarrow> (nat \<Rightarrow> 'e option) \<Rightarrow> int \<Rightarrow> 'r \<Rightarrow>
     bytes list \<times> ('e + (string \<times> string) list)" where
  "DownloadFile hash rd send_err sz r =
     (case DownloadFile_loop rd send_err sz r [] of
        (sent, Some e) \<Rightarrow> (sent, Inl e)
      | (sent, None) \<Rightarrow> (sent, Inr [(''x-file-hash'', hash (concat sent))]))"

definition BidiFile :: "(nat \<Rightarrow> 'e option) \<Rightarrow> (bytes, 'e) grpc_in list \<Rightarrow> (bytes list \<times> 'e option) option" where
  "BidiFile send_err ins = reply_each (\<lambda>k. id) send_err ins []"

section \<open>Calling Dart\<close>

text \<open>
  The calls through the core service (its functions are arguments), and what they make of the
  responses.
\<close>

definition dart_method :: "string \<Rightarrow> string" where
  "dart_method m = ''/example.v1.DartGreeterService/'' @ m"

definition listing :: "int \<Rightarrow> string \<Rightarrow> hello_response list \<Rightarrow> hello_response" where
  "listing now intro rs =
     \<lparr>hr_message = intro @ show_nat (length rs) @ '' messages:'' @
        concat (map (\<lambda>r. CHR 0x0A # '' '' @ hr_message r) rs),
      hr_from = ''dart'', hr_timestamp = Some now\<rparr>"

definition CallDartFoo ::
    "(string \<Rightarrow> hello_request \<Rightarrow> 'e + hello_response) \<Rightarrow> string \<Rightarrow> string \<Rightarrow> 'e + hello_response" where
  "CallDartFoo invoke name language =
     invoke (dart_method ''Foo'') \<lparr>hq_name = name, hq_language = language\<rparr>"

definition CallDartFooServerStream ::
    "int \<Rightarrow> (string \<Rightarrow> hello_request \<Rightarrow> 'e + hello_response list) \<Rightarrow> string \<Rightarrow> 'e + hello_response" where
  "CallDartFooServerStream now invoke name =
     map_sum id (listing now ''Received '')
       (invoke (dart_method ''FooServerStream'') \<lparr>hq_name = name, hq_language = ''''\<rparr>)"

definition CallDartFooClientStream ::
    "(string \<Rightarrow> hello_request list \<Rightarrow> 'e + hello_response) \<Rightarrow> string \<Rightarrow> 'e + hello_response" where
  "CallDartFooClientStream invoke name =
     invoke (dart_method ''FooClientStream'')
       (map (\<lambda>s. \<lparr>hq_name = name @ s, hq_language = ''''\<rparr>) [''-1'', ''-2'', ''-3''])"

definition CallDartFooBidiStream ::
    "int \<Rightarrow> (string \<Rightarrow> hello_request list \<Rightarrow> 'e + hello_response list) \<Rightarrow> string \<Rightarrow> 'e + hello_response" where
  "CallDartFooBidiStream now invoke name =
     map_sum id (listing now ''Bidi exchanged '')
       (invoke (dart_method ''FooBidiStream'')
          [\<lparr>hq_name = name @ ''-A'', hq_language = ''en''\<rparr>, \<lparr>hq_name = name @ ''-B'', hq_language = ''ko''\<rparr>])"

datatype trigger_action =
  UNARY | SERVER_STREAM | CLIENT_STREAM | BIDI_STREAM | UPLOAD_FILE | DOWNLOAD_FILE | BIDI_FILE | OtherAction int

text \<open>
  \<open>Trigger\<close>: the calls of the service are arguments. The first four actions read fields of the
  payload, which is nil when the request has none.
\<close>

record 'e dart_calls =
  dc_foo :: "string \<Rightarrow> string \<Rightarrow> 'e + hello_response"
  dc_server :: "string \<Rightarrow> 'e + hello_response"
  dc_client :: "string \<Rightarrow> 'e + hello_response"
  dc_bidi :: "string \<Rightarrow> 'e + hello_response"
  dc_upload :: "int \<Rightarrow> 'e + hello_response"
  dc_download :: "int \<Rightarrow> 'e + hello_response"
  dc_bidi_file :: "int \<Rightarrow> 'e + hello_response"

datatype 'e trigger_error = NotSupported trigger_action | CallError 'e

definition with_payload :: "hello_request option \<Rightarrow> (hello_request \<Rightarrow> 'b) \<Rightarrow> 'b outcome" where
  "with_payload payload f = (case payload of None \<Rightarrow> Panic NilDeref | Some p \<Rightarrow> Ret (f p))"

definition Trigger ::
    "'e dart_calls \<Rightarrow> trigger_action \<Rightarrow> hello_request option \<Rightarrow> int \<Rightarrow> ('e trigger_error + hello_response) outcome" where
  "Trigger dc action payload fileSize =
     (let res = map_sum CallError id in
      case action of
        UNARY \<Rightarrow> with_payload payload (\<lambda>p. res (dc_foo dc (hq_name p) (hq_language p)))
      | SERVER_STREAM \<Rightarrow> with_payload payload (\<lambda>p. res (dc_server dc (hq_name p)))
      | CLIENT_STREAM \<Rightarrow> with_payload payload (\<lambda>p. res (dc_client dc (hq_name p)))
      | BIDI_STREAM \<Rightarrow> with_payload payload (\<lambda>p. res (dc_bidi dc (hq_name p)))
      | UPLOAD_FILE \<Rightarrow> Ret (res (dc_upload dc fileSize))
      | DOWNLOAD_FILE \<Rightarrow> Ret (res (dc_download dc fileSize))
      | BIDI_FILE \<Rightarrow> Ret (res (dc_bidi_file dc fileSize))
      | OtherAction n \<Rightarrow> Ret (Inl (NotSupported action)))"

section \<open>The unary shims\<close>

text \<open>What a streaming method answers when it is called as a unary one.\<close>

definition BarServerStreamInternal :: "int \<Rightarrow> hello_request \<Rightarrow> hello_response" where
  "BarServerStreamInternal now req = go_response now (getGreeting (hq_language req) (hq_name req))"

definition BarClientStreamInternal :: "int \<Rightarrow> hello_request \<Rightarrow> hello_response" where
  "BarClientStreamInternal now req = go_response now (getGreeting (hq_language req) (hq_name req))"

definition BarBidiStreamInternal :: "int \<Rightarrow> hello_request \<Rightarrow> hello_response" where
  "BarBidiStreamInternal now req = go_response now (getGreeting (hq_language req) (hq_name req))"

section \<open>The stubs\<close>

text \<open>
  The methods that Dart implements, and the unary shims of the file methods, fail with a text
  that is their own name and a reason.
\<close>

definition dart_stub :: "string \<Rightarrow> string + hello_response" where
  "dart_stub method = Inl (method @ '' should be handled by Dart'')"

definition file_stub :: "string \<Rightarrow> string + 'r" where
  "file_stub method = Inl (method @ '' not implemented: use streaming API'')"

end
