(* ===== verification/ExampleHandlers.thy ===== *)
theory ExampleHandlers
  imports SessionLoop ExampleGreeter
begin

text \<open>
  The stream handlers of the example that run over FFI sessions
  (\<open>example/go/service/stream_impl.go\<close> and \<open>file_service.go\<close>) and its file calls into Dart.
  \<open>dec\<close> and \<open>enc\<close> are the codec, with the error text of a refused message; \<open>ord\<close> is the
  order of Go's map iteration; \<open>hash\<close> and \<open>rd\<close> are as in \<open>ExampleGreeter\<close>.
\<close>

fun joinNames :: "string list \<Rightarrow> string" where
  "joinNames [] = ''(nobody)''"
| "joinNames (n # ns) = foldl (\<lambda>result x. result @ '', '' @ x) n ns"

text \<open>A response of these handlers has no timestamp.\<close>

definition ffi_response :: "string \<Rightarrow> hello_response" where
  "ffi_response msg = \<lparr>hr_message = msg, hr_from = ''go'', hr_timestamp = None\<rparr>"

text \<open>The start of a handler that waits for Dart.\<close>

definition when_ready :: "nat \<Rightarrow> (world \<Rightarrow> world outcome list) \<Rightarrow> world \<Rightarrow> world outcome list" where
  "when_ready a handler w =
     concat (map (\<lambda>ok. if ok then handler w else [ErrorStream a ''stream not ready or closed'' w])
       (WaitForReady a w))"

section \<open>The greeter's streams\<close>

text \<open>Whether all greetings were sent, with the world.\<close>

fun send_greetings ::
    "(hello_response \<Rightarrow> bytes) \<Rightarrow> nat \<Rightarrow> string \<Rightarrow> nat \<Rightarrow> string list \<Rightarrow> world \<Rightarrow> bool \<times> world" where
  "send_greetings enc a name i [] w = (True, w)"
| "send_greetings enc a name i (lang # langs) w =
     (case SendFromStream a (enc (ffi_response (numbered (i + 1) (getGreeting lang name)))) w of
        (Some e, w') \<Rightarrow> (False, w')
      | (None, w') \<Rightarrow> send_greetings enc a name (i + 1) langs w')"

definition HandleBarServerStream ::
    "(bytes \<Rightarrow> string + hello_request) \<Rightarrow> (hello_response \<Rightarrow> bytes) \<Rightarrow> kv_order \<Rightarrow> nat \<Rightarrow> bytes \<Rightarrow>
     world \<Rightarrow> world outcome list" where
  "HandleBarServerStream dec enc ord a reqData w =
     when_ready a (\<lambda>w.
       case dec reqData of
         Inl e \<Rightarrow> [ErrorStream a e w]
       | Inr req \<Rightarrow>
           (case send_greetings enc a (hq_name req) 0 [''en'', ''ko'', ''ja'', ''es'', ''fr''] w of
              (False, w') \<Rightarrow> [Ret w'] | (True, w') \<Rightarrow> [EndStream ord a w'])) w"

definition HandleBarClientStream ::
    "nat \<Rightarrow> (bytes \<Rightarrow> string + hello_request) \<Rightarrow> (hello_response \<Rightarrow> bytes) \<Rightarrow> kv_order \<Rightarrow> nat \<Rightarrow>
     world \<Rightarrow> world outcome list" where
  "HandleBarClientStream n dec enc ord a w =
     session_loop n
       (\<lambda>d names w. case dec d of
          Inl e \<Rightarrow> Inl (ErrorStream a e w) | Inr req \<Rightarrow> Inr (names @ [hq_name req], w))
       (\<lambda>names w. EndStream ord a
          (snd (SendFromStream a (enc (ffi_response (''Hello to all: '' @ joinNames names @ ''!''))) w)))
       a [] w"

definition HandleBarBidiStream ::
    "nat \<Rightarrow> (bytes \<Rightarrow> string + hello_request) \<Rightarrow> (hello_response \<Rightarrow> bytes) \<Rightarrow> kv_order \<Rightarrow> nat \<Rightarrow>
     world \<Rightarrow> world outcome list" where
  "HandleBarBidiStream n dec enc ord a w =
     when_ready a
       (session_loop n
          (\<lambda>d st w. case dec d of
             Inl e \<Rightarrow> Inl (ErrorStream a e w)
           | Inr req \<Rightarrow>
               (case SendFromStream a (enc (ffi_response (getGreeting (hq_language req) (hq_name req)))) w of
                  (Some e, w') \<Rightarrow> Inl (Ret w') | (None, w') \<Rightarrow> Inr (st, w')))
          (\<lambda>st w. EndStream ord a w) a ()) w"

section \<open>Files\<close>

definition HandleUploadFile ::
    "nat \<Rightarrow> (bytes \<Rightarrow> string + bytes) \<Rightarrow> (int \<Rightarrow> bytes) \<Rightarrow> (bytes \<Rightarrow> string) \<Rightarrow> kv_order \<Rightarrow> nat \<Rightarrow>
     world \<Rightarrow> world outcome list" where
  "HandleUploadFile n dec enc hash ord a w =
     session_loop n
       (\<lambda>d (written, totalSize) w. case dec d of
          Inl e \<Rightarrow> Inl (ErrorStream a e w)
        | Inr content \<Rightarrow> Inr ((written @ content, add_size totalSize (length content)), w))
       (\<lambda>(written, totalSize) w.
          EndStream ord a (snd (SendFromStream a (enc totalSize) (SetTrailer a ''x-file-hash'' (hash written) w))))
       a ([], 0) w"

text \<open>
  The loop that sends random chunks, with what has been written to the hasher and the number
  of chunks; it stops at the first send that fails.
\<close>

function send_chunks ::
    "(int \<Rightarrow> 'r \<Rightarrow> bytes \<times> 'r) \<Rightarrow> (bytes \<Rightarrow> bytes) \<Rightarrow> nat \<Rightarrow> int \<Rightarrow> 'r \<Rightarrow> bytes \<Rightarrow> nat \<Rightarrow> world \<Rightarrow>
     stream_error option \<times> bytes \<times> nat \<times> world" where
  "send_chunks rd enc a remaining r written cnt w =
     (if remaining > 0
      then (let chunkSize = (if remaining < bufSize then remaining else bufSize);
                (chunkData, r') = rd chunkSize r
            in case SendFromStream a (enc chunkData) w of
                 (Some e, w') \<Rightarrow> (Some e, written @ chunkData, cnt, w')
               | (None, w') \<Rightarrow>
                   send_chunks rd enc a (remaining - chunkSize) r' (written @ chunkData) (cnt + 1) w')
      else (None, written, cnt, w))"
  by pat_completeness auto

termination
  by (relation "measure (\<lambda>(rd, enc, a, remaining, r, written, cnt, w). nat remaining)")
     (auto simp: bufSize_def split: if_splits)

declare send_chunks.simps [simp del]

definition HandleDownloadFile ::
    "(bytes \<Rightarrow> string + int) \<Rightarrow> (bytes \<Rightarrow> bytes) \<Rightarrow> (bytes \<Rightarrow> string) \<Rightarrow> (int \<Rightarrow> 'r \<Rightarrow> bytes \<times> 'r) \<Rightarrow> 'r \<Rightarrow>
     kv_order \<Rightarrow> nat \<Rightarrow> bytes \<Rightarrow> world \<Rightarrow> world outcome list" where
  "HandleDownloadFile dec enc hash rd r ord a reqData w =
     when_ready a (\<lambda>w.
       case dec reqData of
         Inl e \<Rightarrow> [ErrorStream a e w]
       | Inr sz \<Rightarrow>
           (case send_chunks rd enc a sz r [] 0 w of
              (Some e, written, cnt, w') \<Rightarrow> [Ret w']
            | (None, written, cnt, w') \<Rightarrow> [EndStream ord a (SetTrailer a ''x-file-hash'' (hash written) w')])) w"

definition HandleBidiFile :: "nat \<Rightarrow> kv_order \<Rightarrow> nat \<Rightarrow> world \<Rightarrow> world outcome list" where
  "HandleBidiFile n ord a w =
     when_ready a
       (session_loop n
          (\<lambda>d st w. case SendFromStream a d w of
             (Some e, w') \<Rightarrow> Inl (Ret w') | (None, w') \<Rightarrow> Inr (st, w'))
          (\<lambda>st w. EndStream ord a w) a ()) w"

section \<open>Files to and from Dart\<close>

datatype 'e file_error =
    FNotRegistered | FCallback 'e | FSend stream_error | FClosed | FUnmarshal | FTimeout
  | FHashMismatch string string | FHashTimeout

definition file_message :: "string \<Rightarrow> int \<Rightarrow> nat \<Rightarrow> string \<Rightarrow> string \<Rightarrow> string" where
  "file_message verb sz cnt h suf =
     verb @ '' '' @ show_int sz @ '' bytes ('' @ show_nat cnt @ '' chunks), [SHA256] hash='' @ h @ suf"

text \<open>The common beginning: a session, and the call that tells Dart about it.\<close>

definition open_dart_stream ::
    "'e stream_callback option \<Rightarrow> string \<Rightarrow> stream_type \<Rightarrow> bytes \<Rightarrow> world \<Rightarrow> ('e file_error + nat) \<times> world" where
  "open_dart_stream cb method ty reqBytes w =
     (case cb of
        None \<Rightarrow> (Inl FNotRegistered, w)
      | Some f \<Rightarrow>
          (let (a, w1) = NewStreamSession method ty w; i = ss_id (w_heap w1 ! a) in
           case f (method_with_id method i) reqBytes w1 of
             (Inl e, w2) \<Rightarrow> (Inl (FCallback e), drop_stream i w2)
           | (Inr x, w2) \<Rightarrow> (Inr a, w2)))"

text \<open>
  \<open>CallDartUploadFile\<close>: \<open>arrive\<close> is what Dart does before the final select. The status is
  decoded to the size it reports; the hash is that of what was sent.
\<close>

definition CallDartUploadFile ::
    "'e stream_callback option \<Rightarrow> (int \<Rightarrow> 'r \<Rightarrow> bytes \<times> 'r) \<Rightarrow> 'r \<Rightarrow> (bytes \<Rightarrow> bytes) \<Rightarrow> (bytes \<Rightarrow> int option) \<Rightarrow>
     (bytes \<Rightarrow> string) \<Rightarrow> (world \<Rightarrow> world) \<Rightarrow> bool \<Rightarrow> int \<Rightarrow> world \<Rightarrow> (('e file_error + string) \<times> world) list" where
  "CallDartUploadFile cb rd r enc dec hash arrive timer_fired sz w =
     (case open_dart_stream cb (dart_method ''DartUploadFile'') StreamTypeClientStream [] w of
        (Inl e, w') \<Rightarrow> [(Inl e, w')]
      | (Inr a, w2) \<Rightarrow>
          (let i = ss_id (w_heap w2 ! a) in
           case send_chunks rd enc a sz r [] 0 w2 of
             (Some e, written, cnt, w3) \<Rightarrow> [(Inl (FSend e), drop_stream i w3)]
           | (None, written, cnt, w3) \<Rightarrow>
               (let w4 = arrive (snd (CloseSend a w3)); s = w_heap w4 ! a in
                map (\<lambda>res. (res, drop_stream i w4))
                  (select_ready
                     [(recv_ready (ss_data s),
                       (case chan_recv (ss_data s) of
                          (None, ch) \<Rightarrow> Inl FClosed
                        | (Some data, ch) \<Rightarrow>
                            (case dec data of
                               None \<Rightarrow> Inl FUnmarshal
                             | Some received \<Rightarrow>
                                 Inr (file_message ''Uploaded'' received cnt (hash written) '' verified'')))),
                      (timer_fired, Inl FTimeout)]))))"

text \<open>
  The receiving loop of the other two calls: a select over the data, an error of the sender,
  if there is one, and the timer, which may fire at any turn of which \<open>timer\<close> says so.
\<close>

fun recv_file ::
    "nat \<Rightarrow> (nat \<Rightarrow> bool) \<Rightarrow> stream_error option \<Rightarrow> (bytes \<Rightarrow> bytes option) \<Rightarrow> nat \<Rightarrow> bytes \<times> int \<times> nat \<Rightarrow>
     world \<Rightarrow> (('e file_error + bytes \<times> int \<times> nat) \<times> world) list" where
  "recv_file 0 timer send_err dec a st w = []"
| "recv_file (Suc n) timer send_err dec a (got, received, cnt) w =
     concat (map (\<lambda>(v, w').
       case v of
         None \<Rightarrow> [(Inr (got, received, cnt), w')]
       | Some d \<Rightarrow>
           (case dec d of
              None \<Rightarrow> [(Inl FUnmarshal, w')]
            | Some content \<Rightarrow>
                recv_file n timer send_err dec a
                  (got @ content, add_size received (length content), cnt + 1) w'))
       (RecvData a w)) @
     (case send_err of None \<Rightarrow> [] | Some e \<Rightarrow> [(Inl (FSend e), w)]) @
     (if timer n then [(Inl FTimeout, w)] else [])"

definition CallDartDownloadFile ::
    "nat \<Rightarrow> 'e stream_callback option \<Rightarrow> (int \<Rightarrow> bytes) \<Rightarrow> (bytes \<Rightarrow> bytes option) \<Rightarrow> (bytes \<Rightarrow> string) \<Rightarrow>
     (world \<Rightarrow> world) \<Rightarrow> (nat \<Rightarrow> bool) \<Rightarrow> int \<Rightarrow> world \<Rightarrow> (('e file_error + string) \<times> world) list" where
  "CallDartDownloadFile n cb enc dec hash arrive timer sz w =
     (case open_dart_stream cb (dart_method ''DartDownloadFile'') StreamTypeServerStream (enc sz) w of
        (Inl e, w') \<Rightarrow> [(Inl e, w')]
      | (Inr a, w2) \<Rightarrow>
          map (\<lambda>(res, w3).
                 (map_sum id (\<lambda>(got, received, cnt).
                    file_message ''Downloaded'' received cnt (hash got) '' calculated'') res,
                  drop_stream (ss_id (w_heap w2 ! a)) w3))
            (recv_file n timer None dec a ([], 0, 0) (arrive w2)))"

text \<open>
  \<open>CallDartBidiFile\<close>, with the sending goroutine first: its sends only call back, and the
  receiving loop only takes from \<open>DataChan\<close>, so that their order is not observable; the
  loop may see the sender's error at any turn. At the end of the data the hash of what was
  sent is awaited, for at most the time of a second timer.
\<close>

definition CallDartBidiFile ::
    "nat \<Rightarrow> 'e stream_callback option \<Rightarrow> (int \<Rightarrow> 'r \<Rightarrow> bytes \<times> 'r) \<Rightarrow> 'r \<Rightarrow> (bytes \<Rightarrow> bytes) \<Rightarrow>
     (bytes \<Rightarrow> bytes option) \<Rightarrow> (bytes \<Rightarrow> string) \<Rightarrow> (world \<Rightarrow> world) \<Rightarrow> (nat \<Rightarrow> bool) \<Rightarrow> bool \<Rightarrow> int \<Rightarrow> world \<Rightarrow>
     (('e file_error + string) \<times> world) list" where
  "CallDartBidiFile n cb rd r enc dec hash arrive timer hash_timer sz w =
     (case open_dart_stream cb (dart_method ''DartBidiFile'') StreamTypeBidiStream [] w of
        (Inl e, w') \<Rightarrow> [(Inl e, w')]
      | (Inr a, w2) \<Rightarrow>
          (let i = ss_id (w_heap w2 ! a);
               (send_err, written, chunks, w3) = send_chunks rd enc a sz r [] 0 w2;
               w4 = arrive (if send_err = None then snd (CloseSend a w3) else w3) in
           concat (map (\<lambda>(res, w5).
             map (\<lambda>x. (x, drop_stream i w5))
               (case res of
                  Inl e \<Rightarrow> [Inl e]
                | Inr (got, received, cnt) \<Rightarrow>
                    select_ready
                      [(send_err = None,
                        if hash got \<noteq> hash written then Inl (FHashMismatch (hash written) (hash got))
                        else Inr (file_message ''Bidi Echoed'' received cnt (hash got) '' verified'')),
                       (hash_timer, Inl FHashTimeout)]))
             (recv_file n timer send_err dec a ([], 0, 0) w4))))"

end
