(* ===== verification/ExampleServer.thy ===== *)
theory ExampleServer
  imports ServerLife ExampleHandlers
begin

text \<open>
  The server library of the example (\<open>example/cmd/server/main.go\<close>): like that of
  \<open>cmd/server\<close> (theory \<open>FfiEntry\<close>), with the greeter beside the core service, a goroutine
  tracker that a stop ends, routing by the prefix of the method, and a switch over the names
  of the streaming methods. Values are as in \<open>FfiEntry\<close>.
\<close>

section \<open>Starting and stopping\<close>

datatype ex_service = GoGreeterService

text \<open>\<open>es_quit\<close> tells whether \<open>quitChan\<close> is a channel, which ends the tracker when closed.\<close>

record ('n, 'k, 'g) ex_server =
  es_srv :: "ex_service service list option"
  es_core :: "('n, 'k) core option"
  es_greeter :: "'g option"
  es_listeners :: "(string \<times> string) list"
  es_quit :: bool

definition Ex_StartGrpcServer ::
    "(string \<Rightarrow> 'k option) \<Rightarrow> (string \<Rightarrow> 'n option) \<Rightarrow> (('n, 'k) core \<Rightarrow> 'g) \<Rightarrow> (string \<times> string \<Rightarrow> bool) \<Rightarrow> bool \<Rightarrow>
     core_argument \<Rightarrow> ('n, 'k, 'g) ex_server \<Rightarrow> world \<Rightarrow> int \<times> ('n, 'k, 'g) ex_server \<times> world" where
  "Ex_StartGrpcServer new_cache dial new_greeter listen tcp_first arg sv w =
     (if es_srv sv \<noteq> None then (- 1, sv, w)
      else (let cfg = start_config arg; serviceImpl = NewCoreService new_cache dial cfg in
            (0,
             \<lparr>es_srv = Some (NewGrpcServer serviceImpl [GoGreeterService]), es_core = Some serviceImpl,
              es_greeter = Some (new_greeter serviceImpl),
              es_listeners = start_listeners listen tcp_first cfg, es_quit = True\<rparr>,
             SetDefaultStreamTimeout (cf_StreamTimeout cfg) w)))"

text \<open>What a stop does to the outside, in order.\<close>

datatype ('n, 'k) ex_shutdown = CloseQuit | ShutCore "('n, 'k) shutdown" | StopServer | CloseListener string | RemoveSocket string

definition Ex_StopGrpcServer ::
    "('n, 'k, 'g) ex_server \<Rightarrow> (int \<times> ('n, 'k) ex_shutdown list) \<times> ('n, 'k, 'g) ex_server" where
  "Ex_StopGrpcServer sv =
     (if es_srv sv = None then ((0, []), sv)
      else ((0,
             (if es_quit sv then [CloseQuit] else []) @
             (case es_core sv of Some s \<Rightarrow> map ShutCore (Core_Close s) | None \<Rightarrow> []) @
             [StopServer] @
             concat (map (\<lambda>l. CloseListener (snd l) # (if fst l = ''unix'' then [RemoveSocket (snd l)] else []))
               (es_listeners sv))),
            \<lparr>es_srv = None, es_core = None, es_greeter = None, es_listeners = [], es_quit = False\<rparr>))"

section \<open>Unary calls\<close>

text \<open>
  \<open>InvokeBackend\<close>: the greeter's dispatcher for its package, the core's for everything else.
  The error is made of the message and the code only, whether it is a status or not.
\<close>

definition Ex_InvokeBackend ::
    "(pb_error \<Rightarrow> bytes) \<Rightarrow> ('g option \<Rightarrow> string \<Rightarrow> bytes \<Rightarrow> status_error + bytes) \<Rightarrow>
     (('n, 'k) core \<Rightarrow> string \<Rightarrow> bytes \<Rightarrow> status_error + bytes) \<Rightarrow> ('n, 'k, 'g) ex_server \<Rightarrow> string \<Rightarrow> bytes \<Rightarrow> ffi_data" where
  "Ex_InvokeBackend enc invoke_greeter invoke_core sv method data =
     (case es_core sv of
        None \<Rightarrow> ffi_error (str_bytes ''Server implementation not initialized'')
      | Some localCore \<Rightarrow>
          (case (if HasPrefix method ''/example.v1.'' then invoke_greeter (es_greeter sv) method data
                 else invoke_core localCore method data) of
             Inl e \<Rightarrow> ffi_error (enc \<lparr>pe_message = se_message e, pe_grpc_code = se_code e\<rparr>)
           | Inr resp \<Rightarrow> (Some resp, int (length resp))))"

section \<open>Callbacks\<close>

text \<open>\<open>RegisterDartCallback\<close> and its closure, written as in the server library.\<close>

definition Ex_dart_callback ::
    "(req_handler \<Rightarrow> int64 \<Rightarrow> string \<Rightarrow> bytes \<Rightarrow> req_handler) option \<Rightarrow> bool \<Rightarrow> string \<Rightarrow> bytes \<Rightarrow>
     req_handler \<Rightarrow> ((string + response) \<times> req_handler) list" where
  "Ex_dart_callback dart timer_fired method data h =
     (case dart of
        None \<Rightarrow> [(Inl ''dart callback is nil'', h)]
      | Some f \<Rightarrow>
          (let ((requestId, ch), h1) = CreateRequest h in
           map (\<lambda>(r, h3). (case r of Response d \<Rightarrow> Inr d
                                   | WaitTimeout \<Rightarrow> Inl ''timeout waiting for Dart response'', h3))
             (WaitForResponse requestId ch timer_fired (f h1 requestId method data))))"

definition Ex_RegisterDartCallback ::
    "(int64 \<times> nat) list \<Rightarrow> (req_handler \<Rightarrow> int64 \<Rightarrow> string \<Rightarrow> bytes \<Rightarrow> req_handler) option \<Rightarrow> req_handler \<Rightarrow>
     req_handler \<times> (bool \<Rightarrow> string \<Rightarrow> bytes \<Rightarrow> req_handler \<Rightarrow> ((string + response) \<times> req_handler) list)" where
  "Ex_RegisterDartCallback pending callback h = (CleanupPending pending h, Ex_dart_callback callback)"

definition Ex_SendFfiResponse :: "int64 \<Rightarrow> bytes \<Rightarrow> int64 \<Rightarrow> req_handler \<Rightarrow> req_handler outcome list" where
  "Ex_SendFfiResponse requestId data dataLen h =
     (case copy_in data dataLen of Panic p \<Rightarrow> [Panic p] | Ret goData \<Rightarrow> HandleResponse requestId (Some goData) h)"

definition Ex_stream_callback ::
    "nat option \<Rightarrow> int64 \<Rightarrow> byte \<Rightarrow> bytes \<Rightarrow> (nat \<times> int64 \<times> byte \<times> cdata \<times> nat) option" where
  "Ex_stream_callback streamCallback streamId msgType data =
     (case streamCallback of
        None \<Rightarrow> None
      | Some cb \<Rightarrow>
          (if length data > 0 then Some (cb, streamId, msgType, CData data, length data)
           else Some (cb, streamId, msgType, CNull, 0)))"

definition Ex_stream_callback_ffi ::
    "nat option \<Rightarrow> int64 \<Rightarrow> byte \<Rightarrow> cdata \<Rightarrow> nat \<Rightarrow> (nat \<times> int64 \<times> byte \<times> cdata \<times> nat) option" where
  "Ex_stream_callback_ffi streamCallback streamId msgType data len =
     map_option (\<lambda>cb. (cb, streamId, msgType, data, len)) streamCallback"

text \<open>The two closures are installed under the names \<open>copying\<close> and \<open>zero_copy\<close>.\<close>

definition Ex_RegisterStreamCallback :: "nat \<Rightarrow> nat \<Rightarrow> world \<Rightarrow> world" where
  "Ex_RegisterStreamCallback copying zero_copy w =
     SetStreamCallbackFfi (Some zero_copy) (SetStreamCallback (Some copying) w)"

section \<open>Streams\<close>

datatype ex_handler =
  HBarServerStream | HDownloadFile | HBarClientStream | HUploadFile | HBarBidiStream | HBidiFile

type_synonym started_stream = "int64 \<times> (nat \<times> ex_handler task) option \<times> world"

definition go_method :: "string \<Rightarrow> string" where
  "go_method m = ''/example.v1.GoGreeterService/'' @ m"

definition Ex_InvokeBackendServerStream :: "bool \<Rightarrow> string \<Rightarrow> bytes \<Rightarrow> int64 \<Rightarrow> world \<Rightarrow> started_stream outcome" where
  "Ex_InvokeBackendServerStream initialized method data dataLen w =
     bind_outcome (copy_in data dataLen) (\<lambda>goData. Ret
       (if \<not> initialized then (- 1, None, w)
        else if method = go_method ''BarServerStream'' then StartServerStream method (ServerTask HBarServerStream goData) w
        else if method = go_method ''DownloadFile'' then StartServerStream method (ServerTask HDownloadFile goData) w
        else (- 1, None, w)))"

definition Ex_InvokeBackendClientStream :: "bool \<Rightarrow> string \<Rightarrow> world \<Rightarrow> started_stream" where
  "Ex_InvokeBackendClientStream initialized method w =
     (if \<not> initialized then (- 1, None, w)
      else if method = go_method ''BarClientStream'' then StartClientStream method (ClientTask HBarClientStream) w
      else if method = go_method ''UploadFile'' then StartClientStream method (ClientTask HUploadFile) w
      else (- 1, None, w))"

definition Ex_InvokeBackendBidiStream :: "bool \<Rightarrow> string \<Rightarrow> world \<Rightarrow> started_stream" where
  "Ex_InvokeBackendBidiStream initialized method w =
     (if \<not> initialized then (- 1, None, w)
      else if method = go_method ''BarBidiStream'' then StartBidiStream method (BidiTask HBarBidiStream) w
      else if method = go_method ''BidiFile'' then StartBidiStream method (BidiTask HBidiFile) w
      else (- 1, None, w))"

definition Ex_SendStreamData :: "int64 \<Rightarrow> bytes \<Rightarrow> int64 \<Rightarrow> world \<Rightarrow> (int \<times> world) outcome list" where
  "Ex_SendStreamData streamId data dataLen w =
     (case copy_in data dataLen of
        Panic p \<Rightarrow> [Panic p]
      | Ret goData \<Rightarrow>
          map (\<lambda>res. bind_outcome res (\<lambda>(err, w'). Ret (case err of None \<Rightarrow> 0 | Some e \<Rightarrow> - 1, w')))
            (SendToStream streamId goData w))"

definition Ex_CloseStream :: "int64 \<Rightarrow> world \<Rightarrow> world outcome" where
  "Ex_CloseStream streamId w = CloseStreamSession streamId w"

definition Ex_CloseStreamInput :: "int64 \<Rightarrow> world \<Rightarrow> world outcome" where
  "Ex_CloseStreamInput streamId w = CloseStreamInput streamId w"

definition Ex_StreamReady :: "int64 \<Rightarrow> world \<Rightarrow> world outcome" where
  "Ex_StreamReady streamId w = SignalStreamReady streamId w"

section \<open>The cache\<close>

text \<open>
  As in the server library, but \<open>CachePut\<close> copies its data with \<open>C.GoBytes\<close>, which never
  makes a nil slice.
\<close>

definition Ex_CacheGet :: "int \<Rightarrow> int \<Rightarrow> string \<Rightarrow> string \<Rightarrow> cache option \<Rightarrow> ffi_data \<times> cache option" where
  "Ex_CacheGet t1 t2 storeName key cache =
     (case cache of
        None \<Rightarrow> ((None, 0), None)
      | Some c \<Rightarrow>
          (case Get t1 t2 storeName key c of
             (Inr (Some v), c') \<Rightarrow> if length v = 0 then ((None, 0), Some c') else ((Some v, int (length v)), Some c')
           | (_, c') \<Rightarrow> ((None, 0), Some c')))"

definition Ex_CachePut ::
    "int \<Rightarrow> int \<Rightarrow> string \<Rightarrow> string \<Rightarrow> bytes \<Rightarrow> int64 \<Rightarrow> int \<Rightarrow> cache option \<Rightarrow> (int \<times> cache option) outcome" where
  "Ex_CachePut t1 t2 storeName key data dataLen ttlSeconds cache =
     (case cache of
        None \<Rightarrow> Ret (- 1, None)
      | Some c \<Rightarrow>
          bind_outcome (copy_in data dataLen) (\<lambda>goData. Ret
            (case Put t1 t2 storeName key (Some goData) ttlSeconds 0 c of
               (Some e, c') \<Rightarrow> (- 1, Some c') | (None, c') \<Rightarrow> (0, Some c'))))"

definition Ex_CacheContains :: "int \<Rightarrow> string \<Rightarrow> string \<Rightarrow> cache option \<Rightarrow> int \<times> cache option" where
  "Ex_CacheContains t storeName key cache =
     (case cache of
        None \<Rightarrow> (- 1, None)
      | Some c \<Rightarrow>
          (case Contains t storeName key c of
             (Inl e, c') \<Rightarrow> (- 1, Some c') | (Inr b, c') \<Rightarrow> (if b then 1 else 0, Some c')))"

definition Ex_CacheDelete :: "string \<Rightarrow> string \<Rightarrow> cache option \<Rightarrow> int \<times> cache option" where
  "Ex_CacheDelete storeName key cache =
     (case cache of
        None \<Rightarrow> (- 1, None)
      | Some c \<Rightarrow>
          (case Delete storeName key c of
             (Some e, c') \<Rightarrow> (- 1, Some c') | (None, c') \<Rightarrow> (0, Some c')))"

section \<open>The standalone program\<close>

text \<open>
  The arguments it starts with. They are in memory that \<open>malloc\<close> returned and nothing
  clears: \<open>memory\<close> is what it holds, and four fields stay as they are.
\<close>

definition main_argument :: "core_argument \<Rightarrow> string \<Rightarrow> string \<Rightarrow> string \<Rightarrow> string \<Rightarrow> string \<Rightarrow> core_argument" where
  "main_argument memory goPort goSocket token flutterPort flutterSocket =
     memory\<lparr>arg_engineTcpPort := Some goPort, arg_engineSocketPath := Some goSocket, arg_token := Some token,
       arg_viewTcpPort := Some flutterPort, arg_viewSocketPath := Some flutterSocket\<rparr>"

end
