(* ===== verification/ExampleProps.thy ===== *)
theory ExampleProps
  imports ExampleHandlers
begin

text \<open>
  What the handlers of the example do on a whole input, and that the FFI half of the example
  does what its gRPC half does.
\<close>

section \<open>Sessions under the handlers\<close>

lemma session_of_queue [simp]:
  "input_finished a ds w \<Longrightarrow> ss_closed (w_heap (with_queue a es w) ! a) = ss_closed (w_heap w ! a)"
  "input_finished a ds w \<Longrightarrow> ss_callback (w_heap (with_queue a es w) ! a) = ss_callback (w_heap w ! a)"
  "input_finished a ds w \<Longrightarrow> ss_id (w_heap (with_queue a es w) ! a) = ss_id (w_heap w ! a)"
  "input_finished a ds w \<Longrightarrow> ss_trailers (w_heap (with_queue a es w) ! a) = ss_trailers (w_heap w ! a)"
  "input_finished a ds w \<Longrightarrow> ss_done (w_heap (with_queue a es w) ! a) = ss_done (w_heap w ! a)"
  by (simp_all add: input_finished_def with_queue_session)

lemma session_inv_queue:
  "input_finished a ds w \<Longrightarrow> session_inv (w_heap w ! a) \<Longrightarrow> session_inv (w_heap (with_queue a [] w) ! a)"
  by (auto simp: input_finished_def with_queue_session session_inv_def chan_wf_def)

lemma WaitForReady_ready:
  "w_timeout w = 0 \<Longrightarrow> ss_ready (w_heap w ! a) \<Longrightarrow> \<not> ss_done (w_heap w ! a) \<Longrightarrow> WaitForReady a w = [True]"
  by (simp add: WaitForReady_def)

lemma SetTrailer_session:
  assumes "a < length (w_heap w)"
  shows "w_heap (SetTrailer a k v w) ! a =
      (w_heap w ! a)\<lparr>ss_trailers := AList.update k v (ss_trailers (w_heap w ! a))\<rparr>"
    and "length (w_heap (SetTrailer a k v w)) = length (w_heap w)"
    and "w_out (SetTrailer a k v w) = w_out w"
  using assms by (simp_all add: SetTrailer_def update_session_def)

text \<open>The end of a handler that sets one trailer: a last message, the trailer, the end.\<close>

lemma EndStream_trailer:
  assumes "a < length (w_heap w)" "session_inv (w_heap w ! a)" "\<not> ss_closed (w_heap w ! a)"
    and "ss_trailers (w_heap w ! a) = []" "ord [(k, v)] = [(k, v)]" "ss_callback (w_heap w ! a) = Some cb"
  shows "\<exists>w'. EndStream ord a (emit es (SetTrailer a k v w)) = Ret w' \<and>
    w_out w' = w_out w @ es @
      [Call cb (ss_id (w_heap w ! a)) StreamMsgTrailer (encode_pairs [(k, v)]),
       Call cb (ss_id (w_heap w ! a)) StreamMsgEnd []]"
proof -
  let ?w = "emit es (SetTrailer a k v w)"
  have "a < length (w_heap ?w)" "session_inv (w_heap ?w ! a)" "\<not> ss_closed (w_heap ?w ! a)"
    using assms(1-3) by (simp_all add: SetTrailer_session session_inv_def)
  from EndStream_open [OF this, of ord] obtain w' where
    "EndStream ord a ?w = Ret w'" "w_out w' = w_out ?w @ EndStream_calls ord (w_heap ?w ! a) (w_heap ?w ! a)" by blast
  then show ?thesis using assms(1,4-6)
    by (simp add: SetTrailer_session EndStream_calls_def call_back_def emit_def)
qed

lemma recv_all_msgs: "recv_all (map InMsg ms @ [InEOF]) acc = Some (Inr (acc @ ms))"
  by (induction ms arbitrary: acc) simp_all

lemma loop_events_silent [simp]: "loop_events f (\<lambda>d st. []) ds st = []"
  by (induction ds arbitrary: st) simp_all

lemma loop_events_each: "loop_events f (\<lambda>d st. [h d]) ds st = map h ds"
  by (induction ds arbitrary: st) simp_all

section \<open>Uploads\<close>

definition content_of :: "(bytes \<Rightarrow> string + bytes) \<Rightarrow> bytes \<Rightarrow> bytes" where
  "content_of dec d = (case dec d of Inl e \<Rightarrow> [] | Inr c \<Rightarrow> c)"

lemma upload_fold:
  "fold (\<lambda>d (wr, t). (wr @ content_of dec d, add_size t (length (content_of dec d)))) ds (wr, t) =
     (wr @ concat (map (content_of dec) ds), foldl (\<lambda>t c. add_size t (length c)) t (map (content_of dec) ds))"
  by (induction ds arbitrary: wr t) simp_all

lemma contents_decoded:
  "list_all2 (\<lambda>d c. dec d = Inr c) ds cs \<Longrightarrow> cs = map (content_of dec) ds \<and> (\<forall>d \<in> set ds. dec d = Inr (content_of dec d))"
  by (induction rule: list_all2_induct) (auto simp: content_of_def)

text \<open>
  An upload over FFI and one over gRPC of the same chunks report the same size and the same
  hash: the FFI handler calls back with the status, then the trailer with the hash, then the
  end of the stream, each once and in this order.
\<close>

lemma upload_agrees:
  assumes "input_finished a ds w" "length ds < n" "list_all2 (\<lambda>d c. dec d = Inr c) ds cs"
    and "session_inv (w_heap w ! a)" "\<not> ss_closed (w_heap w ! a)"
    and "ss_trailers (w_heap w ! a) = []" "ss_callback (w_heap w ! a) = Some cb"
    and "\<And>kv. ord [kv] = [kv]"
  shows "\<exists>h received w'. UploadFile hash (map InMsg cs @ [InEOF]) = Some (Inr ([(''x-file-hash'', h)], received)) \<and>
    HandleUploadFile n dec enc hash ord a w = [Ret w'] \<and>
    w_out w' = w_out w @
      [Call cb (ss_id (w_heap w ! a)) StreamMsgData (enc received),
       Call cb (ss_id (w_heap w ! a)) StreamMsgTrailer (encode_pairs [(''x-file-hash'', h)]),
       Call cb (ss_id (w_heap w ! a)) StreamMsgEnd []]"
proof -
  let ?f = "\<lambda>d (wr, t). (wr @ content_of dec d, add_size t (length (content_of dec d)))"
  let ?t = "foldl (\<lambda>t c. add_size t (length c)) 0 cs"
  let ?w = "with_queue a [] w" and ?h = "hash (concat cs)"
  have cs: "cs = map (content_of dec) ds" and dec: "\<forall>d \<in> set ds. dec d = Inr (content_of dec d)"
    using contents_decoded [OF assms(3)] by auto
  have len: "a < length (w_heap w)" using assms(1) by (simp add: input_finished_def)
  have "HandleUploadFile n dec enc hash ord a w =
      [EndStream ord a (snd (SendFromStream a (enc ?t) (SetTrailer a ''x-file-hash'' ?h ?w)))]"
    unfolding HandleUploadFile_def
    by (subst session_loop_finished [where f = ?f and g = "\<lambda>d st. []", OF assms(1,2)])
       (simp_all add: dec upload_fold cs split: prod.splits)
  moreover have "snd (SendFromStream a (enc ?t) (SetTrailer a ''x-file-hash'' ?h ?w)) =
      emit [Call cb (ss_id (w_heap w ! a)) StreamMsgData (enc ?t)] (SetTrailer a ''x-file-hash'' ?h ?w)"
    using assms(1,5,7) len by (simp add: SendFromStream_open SetTrailer_session call_back_def)
  moreover have "UploadFile hash (map InMsg cs @ [InEOF]) = Some (Inr ([(''x-file-hash'', ?h)], ?t))"
    by (simp add: UploadFile_def recv_all_msgs)
  moreover obtain w' where "EndStream ord a (emit [Call cb (ss_id (w_heap w ! a)) StreamMsgData (enc ?t)] (SetTrailer a ''x-file-hash'' ?h ?w)) = Ret w'"
    "w_out w' = w_out w @ [Call cb (ss_id (w_heap w ! a)) StreamMsgData (enc ?t)] @
      [Call cb (ss_id (w_heap w ! a)) StreamMsgTrailer (encode_pairs [(''x-file-hash'', ?h)]),
       Call cb (ss_id (w_heap w ! a)) StreamMsgEnd []]"
    using EndStream_trailer [of a ?w ord "''x-file-hash''" ?h cb "[Call cb (ss_id (w_heap w ! a)) StreamMsgData (enc ?t)]"]
      assms(1,4-8) len by (auto simp: session_inv_queue)
  ultimately show ?thesis by auto
qed

text \<open>A session of a client that sent two chunks and closed its side.\<close>

definition fed_world :: world where
  "fed_world = init_world\<lparr>w_heap := [(new_session 1 ''m'' StreamTypeClientStream init_world)
     \<lparr>ss_data := \<lparr>ch_buf = [[1], [2, 3]], ch_cap = 100, ch_closed = True\<rparr>, ss_input_closed := True,
      ss_ready := True, ss_callback := Some 5\<rparr>]\<rparr>"

lemma fed_world_simps:
  "input_finished 0 [[1], [2, 3]] fed_world" "session_inv (w_heap fed_world ! 0)" "\<not> ss_closed (w_heap fed_world ! 0)"
  "ss_trailers (w_heap fed_world ! 0) = []" "ss_callback (w_heap fed_world ! 0) = Some 5" "ss_id (w_heap fed_world ! 0) = 1"
  "w_timeout fed_world = 0" "ss_ready (w_heap fed_world ! 0)" "\<not> ss_done (w_heap fed_world ! 0)" "w_out fed_world = []"
  by (auto simp: fed_world_def init_world_def new_session_def input_finished_def session_inv_def chan_wf_def)

section \<open>Downloads\<close>

definition chunk_size :: "int \<Rightarrow> int" where
  "chunk_size remaining = (if remaining < bufSize then remaining else bufSize)"

lemma chunk_size_bounds:
  "0 < remaining \<Longrightarrow> 0 < chunk_size remaining \<and> chunk_size remaining \<le> remaining \<and> chunk_size remaining \<le> 65536"
  by (simp add: chunk_size_def bufSize_def)

lemma remaining_induct [case_names step]:
  assumes "\<And>m. (0 < m \<Longrightarrow> P (m - chunk_size m)) \<Longrightarrow> P (m :: int)"
  shows "P m"
proof (induction "nat m" arbitrary: m rule: less_induct)
  case less
  show ?case
    by (rule assms, rule less) (use chunk_size_bounds [of m] in auto)
qed

text \<open>The chunks of a file, when no send fails.\<close>

function random_chunks :: "(int \<Rightarrow> 'r \<Rightarrow> bytes \<times> 'r) \<Rightarrow> int \<Rightarrow> 'r \<Rightarrow> bytes list" where
  "random_chunks rd m r =
     (if 0 < m
      then fst (rd (chunk_size m) r) # random_chunks rd (m - chunk_size m) (snd (rd (chunk_size m) r))
      else [])"
  by pat_completeness auto

termination
  by (relation "measure (\<lambda>(rd, m, r). nat m)") (use chunk_size_bounds in auto)

declare random_chunks.simps [simp del]

lemma random_chunks_simps:
  "0 < m \<Longrightarrow> random_chunks rd m r =
     fst (rd (chunk_size m) r) # random_chunks rd (m - chunk_size m) (snd (rd (chunk_size m) r))"
  "\<not> 0 < m \<Longrightarrow> random_chunks rd m r = []"
  by (simp_all add: random_chunks.simps [of rd m])

lemma DownloadFile_loop_all:
  "DownloadFile_loop rd (\<lambda>_. None) m r sent = (sent @ random_chunks rd m r, None)"
proof (induction m arbitrary: r sent rule: remaining_induct)
  case (step m)
  show ?case
    by (subst DownloadFile_loop.simps)
       (simp add: random_chunks_simps chunk_size_def [symmetric] Let_def split_beta step)
qed

lemma send_chunks_all:
  assumes "\<not> ss_closed (w_heap w ! a)" "ss_callback (w_heap w ! a) = Some cb"
  shows "send_chunks rd enc a m r written k w =
    (None, written @ concat (random_chunks rd m r), k + length (random_chunks rd m r),
     emit (map (\<lambda>c. Call cb (ss_id (w_heap w ! a)) StreamMsgData (enc c)) (random_chunks rd m r)) w)"
  using assms
proof (induction m arbitrary: r written k w rule: remaining_induct)
  case (step m)
  have "send_chunks rd enc a m r written k w =
      (if 0 < m
       then send_chunks rd enc a (m - chunk_size m) (snd (rd (chunk_size m) r))
              (written @ fst (rd (chunk_size m) r)) (k + 1)
              (emit [Call cb (ss_id (w_heap w ! a)) StreamMsgData (enc (fst (rd (chunk_size m) r)))] w)
       else (None, written, k, w))"
    using step.prems
    by (subst send_chunks.simps)
       (simp add: chunk_size_def [symmetric] Let_def split_beta SendFromStream_open call_back_def)
  then show ?case using step.prems
    by (simp add: random_chunks_simps step.IH)
qed

lemma random_chunks_bounds:
  assumes "\<And>n r. length (fst (rd n r)) = nat n"
  shows "(\<forall>c \<in> set (random_chunks rd m r). 0 < length c \<and> length c \<le> 65536) \<and>
    length (concat (random_chunks rd m r)) = nat m \<and>
    length (random_chunks rd m r) = (nat m + 65535) div 65536"
proof (induction m arbitrary: r rule: remaining_induct)
  case (step m)
  show ?case
  proof (cases "0 < m")
    case True
    have "nat (chunk_size m) + nat (m - chunk_size m) = nat m"
      and "Suc ((nat (m - chunk_size m) + 65535) div 65536) = (nat m + 65535) div 65536"
      using True by (auto simp: chunk_size_def bufSize_def)
    moreover have "fst (rd (chunk_size m) r) \<noteq> []" "nat (chunk_size m) \<le> 65536"
      using chunk_size_bounds [OF True] assms [of "chunk_size m" r] by auto
    ultimately show ?thesis using step [OF True, of "snd (rd (chunk_size m) r)"]
      by (simp add: random_chunks_simps True assms)
  qed (simp add: random_chunks_simps)
qed

text \<open>
  C28. A download ends, with no more than 64 KiB in any chunk: the loop sends exactly the size
  that was asked for (nothing for a negative one) in the least number of chunks, none of them
  empty, and the trailer is the hash of all of them.
\<close>

theorem DownloadFile_chunks:
  assumes "\<And>n r. length (fst (rd n r)) = nat n"
  shows "\<exists>sent. DownloadFile hash rd (\<lambda>_. None) m r = (sent, Inr [(''x-file-hash'', hash (concat sent))]) \<and>
    (\<forall>c \<in> set sent. 0 < length c \<and> length c \<le> 65536) \<and> length (concat sent) = nat m \<and>
    length sent = (nat m + 65535) div 65536"
  using random_chunks_bounds [of rd m r, OF assms]
  by (simp add: DownloadFile_def DownloadFile_loop_all)

definition zeros :: "int \<Rightarrow> unit \<Rightarrow> bytes \<times> unit" where
  "zeros n r = (replicate (nat n) 0, ())"

theorem DownloadFile_chunks_witness:
  "\<exists>sent. DownloadFile bytes_str zeros (\<lambda>_. None :: string option) 65537 () =
     (sent, Inr [(''x-file-hash'', bytes_str (concat sent))]) \<and>
     length (concat sent) = 65537 \<and> length sent = 2"
  using DownloadFile_chunks [of zeros bytes_str 65537 "()"] by (auto simp: zeros_def)

text \<open>
  A download over FFI, to a session that is ready and open, calls back with the encodings
  of the chunks that the gRPC method would send, in the same order, then with its trailer, then
  with the end.
\<close>

theorem download_agrees:
  assumes "a < length (w_heap w)" "session_inv (w_heap w ! a)" "\<not> ss_closed (w_heap w ! a)"
    and "ss_trailers (w_heap w ! a) = []" "ss_callback (w_heap w ! a) = Some cb" "ss_ready (w_heap w ! a)"
    and "w_timeout w = 0" "dec reqData = Inr m" "\<And>kv. ord [kv] = [kv]"
  shows "\<exists>sent t w'. DownloadFile hash rd (\<lambda>_. None :: 'e option) m r = (sent, Inr [t]) \<and>
    HandleDownloadFile dec enc hash rd r ord a reqData w = [Ret w'] \<and>
    w_out w' = w_out w @
      map (\<lambda>c. Call cb (ss_id (w_heap w ! a)) StreamMsgData (enc c)) sent @
      [Call cb (ss_id (w_heap w ! a)) StreamMsgTrailer (encode_pairs [t]),
       Call cb (ss_id (w_heap w ! a)) StreamMsgEnd []]"
proof -
  let ?cs = "random_chunks rd m r"
  let ?es = "map (\<lambda>c. Call cb (ss_id (w_heap w ! a)) StreamMsgData (enc c)) ?cs"
  let ?t = "(''x-file-hash'', hash (concat ?cs))"
  have "\<not> ss_done (w_heap w ! a)" using assms(2,3) by (auto simp: session_inv_def)
  then have "HandleDownloadFile dec enc hash rd r ord a reqData w =
      [EndStream ord a (SetTrailer a (fst ?t) (snd ?t) (emit ?es w))]"
    using assms by (simp add: HandleDownloadFile_def when_ready_def WaitForReady_ready send_chunks_all)
  moreover have "SetTrailer a (fst ?t) (snd ?t) (emit ?es w) = emit ?es (SetTrailer a (fst ?t) (snd ?t) w)"
    by (simp add: SetTrailer_def update_session_def emit_def)
  moreover have "DownloadFile hash rd (\<lambda>_. None) m r = (?cs, Inr [?t])"
    by (simp add: DownloadFile_def DownloadFile_loop_all)
  ultimately show ?thesis
    using EndStream_trailer [of a w ord "fst ?t" "snd ?t" cb ?es] assms by auto
qed

theorem download_agrees_witness:
  "\<exists>w'. HandleDownloadFile (\<lambda>_. Inr 65537) id bytes_str zeros () id 0 [] fed_world = [Ret w'] \<and>
     length (w_out w') = 4"
proof -
  have "0 < length (w_heap fed_world)" by (simp add: fed_world_def init_world_def)
  note * = download_agrees [where 'e = nat, OF this fed_world_simps(2-5,8,7), of "\<lambda>_. Inr 65537" "[]" 65537 id
      bytes_str zeros "()" id]
  obtain sent where "DownloadFile bytes_str zeros (\<lambda>_. None :: nat option) 65537 () =
      (sent, Inr [(''x-file-hash'', bytes_str (concat sent))])" "length sent = 2"
    using DownloadFile_chunks [of zeros bytes_str 65537 "()"] by (auto simp: zeros_def)
  then show ?thesis using * by (auto simp: fed_world_simps)
qed

section \<open>Echoes and greetings\<close>

text \<open>
  The file echo is faithful: to a ready session whose client has finished, it sends back
  the chunks it got, unchanged and in order, and then ends the stream.
\<close>

theorem HandleBidiFile_echoes:
  assumes "input_finished a ds w" "length ds < n" "session_inv (w_heap w ! a)" "\<not> ss_closed (w_heap w ! a)"
    and "ss_callback (w_heap w ! a) = Some cb" "ss_ready (w_heap w ! a)" "w_timeout w = 0"
  shows "\<exists>w'. HandleBidiFile n ord a w = [Ret w'] \<and>
    w_out w' = w_out w @ map (Call cb (ss_id (w_heap w ! a)) StreamMsgData) ds @ EndStream_calls ord (w_heap w ! a) (w_heap w ! a)"
proof -
  let ?es = "map (Call cb (ss_id (w_heap w ! a)) StreamMsgData) ds" and ?w = "with_queue a [] w"
  have "a < length (w_heap w)" "\<not> ss_done (w_heap w ! a)" using assms(1) by (simp_all add: input_finished_def)
  then have "HandleBidiFile n ord a w = [EndStream ord a (emit ?es ?w)]"
    unfolding HandleBidiFile_def when_ready_def using assms
    by (simp add: WaitForReady_ready)
       (subst session_loop_finished [where f = "\<lambda>d st. st" and
          g = "\<lambda>d st. [Call cb (ss_id (w_heap w ! a)) StreamMsgData d]", OF assms(1,2)],
        simp_all add: SendFromStream_open call_back_def loop_events_each)
  moreover obtain w' where "EndStream ord a (emit ?es ?w) = Ret w'"
    "w_out w' = w_out (emit ?es ?w) @ EndStream_calls ord (w_heap ?w ! a) (w_heap ?w ! a)"
    using EndStream_open [of a "emit ?es ?w" ord] assms by (auto simp: session_inv_queue input_finished_def)
  ultimately show ?thesis using assms(1) by (auto simp: EndStream_calls_def emit_def)
qed

theorem HandleBidiFile_echoes_witness:
  "\<exists>w'. HandleBidiFile 3 id 0 fed_world = [Ret w'] \<and>
     w_out w' = [Call 5 1 StreamMsgData [1], Call 5 1 StreamMsgData [2, 3], Call 5 1 StreamMsgEnd []]"
  using HandleBidiFile_echoes [OF fed_world_simps(1) _ fed_world_simps(2,3,5,8,7), of 3 id]
  by (auto simp: fed_world_simps EndStream_calls_def call_back_def)

lemma joinNames_join: "joinNames (n # ns) = join '', '' (n # ns)"
proof -
  have "foldl (\<lambda>result x. result @ '', '' @ x) (acc @ n) ns = acc @ foldl (\<lambda>result x. result @ '', '' @ x) n ns"
    for acc n ns
    by (induction ns arbitrary: n) (simp_all flip: append_assoc, metis append_assoc)
  note * = this
  have "foldl (\<lambda>result x. result @ '', '' @ x) n ns = join '', '' (n # ns)"
  proof (induction ns arbitrary: n)
    case (Cons y ns)
    show ?case using * [of "n @ '', ''" y ns] Cons [of y] by simp
  qed simp
  then show ?thesis by simp
qed

text \<open>
  C29. A client stream of names over FFI is answered, once, with the message and the sender that
  the gRPC method answers with, provided that there is a name: over FFI an empty stream is
  answered to \<open>(nobody)\<close> and over gRPC to nobody at all. The two responses always differ in
  their timestamp, which is set over gRPC and missing over FFI.
\<close>

theorem client_stream_agrees:
  assumes "input_finished a ds w" "length ds < n" "list_all2 (\<lambda>d q. dec d = Inr q) ds reqs"
    and "session_inv (w_heap w ! a)" "\<not> ss_closed (w_heap w ! a)" "ss_callback (w_heap w ! a) = Some cb"
  shows "\<exists>r w'. HandleBarClientStream n dec enc ord a w = [Ret w'] \<and>
    w_out w' = w_out w @ Call cb (ss_id (w_heap w ! a)) StreamMsgData (enc r) # EndStream_calls ord (w_heap w ! a) (w_heap w ! a) \<and>
    hr_timestamp r = None \<and>
    ((BarClientStream now (map InMsg reqs @ [InEOF]) :: ('e + hello_response) option) =
       Some (Inr (r\<lparr>hr_timestamp := Some now\<rparr>)) \<longleftrightarrow> reqs \<noteq> [])"
proof -
  let ?nm = "\<lambda>d. case dec d of Inr q \<Rightarrow> hq_name q | Inl e \<Rightarrow> []"
  let ?w = "with_queue a [] w" and ?r = "ffi_response (''Hello to all: '' @ joinNames (map hq_name reqs) @ ''!'')"
  let ?es = "[Call cb (ss_id (w_heap w ! a)) StreamMsgData (enc ?r)]"
  have names: "map hq_name reqs = map ?nm ds" and dec: "\<forall>d \<in> set ds. \<exists>q. dec d = Inr q"
    using assms(3) by (induction rule: list_all2_induct) auto
  have loop: "fold (\<lambda>d names. names @ [?nm d]) ds acc = acc @ map ?nm ds" for acc
    by (induction ds arbitrary: acc) simp_all
  have "HandleBarClientStream n dec enc ord a w =
      [EndStream ord a (snd (SendFromStream a (enc (ffi_response (''Hello to all: '' @ joinNames (map ?nm ds) @ ''!''))) ?w))]"
    unfolding HandleBarClientStream_def
    by (subst session_loop_finished [where f = "\<lambda>d names. names @ [?nm d]" and g = "\<lambda>d st. []", OF assms(1,2)])
       (use dec in \<open>auto simp: loop split: sum.splits\<close>)
  then have "HandleBarClientStream n dec enc ord a w = [EndStream ord a (emit ?es ?w)]"
    using assms(1,5,6) by (simp add: SendFromStream_open call_back_def names)
  moreover obtain w' where "EndStream ord a (emit ?es ?w) = Ret w'"
    "w_out w' = w_out (emit ?es ?w) @ EndStream_calls ord (w_heap ?w ! a) (w_heap ?w ! a)"
    using EndStream_open [of a "emit ?es ?w" ord] assms by (auto simp: session_inv_queue input_finished_def)
  moreover have "BarClientStream now (map InMsg reqs @ [InEOF]) = Some (Inr (?r\<lparr>hr_timestamp := Some now\<rparr>)) \<longleftrightarrow> reqs \<noteq> []"
    "hr_timestamp ?r = None"
    by (cases reqs) (simp_all add: BarClientStream_def recv_all_msgs joinNames_join go_response_def ffi_response_def del: joinNames.simps(2))
  ultimately show ?thesis using assms(1) by (auto simp: EndStream_calls_def emit_def)
qed

theorem client_stream_agrees_witness:
  "\<exists>r w'. HandleBarClientStream 3 (\<lambda>d. Inr \<lparr>hq_name = bytes_str d, hq_language = ''en''\<rparr>)
       (\<lambda>r. str_bytes (hr_message r)) id 0 fed_world = [Ret w'] \<and>
     w_out w' = [Call 5 1 StreamMsgData (str_bytes (hr_message r)), Call 5 1 StreamMsgEnd []] \<and>
     BarClientStream 42 ([InMsg \<lparr>hq_name = bytes_str [1], hq_language = ''en''\<rparr>,
       InMsg \<lparr>hq_name = bytes_str [2, 3], hq_language = ''en''\<rparr>, InEOF] :: (hello_request, string) grpc_in list) =
       Some (Inr (r\<lparr>hr_timestamp := Some 42\<rparr>))"
proof -
  let ?q = "\<lambda>d. \<lparr>hq_name = bytes_str d, hq_language = ''en''\<rparr>"
  have "list_all2 (\<lambda>d q. (Inr (?q d) :: string + hello_request) = Inr q) [[1], [2, 3]] [?q [1], ?q [2, 3]]" by simp
  from client_stream_agrees [where 'e = string and now = 42, OF fed_world_simps(1) _ this fed_world_simps(2,3,5), of 3 "\<lambda>r. str_bytes (hr_message r)" id]
  show ?thesis by (auto simp: fed_world_simps EndStream_calls_def call_back_def)
qed

text \<open>
  \<open>Trigger\<close> dereferences the payload of its request without a check: it panics exactly when
  the payload is nil and the action is one of the four greetings; otherwise it returns, and an
  unknown action is an error that calls nothing.
\<close>

theorem Trigger_panics:
  "((\<exists>p. Trigger dc action payload fileSize = Panic p) \<longleftrightarrow>
     payload = None \<and> action \<in> {UNARY, SERVER_STREAM, CLIENT_STREAM, BIDI_STREAM}) \<and>
   Trigger dc (OtherAction k) payload fileSize = Ret (Inl (NotSupported (OtherAction k)))"
  by (auto simp: Trigger_def with_payload_def Let_def split: trigger_action.split option.split)

end
