(* ===== verification/ExampleServerProps.thy ===== *)
theory ExampleServerProps
  imports ExampleServer ExampleProps StreamProps
begin

text \<open>
  The example server: its life under any sequence of starts and stops, and an upload from the
  call that opens it to the last callback.
\<close>

section \<open>Life\<close>

definition ex_start ::
    "(string \<Rightarrow> 'k option) \<Rightarrow> (string \<Rightarrow> 'n option) \<Rightarrow> (('n, 'k) core \<Rightarrow> 'g) \<Rightarrow> (string \<times> string \<Rightarrow> bool) \<Rightarrow> bool \<Rightarrow>
     core_argument \<Rightarrow> ('n, 'k, 'g) ex_server \<times> world \<Rightarrow> int \<times> (('n, 'k, 'g) ex_server \<times> world)" where
  "ex_start nc dial ng listen tcp_first arg st = Ex_StartGrpcServer nc dial ng listen tcp_first arg (fst st) (snd st)"

definition ex_stop :: "('n, 'k, 'g) ex_server \<times> world \<Rightarrow> ('n, 'k, 'g) ex_server \<times> world" where
  "ex_stop st = (snd (Ex_StopGrpcServer (fst st)), snd st)"

interpretation ex_life: server_life "ex_start nc dial ng listen tcp_first arg" ex_stop "\<lambda>st. es_srv (fst st) \<noteq> None"
  by unfold_locales (auto simp: ex_start_def ex_stop_def Ex_StartGrpcServer_def Ex_StopGrpcServer_def Let_def)

definition ex_stopped :: "('n, 'k, 'g) ex_server" where
  "ex_stopped = \<lparr>es_srv = None, es_core = None, es_greeter = None, es_listeners = [], es_quit = False\<rparr>"

definition ex_inv :: "('n, 'k, 'g) ex_server \<Rightarrow> bool" where
  "ex_inv sv \<longleftrightarrow> (if es_srv sv = None then sv = ex_stopped
     else es_core sv \<noteq> None \<and> es_greeter sv \<noteq> None \<and> es_quit sv)"

lemma ex_inv_stopped: "ex_inv ex_stopped"
  by (simp add: ex_inv_def ex_stopped_def)

lemma ex_inv_ops:
  assumes "ex_inv (fst st)"
  shows "ex_inv (fst (snd (ex_start nc dial ng listen tcp_first arg st)))" and "ex_inv (fst (ex_stop st))"
  using assms by (auto simp: ex_start_def ex_stop_def Ex_StartGrpcServer_def Ex_StopGrpcServer_def Let_def ex_inv_def ex_stopped_def)

lemma ex_inv_run:
  "ex_inv (fst st) \<Longrightarrow> ex_inv (fst (snd (life_run (ex_start nc dial ng listen tcp_first arg) ex_stop bs st)))"
proof (induction bs arbitrary: st)
  case (Cons b bs)
  show ?case
    using Cons.IH [of "snd (ex_start nc dial ng listen tcp_first arg st)"] Cons.IH [of "ex_stop st"]
      ex_inv_ops [OF Cons.prems] by (auto simp: split_beta)
qed simp

text \<open>
  C39. Whatever the sequence of starts and stops, from the state of a fresh process: a start
  succeeds exactly when no start succeeded since the last stop, and at the end the core
  service, the greeter and the tracker are there together with the server, or, without a
  server, nothing of them is.
\<close>

theorem ex_server_lifecycle:
  "let (rs, (sv, w')) = life_run (ex_start nc dial ng listen tcp_first arg) ex_stop bs
         (ex_stopped :: ('n, 'k, 'g) ex_server, w) in
     rs = fst (life_spec bs False) \<and> (es_srv sv \<noteq> None) = snd (life_spec bs False) \<and>
     (if es_srv sv = None then sv = ex_stopped else es_core sv \<noteq> None \<and> es_greeter sv \<noteq> None \<and> es_quit sv)"
proof -
  obtain rs sv w' where run: "life_run (ex_start nc dial ng listen tcp_first arg) ex_stop bs (ex_stopped, w) = (rs, (sv, w'))"
    by (metis prod.exhaust)
  have "es_srv (ex_stopped :: ('n, 'k, 'g) ex_server) = None" by (simp add: ex_stopped_def)
  then show ?thesis
    using ex_life.life_run_spec [of nc dial ng listen tcp_first arg bs "(ex_stopped, w)"]
      ex_inv_run [of "(ex_stopped, w)" nc dial ng listen tcp_first arg bs] ex_inv_stopped
    by (auto simp: run ex_inv_def split: if_splits)
qed

section \<open>An upload from end to end\<close>

text \<open>The worlds after \<open>SendStreamData\<close> accepted each chunk, passed with its length.\<close>

fun send_all :: "int64 \<Rightarrow> bytes list \<Rightarrow> world \<Rightarrow> world list" where
  "send_all i [] w = [w]"
| "send_all i (d # ds) w =
     concat (map (\<lambda>res. case res of Ret (r, w') \<Rightarrow> if r = 0 then send_all i ds w' else [] | Panic p \<Rightarrow> [])
       (Ex_SendStreamData i d (clen (length d)) w))"

lemma send_all_queue:
  assumes "world_inv w" "w_registry w i = Some a" "\<not> ss_input_closed (w_heap w ! a)"
    and "length (ch_buf (ss_data (w_heap w ! a))) + length ds \<le> 100" "\<forall>d \<in> set ds. length d \<le> MaxInt32"
  shows "send_all i ds w = [with_queue a (ch_buf (ss_data (w_heap w ! a)) @ ds) w]"
  using assms
proof (induction ds arbitrary: w)
  case Nil
  then show ?case by (simp add: with_queue_def)
next
  case (Cons d ds)
  let ?buf = "ch_buf (ss_data (w_heap w ! a))"
  let ?w = "with_queue a (?buf @ [d]) w"
  have len: "a < length (w_heap w)" by (rule world_invD(2) [OF Cons.prems(1,2)])
  have "session_inv (w_heap w ! a)" by (rule world_invD(1) [OF Cons.prems(1) len])
  then have "world_inv ?w"
    using Cons.prems(4) world_inv_update [OF Cons.prems(1), of "(w_heap w ! a)\<lparr>ss_data := (ss_data (w_heap w ! a))\<lparr>ch_buf := ?buf @ [d]\<rparr>\<rparr>" a]
    by (auto simp: with_queue_def session_inv_def chan_wf_def)
  moreover have "Ex_SendStreamData i d (clen (length d)) w = [Ret (0, ?w)]"
    using Cons.prems SendToStream_spec [OF Cons.prems(1), of i a d]
    by (simp add: Ex_SendStreamData_def GetStreamSession_def Let_def with_queue_def)
  ultimately show ?case
    using Cons.prems Cons.IH [of ?w] by (simp add: with_queue_session [OF len])
qed

text \<open>What opening a client stream does.\<close>

lemma open_upload:
  assumes "world_inv w"
  shows "\<exists>i a w1. Ex_InvokeBackendClientStream True (go_method ''UploadFile'') w = (i, Some (a, ClientTask HUploadFile), w1) \<and>
    world_inv w1 \<and> w_registry w1 i = Some a \<and> w_out w1 = w_out w \<and>
    w_heap w1 ! a = new_session i (go_method ''UploadFile'') StreamTypeClientStream w"
proof -
  let ?m = "go_method ''UploadFile''"
  have "world_inv (snd (NewStreamSession ?m StreamTypeClientStream w))" by (rule world_inv_new [OF assms])
  then show ?thesis
    by (auto simp: Ex_InvokeBackendClientStream_def go_method_def StartClientStream_def start_stream_def
        NewStreamSession_def Let_def new_session_def)
qed

text \<open>Closing the input of an open session finishes it.\<close>

lemma close_finishes:
  assumes "world_inv w" "w_registry w i = Some a" "\<not> ss_input_closed (w_heap w ! a)"
  shows "\<exists>w'. Ex_CloseStreamInput i w = Ret w' \<and> input_finished a (ch_buf (ss_data (w_heap w ! a))) w' \<and>
    session_inv (w_heap w' ! a) \<and> w_out w' = w_out w \<and>
    ss_closed (w_heap w' ! a) = ss_closed (w_heap w ! a) \<and> ss_trailers (w_heap w' ! a) = ss_trailers (w_heap w ! a) \<and>
    ss_callback (w_heap w' ! a) = ss_callback (w_heap w ! a) \<and> ss_id (w_heap w' ! a) = i"
proof -
  have len: "a < length (w_heap w)" by (rule world_invD(2) [OF assms(1,2)])
  have inv: "session_inv (w_heap w ! a)" by (rule world_invD(1) [OF assms(1) len])
  then show ?thesis using assms len world_invD(3) [OF assms(1,2)]
    by (auto simp: Ex_CloseStreamInput_def CloseStreamInput_def GetStreamSession_def on_session_def close_input_def
        chan_close_def input_finished_def session_inv_def chan_wf_def)
qed

text \<open>
  C13. An upload from end to end: a client that opens \<open>UploadFile\<close>, sends at most 100 chunks,
  none of \<open>2 ^ 31\<close> bytes or more, and closes its input has every call accepted; the handler then calls back with the size and
  the hash that the gRPC method computes from the same chunks, and the end of the stream.
\<close>

theorem upload_end_to_end:
  assumes "world_inv w" "w_callback w = Some cb" "length ds \<le> 100" "length ds < n" "\<forall>d \<in> set ds. length d \<le> MaxInt32"
    and "list_all2 (\<lambda>d c. dec d = Inr c) ds cs" "\<And>kv. ord [kv] = [kv]"
  shows "\<exists>i a w1 w2 w3 w4 h received.
    Ex_InvokeBackendClientStream True (go_method ''UploadFile'') w = (i, Some (a, ClientTask HUploadFile), w1) \<and>
    send_all i ds w1 = [w2] \<and> Ex_CloseStreamInput i w2 = Ret w3 \<and>
    HandleUploadFile n dec enc hash ord a w3 = [Ret w4] \<and>
    (UploadFile hash (map InMsg cs @ [InEOF]) :: ('e + (string \<times> string) list \<times> int) option) =
      Some (Inr ([(''x-file-hash'', h)], received)) \<and>
    w_out w4 = w_out w @ [Call cb i StreamMsgData (enc received),
      Call cb i StreamMsgTrailer (encode_pairs [(''x-file-hash'', h)]), Call cb i StreamMsgEnd []]"
proof -
  obtain i a w1 where op: "Ex_InvokeBackendClientStream True (go_method ''UploadFile'') w = (i, Some (a, ClientTask HUploadFile), w1)"
    "world_inv w1" "w_registry w1 i = Some a" "w_out w1 = w_out w"
    and s1: "w_heap w1 ! a = new_session i (go_method ''UploadFile'') StreamTypeClientStream w"
    using open_upload [OF assms(1)] by blast
  let ?w2 = "with_queue a ds w1"
  have send: "send_all i ds w1 = [?w2]"
    using send_all_queue [OF op(2,3), of ds] assms(3,5) by (simp add: s1 new_session_def make_chan_def)
  have len: "a < length (w_heap w1)" by (rule world_invD(2) [OF op(2,3)])
  have "world_inv ?w2"
    using world_inv_update [OF op(2), of "(w_heap w1 ! a)\<lparr>ss_data := (ss_data (w_heap w1 ! a))\<lparr>ch_buf := ds\<rparr>\<rparr>" a]
      world_invD(1) [OF op(2) len] assms(3)
    by (auto simp: with_queue_def session_inv_def chan_wf_def)
  from close_finishes [OF this, of i a] obtain w3 where w3: "Ex_CloseStreamInput i ?w2 = Ret w3"
    "input_finished a ds w3" "session_inv (w_heap w3 ! a)" "w_out w3 = w_out w"
    "\<not> ss_closed (w_heap w3 ! a)" "ss_trailers (w_heap w3 ! a) = []" "ss_callback (w_heap w3 ! a) = Some cb" "ss_id (w_heap w3 ! a) = i"
    using op(3,4) assms(2) by (auto simp: with_queue_session [OF len] s1 new_session_def)
  show ?thesis
    using upload_agrees [OF w3(2) assms(4,6) w3(3,5,6,7) assms(7), of hash enc] op(1) send w3 by auto
qed

theorem upload_end_to_end_witness:
  "\<exists>i a w1 w2 w3 w4. Ex_InvokeBackendClientStream True (go_method ''UploadFile'') (init_world\<lparr>w_callback := Some 5\<rparr>) =
       (i, Some (a, ClientTask HUploadFile), w1) \<and>
     send_all i [[1], [2, 3]] w1 = [w2] \<and> Ex_CloseStreamInput i w2 = Ret w3 \<and>
     HandleUploadFile 9 Inr (\<lambda>t. [word_of_int t]) bytes_str id a w3 = [Ret w4] \<and> length (w_out w4) = 3"
proof -
  have "world_inv (init_world\<lparr>w_callback := Some 5\<rparr>)" by (simp add: world_inv_def init_world_def)
  moreover have "list_all2 (\<lambda>d c. (Inr d :: string + bytes) = Inr c) [[1], [2, 3]] [[1], [2, 3]]" by simp
  ultimately show ?thesis
    using upload_end_to_end [where 'e = string, of "init_world\<lparr>w_callback := Some 5\<rparr>" 5 "[[1], [2, 3]]" 9 Inr "[[1], [2, 3]]" id
      "\<lambda>t. [word_of_int t]" bytes_str] by (fastforce simp: init_world_def MaxInt32_def)
qed

end
