(* ===== verification/Codegen.thy ===== *)
theory Codegen
  imports GoStrings "HOL-Library.AList"
begin

text \<open>
  The code generator (\<open>cmd/protoc-gen-synurang-ffi/main.go\<close>): the data it prepares for its
  templates, the names it makes, and which files it writes. The descriptors are those of
  protogen, reduced to what is read; executing a template is a parameter. A map from strings
  is an association list, a set of strings a list, and what a loop over one of them meets is
  given by an order, a parameter.
\<close>

section \<open>Descriptors\<close>

record go_ident =
  gi_GoName :: string
  gi_GoImportPath :: string

record message_desc =
  ms_GoIdent :: go_ident
  ms_file :: string

record method_desc =
  me_Name :: string
  me_GoName :: string
  me_Input :: message_desc
  me_Output :: message_desc
  me_streaming_server :: bool
  me_streaming_client :: bool

record service_desc =
  sd_Name :: string
  sd_GoName :: string
  sd_Methods :: "method_desc list"

record proto_file =
  pf_Path :: string
  pf_Package :: string
  pf_GoPackageName :: string
  pf_GoImportPath :: string
  pf_Services :: "service_desc list"
  pf_Generate :: bool

section \<open>Template data\<close>

record go_import =
  im_Alias :: string
  im_Path :: string

record method_data =
  md_Name :: string
  md_GoName :: string
  md_FullMethodName :: string
  md_InputType :: string
  md_OutputType :: string
  md_InputGoIdent :: string
  md_OutputGoIdent :: string
  md_IsServerStreaming :: bool
  md_IsClientStreaming :: bool
  md_IsBidiStreaming :: bool
  md_IsUnary :: bool

record service_data =
  sv_Name :: string
  sv_GoName :: string
  sv_Methods :: "method_data list"

record file_data =
  fd_Package :: string
  fd_GoPackageName :: string
  fd_Services :: "service_data list"
  fd_HasStreaming :: bool
  fd_DartPackage :: string
  fd_ExternalImports :: "string list"
  fd_GoImports :: "go_import list"
  fd_PbDartFile :: string
  fd_PbHeaderFile :: string
  fd_CppNamespace :: string
  fd_CppGuardName :: string
  fd_RustModPath :: string

section \<open>Names\<close>

fun snake :: "bool \<Rightarrow> string \<Rightarrow> string" where
  "snake started [] = []"
| "snake started (r # rs) = (if started \<and> is_upper r then [CHR ''_'', r] else [r]) @ snake True rs"

definition toSnakeCase :: "string \<Rightarrow> string" where
  "toSnakeCase s = ToLower (snake False s)"

definition callMethod :: "method_data \<Rightarrow> string" where
  "callMethod m = (if \<not> md_IsUnary m then md_GoName m @ ''Internal'' else md_GoName m)"

definition streamType :: "string \<Rightarrow> service_data \<Rightarrow> method_data \<Rightarrow> string" where
  "streamType pre svc m = pre @ sv_GoName svc @ md_GoName m @ ''Stream''"

definition grpcStreamType :: "service_data \<Rightarrow> method_data \<Rightarrow> string" where
  "grpcStreamType svc m = streamType ''grpc'' svc m"

definition ffiStreamType :: "service_data \<Rightarrow> method_data \<Rightarrow> string" where
  "ffiStreamType svc m = streamType ''ffi'' svc m"

definition pluginStreamType :: "service_data \<Rightarrow> method_data \<Rightarrow> string" where
  "pluginStreamType svc m = ''pluginStream'' @ sv_GoName svc @ md_GoName m"

definition selectTemplate :: "string \<Rightarrow> string \<Rightarrow> string" where
  "selectTemplate lang modeOrOpt =
     (if lang = ''go'' then
        (if modeOrOpt = ''plugin_server'' then ''go_plugin_server.go.tmpl''
         else if modeOrOpt = ''plugin_client'' then ''go_plugin_client.go.tmpl''
         else ''go_default.go.tmpl'')
      else if lang = ''dart'' then ''dart.dart.tmpl''
      else if lang = ''cpp'' then ''cpp.h.tmpl''
      else if lang = ''rust'' then ''rust.rs.tmpl''
      else '''')"

definition output_base :: "string \<Rightarrow> string" where
  "output_base path = after_last (TrimSuffix path ''.proto'') ''/''"

definition outputFilename :: "string \<Rightarrow> string \<Rightarrow> string" where
  "outputFilename path lang =
     output_base path @
     (if lang = ''go'' then ''_ffi.pb.go''
      else if lang = ''dart'' then ''_ffi.pb.dart''
      else if lang = ''cpp'' then ''_ffi.h''
      else if lang = ''rust'' then ''_ffi.rs''
      else ''_ffi'')"

definition goPackageAlias :: "string \<Rightarrow> string" where
  "goPackageAlias importPath = after_last importPath ''/''"

section \<open>The data of a file\<close>

definition shouldGenerateService :: "string \<Rightarrow> string list \<Rightarrow> bool" where
  "shouldGenerateService serviceName serviceList =
     (if length serviceList = 0 then True else serviceName \<in> set serviceList)"

text \<open>\<open>qualifyGoType\<close>: the name of a type, and the imports with its package, if it is added.\<close>

definition qualifyGoType ::
    "proto_file \<Rightarrow> go_ident \<Rightarrow> bool \<Rightarrow> (string \<times> string) list \<Rightarrow> string \<times> (string \<times> string) list" where
  "qualifyGoType file ident addImport goImports =
     (if gi_GoImportPath ident = pf_GoImportPath file then (gi_GoName ident, goImports)
      else (let alias = goPackageAlias (gi_GoImportPath ident) in
            (alias @ ''.'' @ gi_GoName ident,
             if addImport then AList.update (gi_GoImportPath ident) alias goImports else goImports)))"

definition method_entry ::
    "proto_file \<Rightarrow> service_desc \<Rightarrow> method_desc \<Rightarrow> (string \<times> string) list \<Rightarrow> method_data \<times> (string \<times> string) list" where
  "method_entry file service m goImports =
     (let isServerStream = me_streaming_server m;
          isClientStream = me_streaming_client m;
          isStreaming = isServerStream \<or> isClientStream;
          (inIdent, imports1) = qualifyGoType file (ms_GoIdent (me_Input m)) True goImports;
          (outIdent, imports2) = qualifyGoType file (ms_GoIdent (me_Output m)) isStreaming imports1
      in (\<lparr>md_Name = me_Name m, md_GoName = me_GoName m,
           md_FullMethodName = ''/'' @ pf_Package file @ ''.'' @ sd_Name service @ ''/'' @ me_Name m,
           md_InputType = gi_GoName (ms_GoIdent (me_Input m)),
           md_OutputType = gi_GoName (ms_GoIdent (me_Output m)),
           md_InputGoIdent = inIdent, md_OutputGoIdent = outIdent,
           md_IsServerStreaming = isServerStream \<and> \<not> isClientStream,
           md_IsClientStreaming = isClientStream \<and> \<not> isServerStream,
           md_IsBidiStreaming = isServerStream \<and> isClientStream,
           md_IsUnary = \<not> isServerStream \<and> \<not> isClientStream\<rparr>, imports2))"

fun method_entries ::
    "proto_file \<Rightarrow> service_desc \<Rightarrow> method_desc list \<Rightarrow> (string \<times> string) list \<Rightarrow> method_data list \<times> (string \<times> string) list" where
  "method_entries file service [] goImports = ([], goImports)"
| "method_entries file service (m # ms) goImports =
     (let (d, imports1) = method_entry file service m goImports;
          (ds, imports2) = method_entries file service ms imports1
      in (d # ds, imports2))"

fun service_entries ::
    "proto_file \<Rightarrow> string list \<Rightarrow> service_desc list \<Rightarrow> (string \<times> string) list \<Rightarrow> service_data list \<times> (string \<times> string) list" where
  "service_entries file serviceList [] goImports = ([], goImports)"
| "service_entries file serviceList (s # ss) goImports =
     (if \<not> shouldGenerateService (sd_GoName s) serviceList then service_entries file serviceList ss goImports
      else (let (ms, imports1) = method_entries file s (sd_Methods s) goImports;
                (ds, imports2) = service_entries file serviceList ss imports1
            in (\<lparr>sv_Name = sd_Name s, sv_GoName = sd_GoName s, sv_Methods = ms\<rparr> # ds, imports2)))"

definition addDartImport :: "proto_file \<Rightarrow> string \<Rightarrow> string \<Rightarrow> string list \<Rightarrow> string list" where
  "addDartImport file dartPackage path imports =
     (if path = pf_Path file then imports
      else (let target = TrimSuffix path ''.proto'' @ ''.pb.dart'' in
            List.insert
              (if HasPrefix target ''google/protobuf/'' then ''package:protobuf/well_known_types/'' @ target
               else if dartPackage \<noteq> '''' then ''package:'' @ dartPackage @ ''/'' @ target
               else target) imports))"

text \<open>The paths that the loop over the methods of the generated services adds, in order.\<close>

definition dart_paths :: "string list \<Rightarrow> service_desc list \<Rightarrow> string list" where
  "dart_paths serviceList ss =
     concat (map (\<lambda>s. concat (map (\<lambda>m. [ms_file (me_Input m), ms_file (me_Output m)]) (sd_Methods s)))
       (filter (\<lambda>s. shouldGenerateService (sd_GoName s) serviceList) ss))"

definition dart_imports :: "proto_file \<Rightarrow> string list \<Rightarrow> string \<Rightarrow> string list" where
  "dart_imports file serviceList dartPackage =
     fold (addDartImport file dartPackage) (dart_paths serviceList (pf_Services file)) []"

definition buildFileData ::
    "((string \<times> string) list \<Rightarrow> (string \<times> string) list) \<Rightarrow> (string list \<Rightarrow> string list) \<Rightarrow>
     proto_file \<Rightarrow> string list \<Rightarrow> string \<Rightarrow> string \<Rightarrow> file_data" where
  "buildFileData go_order dart_order file serviceList lang modeOrOpt =
     (let package = pf_Package file;
          base = TrimSuffix (Base (pf_Path file)) ''.proto'';
          (services, goImports) = service_entries file serviceList (pf_Services file) []
      in \<lparr>fd_Package = package, fd_GoPackageName = pf_GoPackageName file,
          fd_Services = services,
          fd_HasStreaming = (\<exists>s \<in> set services. \<exists>m \<in> set (sv_Methods s). \<not> md_IsUnary m),
          fd_DartPackage = (if lang = ''dart'' then modeOrOpt else ''''),
          fd_ExternalImports =
            (if lang = ''dart'' then sort (dart_order (dart_imports file serviceList modeOrOpt)) else []),
          fd_GoImports =
            map (\<lambda>(path, alias). \<lparr>im_Alias = alias, im_Path = path\<rparr>) (sort_key fst (go_order goImports)),
          fd_PbDartFile = (if lang = ''dart'' then base @ ''.pb.dart'' else ''''),
          fd_PbHeaderFile = (if lang = ''cpp'' then base @ ''.pb.h'' else ''''),
          fd_CppNamespace = (if lang = ''cpp'' then ReplaceAll package ''.'' ''::'' else ''''),
          fd_CppGuardName =
            (if lang = ''cpp''
             then ToUpper (ReplaceAll (TrimSuffix (outputFilename (pf_Path file) ''cpp'') ''.h'') ''.'' ''_'') @ ''_H_''
             else ''''),
          fd_RustModPath = (if lang = ''rust'' then ReplaceAll package ''.'' ''_'' else '''')\<rparr>)"

section \<open>The run\<close>

text \<open>
  One file in one language: its name and text, or the error that is reported to protoc, whose
  first one it keeps. \<open>exec\<close> executes a template.
\<close>

type_synonym gen_state = "(string \<times> string) list \<times> string option"

definition generateFromTemplate ::
    "(string \<Rightarrow> file_data \<Rightarrow> string + string) \<Rightarrow> ((string \<times> string) list \<Rightarrow> (string \<times> string) list) \<Rightarrow>
     (string list \<Rightarrow> string list) \<Rightarrow> proto_file \<Rightarrow> string list \<Rightarrow> string \<Rightarrow> string \<Rightarrow> gen_state \<Rightarrow> gen_state" where
  "generateFromTemplate exec go_order dart_order file serviceList lang modeOrOpt st =
     (let data = buildFileData go_order dart_order file serviceList lang modeOrOpt;
          tmplName = selectTemplate lang modeOrOpt;
          (files, err) = st
      in case exec tmplName data of
           Inl e \<Rightarrow> (files, if err = None then Some (''template '' @ tmplName @ '': '' @ e) else err)
         | Inr text_out \<Rightarrow> (files @ [(outputFilename (pf_Path file) lang, text_out)], err))"

definition parse_services :: "string \<Rightarrow> string list" where
  "parse_services services = (if services \<noteq> '''' then remdups (map TrimSpace (Split services '','')) else [])"

text \<open>The languages a file is generated in, with what each is given.\<close>

definition lang_runs :: "string \<Rightarrow> string \<Rightarrow> string \<Rightarrow> (string \<times> string) list" where
  "lang_runs lang mode dartPackage =
     (if lang = ''go'' \<or> lang = '''' then [(''go'', mode)] else []) @
     (if lang = ''dart'' \<or> lang = '''' then [(''dart'', dartPackage)] else []) @
     (if lang = ''cpp'' then [(''cpp'', '''')] else []) @
     (if lang = ''rust'' then [(''rust'', '''')] else [])"

definition codegen_main ::
    "(string \<Rightarrow> file_data \<Rightarrow> string + string) \<Rightarrow> ((string \<times> string) list \<Rightarrow> (string \<times> string) list) \<Rightarrow>
     (string list \<Rightarrow> string list) \<Rightarrow> string \<Rightarrow> string \<Rightarrow> string \<Rightarrow> string \<Rightarrow> proto_file list \<Rightarrow> gen_state" where
  "codegen_main exec go_order dart_order lang mode dartPackage services files =
     fold (\<lambda>f. fold (\<lambda>(l, opt). generateFromTemplate exec go_order dart_order f (parse_services services) l opt)
                 (lang_runs lang mode dartPackage))
       (filter pf_Generate files) ([], None)"

end
