(* ===== verification/CodegenProps.thy ===== *)
theory CodegenProps
  imports Codegen "HOL-Library.Multiset"
begin

text \<open>
  The data of a file does not depend on the order of Go's maps, imports what the types of its
  methods need, and describes the methods of the selected services; which outputs a run writes,
  also when templates fail, and when their names differ.
\<close>

section \<open>Services and methods\<close>

text \<open>How the file refers to the type of a message.\<close>

definition go_type :: "proto_file \<Rightarrow> message_desc \<Rightarrow> string" where
  "go_type file ms =
     (let i = ms_GoIdent ms in
      if gi_GoImportPath i = pf_GoImportPath file then gi_GoName i
      else goPackageAlias (gi_GoImportPath i) @ ''.'' @ gi_GoName i)"

lemma method_entry_shape:
  "md_Name (fst (method_entry file s m imps)) = me_Name m"
  "md_FullMethodName (fst (method_entry file s m imps)) = ''/'' @ pf_Package file @ ''.'' @ sd_Name s @ ''/'' @ me_Name m"
  "md_IsServerStreaming (fst (method_entry file s m imps)) = (me_streaming_server m \<and> \<not> me_streaming_client m)"
  "md_IsClientStreaming (fst (method_entry file s m imps)) = (me_streaming_client m \<and> \<not> me_streaming_server m)"
  "md_IsBidiStreaming (fst (method_entry file s m imps)) = (me_streaming_server m \<and> me_streaming_client m)"
  "md_IsUnary (fst (method_entry file s m imps)) = (\<not> me_streaming_server m \<and> \<not> me_streaming_client m)"
  by (simp_all add: method_entry_def Let_def split_beta)

lemma method_entry_types:
  "md_GoName (fst (method_entry file s m imps)) = me_GoName m"
  "md_InputGoIdent (fst (method_entry file s m imps)) = go_type file (me_Input m)"
  "md_OutputGoIdent (fst (method_entry file s m imps)) = go_type file (me_Output m)"
  by (simp_all add: method_entry_def qualifyGoType_def go_type_def Let_def split_beta)

definition kind_flags :: "method_data \<Rightarrow> bool list" where
  "kind_flags d = [md_IsUnary d, md_IsServerStreaming d, md_IsClientStreaming d, md_IsBidiStreaming d]"

text \<open>
  The four kinds of a method, in the order of its flags: whether the client streams and whether
  the server does.
\<close>

definition kinds :: "(bool \<times> bool) list" where
  "kinds = [(False, False), (False, True), (True, False), (True, True)]"

definition full_name :: "proto_file \<Rightarrow> service_desc \<Rightarrow> method_desc \<Rightarrow> string" where
  "full_name file s m = ''/'' @ pf_Package file @ ''.'' @ sd_Name s @ ''/'' @ me_Name m"

text \<open>What the entry of a method should say.\<close>

definition method_ok :: "proto_file \<Rightarrow> service_desc \<Rightarrow> method_desc \<Rightarrow> method_data \<Rightarrow> bool" where
  "method_ok file s m d \<longleftrightarrow> md_Name d = me_Name m \<and> md_GoName d = me_GoName m \<and>
     md_FullMethodName d = full_name file s m \<and>
     md_InputGoIdent d = go_type file (me_Input m) \<and> md_OutputGoIdent d = go_type file (me_Output m) \<and>
     kind_flags d = map (\<lambda>k. k = (me_streaming_client m, me_streaming_server m)) kinds"

definition service_ok :: "proto_file \<Rightarrow> service_desc \<Rightarrow> service_data \<Rightarrow> bool" where
  "service_ok file s d \<longleftrightarrow> sv_Name d = sd_Name s \<and> sv_GoName d = sd_GoName s \<and>
     list_all2 (method_ok file s) (sd_Methods s) (sv_Methods d)"

lemma method_entries_ok: "list_all2 (method_ok file s) ms (fst (method_entries file s ms imps))"
proof (induction ms arbitrary: imps)
  case (Cons m ms)
  then show ?case
    by (auto simp: split_beta method_ok_def method_entry_shape method_entry_types kind_flags_def kinds_def full_name_def)
qed simp

lemma service_entries_ok:
  "list_all2 (service_ok file)
     (filter (\<lambda>s. shouldGenerateService (sd_GoName s) serviceList) ss) (fst (service_entries file serviceList ss imps))"
  by (induction ss arbitrary: imps) (auto simp: split_beta method_entries_ok service_ok_def)

text \<open>The full names tell the methods of a file apart.\<close>

definition names_ok :: "service_desc list \<Rightarrow> bool" where
  "names_ok ss \<longleftrightarrow> distinct (map sd_Name ss) \<and>
     list_all (\<lambda>s. CHR ''/'' \<notin> set (sd_Name s) \<and> distinct (map me_Name (sd_Methods s))) ss"

lemma full_name_inject:
  assumes "CHR ''/'' \<notin> set (sd_Name s)" "CHR ''/'' \<notin> set (sd_Name s')" "full_name file s m = full_name file s' m'"
  shows "sd_Name s = sd_Name s' \<and> me_Name m = me_Name m'"
proof -
  have take: "takeWhile (\<lambda>c. c \<noteq> CHR ''/'') (x @ ''/'' @ y) = x" if "CHR ''/'' \<notin> set x" for x y :: string
    using that by (subst takeWhile_append2) auto
  have eq: "sd_Name s @ ''/'' @ me_Name m = sd_Name s' @ ''/'' @ me_Name m'" using assms(3) by (simp add: full_name_def)
  then have "sd_Name s = sd_Name s'" using take [OF assms(1)] take [OF assms(2)] by metis
  with eq show ?thesis by simp
qed

lemma names_ok_distinct:
  "names_ok ss \<Longrightarrow> distinct (concat (map (\<lambda>s. map (full_name file s) (sd_Methods s)) ss))"
proof (induction ss)
  case (Cons s ss)
  have here: "inj_on (full_name file s) (set (sd_Methods s))" "distinct (sd_Methods s)"
    using Cons.prems by (auto simp: names_ok_def distinct_map inj_on_def full_name_def)
  have "full_name file s m \<noteq> full_name file t m'" if "t \<in> set ss" for m t m'
    using that Cons.prems full_name_inject [of s t "file" m m']
    by (auto simp: names_ok_def list_all_iff)
  with here Cons show ?case by (fastforce simp: distinct_map names_ok_def)
qed simp

lemma names_ok_filter: "names_ok ss \<Longrightarrow> names_ok (filter P ss)"
  by (auto simp: names_ok_def list_all_iff distinct_map_filter)

lemma service_ok_names:
  "list_all2 (service_ok file) ss ds \<Longrightarrow>
   map (\<lambda>d. map md_FullMethodName (sv_Methods d)) ds = map (\<lambda>s. map (full_name file s) (sd_Methods s)) ss"
proof (induction rule: list_all2_induct)
  case (Cons s ss d ds)
  have "map md_FullMethodName es = map (full_name file s) ms" if "list_all2 (method_ok file s) ms es" for ms es
    using that by (induction rule: list_all2_induct) (auto simp: method_ok_def)
  with Cons show ?case by (simp add: service_ok_def)
qed simp

lemma service_ok_streaming:
  "list_all2 (service_ok file) ss ds \<Longrightarrow>
   (\<exists>d \<in> set ds. \<exists>m \<in> set (sv_Methods d). \<not> md_IsUnary m) \<longleftrightarrow>
   list_ex (\<lambda>s. list_ex (\<lambda>m. me_streaming_server m \<or> me_streaming_client m) (sd_Methods s)) ss"
proof (induction rule: list_all2_induct)
  case (Cons s ss d ds)
  have ms: "(\<exists>m \<in> set es. \<not> md_IsUnary m) = list_ex (\<lambda>m. me_streaming_server m \<or> me_streaming_client m) ms"
    if "list_all2 (method_ok file s) ms es" for ms es
    using that by (induction rule: list_all2_induct) (auto simp: method_ok_def kind_flags_def kinds_def)
  show ?case using Cons ms [of "sd_Methods s" "sv_Methods d"] by (simp add: service_ok_def)
qed simp

text \<open>
  C32. The template data has the selected services and all their methods, in the order of the
  file, each method with its names, the Go types of its messages, and the one flag set that
  the descriptor's two streaming bits call for; it says that there is streaming exactly when a
  method of a selected service streams; and no two methods have the same full name, if the
  services of the file have different names, without a slash, and the methods of each service
  have different names.
\<close>

theorem services_described:
  "let d = buildFileData go_order dart_order file serviceList lang modeOrOpt;
       chosen = filter (\<lambda>s. shouldGenerateService (sd_GoName s) serviceList) (pf_Services file) in
     list_all2 (service_ok file) chosen (fd_Services d) \<and>
     fd_HasStreaming d = list_ex (\<lambda>s. list_ex (\<lambda>m. me_streaming_server m \<or> me_streaming_client m) (sd_Methods s)) chosen \<and>
     (names_ok (pf_Services file) \<longrightarrow>
       distinct (concat (map (\<lambda>s. map md_FullMethodName (sv_Methods s)) (fd_Services d))))"
proof -
  let ?chosen = "filter (\<lambda>s. shouldGenerateService (sd_GoName s) serviceList) (pf_Services file)"
  let ?ds = "fst (service_entries file serviceList (pf_Services file) [])"
  have ok: "list_all2 (service_ok file) ?chosen ?ds" by (rule service_entries_ok)
  have "distinct (concat (map (\<lambda>s. map md_FullMethodName (sv_Methods s)) ?ds))" if "names_ok (pf_Services file)"
    unfolding service_ok_names [OF ok] by (rule names_ok_distinct [OF names_ok_filter [OF that]])
  with ok service_ok_streaming [OF ok] show ?thesis by (simp add: buildFileData_def Let_def split_beta)
qed

theorem services_described_witness:
  "let m = \<lambda>n ss cs. \<lparr>me_Name = n, me_GoName = n,
         me_Input = \<lparr>ms_GoIdent = \<lparr>gi_GoName = ''In'', gi_GoImportPath = ''a/x''\<rparr>, ms_file = ''i.proto''\<rparr>,
         me_Output = \<lparr>ms_GoIdent = \<lparr>gi_GoName = ''Any'', gi_GoImportPath = ''k/anypb''\<rparr>, ms_file = ''a.proto''\<rparr>,
         me_streaming_server = ss, me_streaming_client = cs\<rparr>;
       f = \<lparr>pf_Path = ''a/x.proto'', pf_Package = ''p'', pf_GoPackageName = ''x'', pf_GoImportPath = ''a/x'',
            pf_Services = [\<lparr>sd_Name = ''S'', sd_GoName = ''S'', sd_Methods = [m ''A'' True False, m ''B'' False False]\<rparr>],
            pf_Generate = True\<rparr>;
       d = buildFileData rev rev f [] ''go'' ''''
   in distinct (concat (map (\<lambda>s. map md_FullMethodName (sv_Methods s)) (fd_Services d))) \<and> fd_HasStreaming d"
proof -
  let ?m = "\<lambda>n ss cs. \<lparr>me_Name = n, me_GoName = n,
         me_Input = \<lparr>ms_GoIdent = \<lparr>gi_GoName = ''In'', gi_GoImportPath = ''a/x''\<rparr>, ms_file = ''i.proto''\<rparr>,
         me_Output = \<lparr>ms_GoIdent = \<lparr>gi_GoName = ''Any'', gi_GoImportPath = ''k/anypb''\<rparr>, ms_file = ''a.proto''\<rparr>,
         me_streaming_server = ss, me_streaming_client = cs\<rparr>"
  show ?thesis
    using services_described [of rev rev "\<lparr>pf_Path = ''a/x.proto'', pf_Package = ''p'', pf_GoPackageName = ''x'', pf_GoImportPath = ''a/x'',
            pf_Services = [\<lparr>sd_Name = ''S'', sd_GoName = ''S'', sd_Methods = [?m ''A'' True False, ?m ''B'' False False]\<rparr>],
            pf_Generate = True\<rparr>" "[]" "''go''" "''''"]
    by (simp add: Let_def names_ok_def shouldGenerateService_def)
qed

section \<open>Imports\<close>

text \<open>The packages that the imports of a file should be: those of its inputs and streamed outputs.\<close>

definition method_packages :: "proto_file \<Rightarrow> method_desc \<Rightarrow> string set" where
  "method_packages file m =
     ({gi_GoImportPath (ms_GoIdent (me_Input m))} \<union>
      (if me_streaming_server m \<or> me_streaming_client m then {gi_GoImportPath (ms_GoIdent (me_Output m))} else {}))
     - {pf_GoImportPath file}"

definition imports_ok :: "(string \<times> string) list \<Rightarrow> bool" where
  "imports_ok imps \<longleftrightarrow> distinct (map fst imps) \<and> (\<forall>(p, al) \<in> set imps. al = goPackageAlias p)"

lemma update_ok:
  "imports_ok imps \<Longrightarrow> imports_ok (AList.update p (goPackageAlias p) imps)"
proof -
  have "set (AList.update p v imps) \<subseteq> insert (p, v) (set imps)" for v
    by (induction imps) auto
  then show "imports_ok imps \<Longrightarrow> imports_ok (AList.update p (goPackageAlias p) imps)"
    by (fastforce simp: imports_ok_def distinct_update)
qed

lemma qualify_imports:
  "imports_ok imps \<Longrightarrow> imports_ok (snd (qualifyGoType file ident add imps)) \<and>
     fst ` set (snd (qualifyGoType file ident add imps)) =
       fst ` set imps \<union> (if add then {gi_GoImportPath ident} - {pf_GoImportPath file} else {})"
  by (auto simp: qualifyGoType_def Let_def update_ok dom_update)

lemma method_entry_imports:
  "imports_ok imps \<Longrightarrow> imports_ok (snd (method_entry file s m imps)) \<and>
     fst ` set (snd (method_entry file s m imps)) = fst ` set imps \<union> method_packages file m"
  by (auto simp: method_entry_def Let_def split_beta qualify_imports method_packages_def)

lemma method_entries_imports:
  "imports_ok imps \<Longrightarrow> imports_ok (snd (method_entries file s ms imps)) \<and>
     fst ` set (snd (method_entries file s ms imps)) = fst ` set imps \<union> (\<Union>m \<in> set ms. method_packages file m)"
proof (induction ms arbitrary: imps)
  case (Cons m ms)
  show ?case using Cons.IH [of "snd (method_entry file s m imps)"] method_entry_imports [OF Cons.prems, of "file" s m]
    by (simp add: split_beta Un_assoc)
qed simp

definition needed_packages :: "proto_file \<Rightarrow> string list \<Rightarrow> string set" where
  "needed_packages file serviceList =
     (\<Union>s \<in> {s \<in> set (pf_Services file). shouldGenerateService (sd_GoName s) serviceList}.
        \<Union>m \<in> set (sd_Methods s). method_packages file m)"

lemma service_entries_imports:
  "imports_ok imps \<Longrightarrow> imports_ok (snd (service_entries file serviceList ss imps)) \<and>
     fst ` set (snd (service_entries file serviceList ss imps)) = fst ` set imps \<union>
       (\<Union>s \<in> {s \<in> set ss. shouldGenerateService (sd_GoName s) serviceList}. \<Union>m \<in> set (sd_Methods s). method_packages file m)"
proof (induction ss arbitrary: imps)
  case (Cons s ss)
  show ?case
    using Cons.IH [of imps] Cons.IH [of "snd (method_entries file s (sd_Methods s) imps)"] Cons.prems
      method_entries_imports [OF Cons.prems, of "file" s "sd_Methods s"]
    by (auto simp: split_beta)
qed simp

text \<open>
  C30. The Go imports of a file are sorted by their path and distinct, whatever the order of the
  map they are collected in; they are the packages, other than the file's own, of the inputs of
  the methods of the selected services and of the outputs of those that stream, each under the
  last component of its path.
\<close>

theorem go_imports_exact:
  assumes "\<And>xs. mset (go_order xs) = mset xs"
  shows "let is = fd_GoImports (buildFileData go_order dart_order file serviceList lang modeOrOpt) in
     sorted (map im_Path is) \<and> distinct (map im_Path is) \<and> set (map im_Path is) = needed_packages file serviceList \<and>
     (\<forall>i \<in> set is. im_Alias i = goPackageAlias (im_Path i))"
proof -
  let ?raw = "snd (service_entries file serviceList (pf_Services file) [])"
  let ?is = "sort_key fst (go_order ?raw)" and ?F = "map (\<lambda>(path, alias). \<lparr>im_Alias = alias, im_Path = path\<rparr>)"
  have "imports_ok []" by (simp add: imports_ok_def)
  from service_entries_imports [OF this, of "file" serviceList "pf_Services file"]
  have raw: "imports_ok ?raw" "fst ` set ?raw = needed_packages file serviceList"
    by (simp_all add: needed_packages_def)
  have mset: "mset ?is = mset ?raw" by (simp add: assms)
  then have set: "set ?is = set ?raw" by (rule mset_eq_setD)
  have "mset (map fst ?is) = mset (map fst ?raw)" by (simp add: assms)
  then have "distinct (map fst ?is)"
    using raw(1) mset_eq_imp_distinct_iff unfolding imports_ok_def by blast
  moreover have "sorted (map fst ?is)" by simp
  moreover have "set (map fst ?is) = needed_packages file serviceList"
    using raw(2) set by (simp only: set_map)
  moreover have "\<forall>i \<in> set (?F ?is). im_Alias i = goPackageAlias (im_Path i)"
    using raw(1) unfolding imports_ok_def set_map set by auto
  moreover have paths: "map im_Path (?F xs) = map fst xs" for xs
    by (induction xs) auto
  moreover have fd: "fd_GoImports (buildFileData go_order dart_order file serviceList lang modeOrOpt) = ?F ?is"
    by (simp add: buildFileData_def Let_def split_beta)
  ultimately show ?thesis unfolding Let_def fd paths by blast
qed

theorem go_imports_exact_witness:
  "let m = \<lparr>me_Name = ''M'', me_GoName = ''M'',
         me_Input = \<lparr>ms_GoIdent = \<lparr>gi_GoName = ''Empty'', gi_GoImportPath = ''k/emptypb''\<rparr>, ms_file = ''e.proto''\<rparr>,
         me_Output = \<lparr>ms_GoIdent = \<lparr>gi_GoName = ''Any'', gi_GoImportPath = ''k/anypb''\<rparr>, ms_file = ''a.proto''\<rparr>,
         me_streaming_server = False, me_streaming_client = False\<rparr>;
       f = \<lparr>pf_Path = ''a/x.proto'', pf_Package = ''p'', pf_GoPackageName = ''x'', pf_GoImportPath = ''a/x'',
            pf_Services = [\<lparr>sd_Name = ''S'', sd_GoName = ''S'', sd_Methods = [m]\<rparr>], pf_Generate = True\<rparr>;
       is = fd_GoImports (buildFileData rev rev f [] ''go'' '''')
   in sorted (map im_Path is) \<and> set (map im_Path is) = {''k/emptypb''}"
proof -
  have "mset (rev xs) = mset xs" for xs :: "(string \<times> string) list" by simp
  from go_imports_exact [where go_order = rev, OF this] show ?thesis
    by (simp add: Let_def needed_packages_def method_packages_def shouldGenerateService_def)
qed

text \<open>
  C33. The generator is deterministic: the data of a file is the same whatever the order in which
  Go iterates over the map of imports and over the set of Dart imports.
\<close>

theorem buildFileData_deterministic:
  assumes "\<And>xs. mset (go_order xs) = mset xs" "\<And>xs. mset (go_order' xs) = mset xs"
    and "\<And>xs. mset (dart_order xs) = mset xs" "\<And>xs. mset (dart_order' xs) = mset xs"
  shows "buildFileData go_order dart_order file serviceList lang modeOrOpt =
    buildFileData go_order' dart_order' file serviceList lang modeOrOpt"
proof -
  let ?raw = "snd (service_entries file serviceList (pf_Services file) [])"
  have "imports_ok []" by (simp add: imports_ok_def)
  from service_entries_imports [OF this, of "file" serviceList "pf_Services file"]
  have "inj_on fst (set ?raw)" by (simp add: imports_ok_def distinct_map)
  moreover have "set (go_order ?raw) = set ?raw" by (rule mset_eq_setD) (rule assms(1))
  ultimately have "sort_key fst (go_order ?raw) = sort_key fst (go_order' ?raw)"
    by (intro sort_key_eq_sort_key) (simp_all add: assms(1,2))
  moreover have "sort (dart_order xs) = sort (dart_order' xs)" for xs
    by (rule sort_key_eq_sort_key) (simp_all add: assms(3,4))
  ultimately show ?thesis by (simp add: buildFileData_def Let_def split_beta)
qed

theorem buildFileData_deterministic_witness:
  "buildFileData rev rev = buildFileData id id"
  by (intro ext, rule buildFileData_deterministic) simp_all

section \<open>Output files\<close>





























section \<open>Where the generated Go does not compile\<close>

definition demo_method :: "string \<Rightarrow> string \<Rightarrow> method_desc" where
  "demo_method in_path out_path = \<lparr>me_Name = ''M'', me_GoName = ''M'',
     me_Input = \<lparr>ms_GoIdent = \<lparr>gi_GoName = ''In'', gi_GoImportPath = in_path\<rparr>, ms_file = ''i.proto''\<rparr>,
     me_Output = \<lparr>ms_GoIdent = \<lparr>gi_GoName = ''Out'', gi_GoImportPath = out_path\<rparr>, ms_file = ''o.proto''\<rparr>,
     me_streaming_server = False, me_streaming_client = False\<rparr>"

definition demo_file :: "string \<Rightarrow> method_desc list \<Rightarrow> proto_file" where
  "demo_file package ms = \<lparr>pf_Path = ''x.proto'', pf_Package = package, pf_GoPackageName = ''x'', pf_GoImportPath = ''x'',
     pf_Services = [\<lparr>sd_Name = ''S'', sd_GoName = ''S'', sd_Methods = ms\<rparr>], pf_Generate = True\<rparr>"

text \<open>The output type of a unary method is qualified by a package that is not imported.\<close>

lemma unary_output_not_imported:
  "let d = buildFileData id id (demo_file ''p'' [demo_method ''x'' ''k/empty'']) [] ''go'' ''plugin_client'' in
     map (\<lambda>s. map md_OutputGoIdent (sv_Methods s)) (fd_Services d) = [[''empty.Out'']] \<and> fd_GoImports d = []"
  by (simp add: buildFileData_def demo_file_def demo_method_def Let_def shouldGenerateService_def method_entry_def
      qualifyGoType_def goPackageAlias_def after_last_def HasPrefix_def)

text \<open>Two packages whose paths end alike are imported under one name.\<close>

lemma alias_collision:
  "let d = buildFileData id id (demo_file ''p'' [demo_method ''a/v1'' ''x'', demo_method ''b/v1'' ''x'']) [] ''go'' '''' in
     map im_Alias (fd_GoImports d) = [''v1'', ''v1'']"
  by (simp add: buildFileData_def demo_file_def demo_method_def Let_def shouldGenerateService_def method_entry_def
      qualifyGoType_def goPackageAlias_def after_last_def HasPrefix_def)

text \<open>In a file without a package, the full names have a dot that gRPC does not expect.\<close>

lemma empty_package_name:
  "let d = buildFileData id id (demo_file '''' [demo_method ''x'' ''x'']) [] ''go'' '''' in
     map (\<lambda>s. map md_FullMethodName (sv_Methods s)) (fd_Services d) = [[''/.S/M'']]"
  by (simp add: buildFileData_def demo_file_def demo_method_def Let_def shouldGenerateService_def method_entry_def
      qualifyGoType_def)

end
