(* ===== verification/GoroutineTracker.thy ===== *)
theory GoroutineTracker
  imports GoStrings "HOL-Library.AList"
begin

text \<open>
  The goroutine tracker (\<open>pkg/debug/goroutine_tracker.go\<close>): it reads a dump of all stacks,
  counts the goroutines by a key made of their top frame, state and creator, and logs how the
  counts changed since its last call. The dump and the number of goroutines are what the
  runtime returned; a map is an association list, and \<open>ord\<close> the order in which Go ranges over
  one. The result of an operation is the lines it logs.
\<close>

section \<open>Reading a dump\<close>

definition nl :: string where
  "nl = [CHR 0x0A]"

text \<open>\<open>if idx := strings.Index(s, sub); idx > 0 { s = s[:idx] }\<close>, and the same from the end.\<close>

definition cut_at :: "string \<Rightarrow> string \<Rightarrow> string" where
  "cut_at s sub = (case Index s sub of Some i \<Rightarrow> if i > 0 then take i s else s | None \<Rightarrow> s)"

definition cut_at_last :: "string \<Rightarrow> string \<Rightarrow> string" where
  "cut_at_last s sub = (case LastIndex s sub of Some i \<Rightarrow> if i > 0 then take i s else s | None \<Rightarrow> s)"

definition goroutine_state :: "string \<Rightarrow> string" where
  "goroutine_state firstLine =
     (case Index firstLine ''['' of
        None \<Rightarrow> ''unknown''
      | Some start \<Rightarrow>
          (case Index (drop start firstLine) '']'' of
             None \<Rightarrow> ''unknown''
           | Some e \<Rightarrow> take (e - 1) (drop (start + 1) firstLine)))"

definition created_prefix :: string where
  "created_prefix = ''created by ''"

definition goroutine_creator :: "string list \<Rightarrow> string" where
  "goroutine_creator lns =
     (case find (\<lambda>l. HasPrefix l created_prefix) (rev lns) of
        None \<Rightarrow> ''''
      | Some l \<Rightarrow> after_last (cut_at (TrimPrefix l created_prefix) '' '') ''/'')"

definition func_name :: "string \<Rightarrow> string" where
  "func_name l = cut_at (TrimSpace l) ''(''"

definition file_line :: "string \<Rightarrow> string" where
  "file_line l = after_last (cut_at_last (TrimSpace l) '' +'') ''/''"

text \<open>The scan of the frames, on the lines after the first: a frame is two lines.\<close>

fun find_frame :: "string list \<Rightarrow> (string \<times> string) option" where
  "find_frame (l # f # rest) =
     (if HasPrefix l created_prefix then None
      else if Contains_str (func_name l) ''runtime.goexit'' \<and> rest \<noteq> [] then find_frame rest
      else Some (after_last (func_name l) ''/'', file_line f))"
| "find_frame _ = None"

definition goroutine_frame :: "string list \<Rightarrow> string \<times> string" where
  "goroutine_frame lns =
     (case find_frame (tl lns) of
        Some fr \<Rightarrow> fr
      | None \<Rightarrow> (after_last (func_name (lns ! 1)) ''/'', if length lns > 2 then file_line (lns ! 2) else ''?''))"

text \<open>The key of a block, unless the block is skipped.\<close>

definition block_key :: "string \<Rightarrow> string option" where
  "block_key block =
     (if block = '''' then None
      else (let lns = Split block nl in
            if length lns < 3 then None
            else (let (funcName, fileLine) = goroutine_frame lns;
                      state = goroutine_state (lns ! 0);
                      createdBy = goroutine_creator lns
                  in Some (funcName @ '' ('' @ fileLine @ '')@'' @ state @
                       (if createdBy \<noteq> '''' then '' [created by '' @ createdBy @ '']'' else '''')))))"

section \<open>Counting\<close>

definition lookup :: "(string \<times> nat) list \<Rightarrow> string \<Rightarrow> nat" where
  "lookup m k = (case map_of m k of Some n \<Rightarrow> n | None \<Rightarrow> 0)"

text \<open>The counts and the latest stack of every key.\<close>

definition count_block ::
    "string \<Rightarrow> (string \<times> nat) list \<times> (string \<times> string) list \<Rightarrow> (string \<times> nat) list \<times> (string \<times> string) list" where
  "count_block block st =
     (case block_key block of
        None \<Rightarrow> st
      | Some key \<Rightarrow> (AList.update key (lookup (fst st) key + 1) (fst st), AList.update key block (snd st)))"

definition count_blocks :: "string \<Rightarrow> (string \<times> nat) list \<times> (string \<times> string) list" where
  "count_blocks stacks = fold count_block (Split stacks (nl @ nl)) ([], [])"

section \<open>The tracker\<close>

record tracker =
  tk_prev :: "(string \<times> nat) list"
  tk_prevStacks :: "(string \<times> string) list"
  tk_callCount :: int
  tk_FullDumpInterval :: int
  tk_Tag :: string
  tk_PrintFullStack :: bool

definition NewGoroutineTracker :: tracker where
  "NewGoroutineTracker = \<lparr>tk_prev = [], tk_prevStacks = [], tk_callCount = 0, tk_FullDumpInterval = 10,
     tk_Tag = ''GR-DIFF'', tk_PrintFullStack = False\<rparr>"

definition times_text :: string where
  "times_text = bytes_str [0xc3, 0x97]"

definition formatDiff :: "string \<Rightarrow> nat \<Rightarrow> string" where
  "formatDiff key n = (if n > 1 then key @ times_text @ show_nat n else key)"

text \<open>\<open>PrintDiff\<close> before it takes the dump: the call is counted under the mutex.\<close>

definition PrintDiff_begin :: "tracker \<Rightarrow> bool \<times> tracker" where
  "PrintDiff_begin t =
     (let n = wrap64 (tk_callCount t + 1) in
      (tk_FullDumpInterval t > 0 \<and> n mod tk_FullDumpInterval t = 0, t\<lparr>tk_callCount := n\<rparr>))"

text \<open>The keys whose count grew from \<open>old\<close> to \<open>new\<close>: the text of each with a stack.\<close>

definition grown ::
    "((string \<times> nat) list \<Rightarrow> (string \<times> nat) list) \<Rightarrow> (string \<times> nat) list \<Rightarrow> (string \<times> nat) list \<Rightarrow>
     (string \<times> string) list \<Rightarrow> (string \<times> string) list" where
  "grown ord new old stacks =
     map (\<lambda>(key, n). (formatDiff key (n - lookup old key), case map_of stacks key of Some s \<Rightarrow> s | None \<Rightarrow> ''''))
       (filter (\<lambda>(key, n). n > lookup old key) (ord new))"

text \<open>The lines for one side of the difference, with the full stacks if they are wanted.\<close>

definition diff_lines :: "tracker \<Rightarrow> string \<Rightarrow> (string \<times> string) list \<Rightarrow> string list" where
  "diff_lines t sign changes =
     concat (map (\<lambda>s. (''['' @ tk_Tag t @ ''] '' @ sign @ '' '' @ s) #
         (if tk_PrintFullStack t
          then (case map_of (rev changes) s of Some stack \<Rightarrow> [TrimSpace stack] | None \<Rightarrow> []) else []))
       (sort (map fst changes)))"

definition full_dump :: "((string \<times> nat) list \<Rightarrow> (string \<times> nat) list) \<Rightarrow> tracker \<Rightarrow> (string \<times> nat) list \<Rightarrow> string list" where
  "full_dump ord t current =
     (let all_lines = sort (map (\<lambda>(key, n). key @ times_text @ show_nat n) (ord current)) in
      (''=== ['' @ tk_Tag t @ ''-ALL] Full Dump ('' @ show_nat (length all_lines) @ '' types) ==='') #
      map (\<lambda>s. ''['' @ tk_Tag t @ ''-ALL] '' @ s) all_lines)"

text \<open>\<open>PrintDiff\<close> with the dump: the part under the second lock.\<close>

definition PrintDiff_end ::
    "((string \<times> nat) list \<Rightarrow> (string \<times> nat) list) \<Rightarrow> nat \<Rightarrow> bool \<Rightarrow> string \<Rightarrow> tracker \<Rightarrow> string list \<times> tracker" where
  "PrintDiff_end ord numGoroutine shouldPrintAll stacks t =
     (let (current, currentStacks) = count_blocks stacks;
          t' = t\<lparr>tk_prev := current, tk_prevStacks := currentStacks\<rparr>
      in if length (tk_prev t) = 0
         then ([''['' @ tk_Tag t @ ''] Initial: '' @ show_nat (length current) @ '' goroutines''], t')
         else (let added = grown ord current (tk_prev t) currentStacks;
                   removed = grown ord (tk_prev t) current (tk_prevStacks t)
               in ((if added \<noteq> [] \<or> removed \<noteq> []
                    then diff_lines t ''+'' added @ diff_lines t ''-'' removed @
                         [''['' @ tk_Tag t @ ''] Total: '' @ show_nat numGoroutine]
                    else []) @
                   (if shouldPrintAll then full_dump ord t current else []), t')))"

definition PrintDiff ::
    "((string \<times> nat) list \<Rightarrow> (string \<times> nat) list) \<Rightarrow> nat \<Rightarrow> string \<Rightarrow> tracker \<Rightarrow> string list \<times> tracker" where
  "PrintDiff ord numGoroutine stacks t =
     (let (shouldPrintAll, t1) = PrintDiff_begin t in PrintDiff_end ord numGoroutine shouldPrintAll stacks t1)"

definition Reset :: "tracker \<Rightarrow> tracker" where
  "Reset t = t\<lparr>tk_prev := [], tk_prevStacks := [], tk_callCount := 0\<rparr>"

definition GetCount :: "nat \<Rightarrow> nat" where
  "GetCount numGoroutine = numGoroutine"

end
