(* ===== verification/TrackerProps.thy ===== *)
theory TrackerProps
  imports GoroutineTracker "HOL-Library.Multiset"
begin

text \<open>
  The tracker against its specification: it keeps the multiset of the keys of the last dump, and
  logs the two differences with that of the new one.
\<close>

section \<open>Counts as a multiset\<close>

definition dump_keys :: "string \<Rightarrow> string multiset" where
  "dump_keys stacks = mset (List.map_filter block_key (Split stacks (nl @ nl)))"

definition counts_of :: "string multiset \<Rightarrow> (string \<times> nat) list \<Rightarrow> bool" where
  "counts_of M al \<longleftrightarrow> distinct (map fst al) \<and> fst ` set al = set_mset M \<and> (\<forall>k. lookup al k = count M k)"

lemma counts_of_empty [simp]: "counts_of M [] \<longleftrightarrow> M = {#}"
  by (auto simp: counts_of_def lookup_def)

lemma counts_of_entry: "counts_of M al \<Longrightarrow> (k, n) \<in> set al \<Longrightarrow> n = count M k"
  by (auto simp: counts_of_def lookup_def dest!: map_of_is_SomeI split: option.splits)

lemma counts_of_update:
  "counts_of M al \<Longrightarrow> counts_of (add_mset k M) (AList.update k (lookup al k + 1) al)"
  by (auto simp: counts_of_def distinct_update dom_update lookup_def update_conv')

lemma count_blocks_counts: "counts_of (dump_keys stacks) (fst (count_blocks stacks))"
proof -
  have "counts_of (M + mset (List.map_filter block_key bs)) (fst (fold count_block bs st))"
    if "counts_of M (fst st)" for M bs st
    using that
  proof (induction bs arbitrary: M st)
    case (Cons b bs)
    show ?case
    proof (cases "block_key b")
      case None
      then have "count_block b st = st" by (simp add: count_block_def)
      with None Cons.IH [OF Cons.prems] show ?thesis by (simp add: map_filter_simps)
    next
      case (Some k)
      then have "counts_of (add_mset k M) (fst (count_block b st))"
        using counts_of_update [OF Cons.prems, of k] by (simp add: count_block_def)
      from Cons.IH [OF this] Some show ?thesis by (simp add: map_filter_simps)
    qed
  qed (simp add: map_filter_simps)
  from this [of "{#}" "([], [])" "Split stacks (nl @ nl)"] show ?thesis
    by (simp add: count_blocks_def dump_keys_def)
qed

section \<open>Differences\<close>

text \<open>The lines of a difference: each key that is in it once, with its multiplicity, sorted.\<close>

definition diff_text :: "tracker \<Rightarrow> string \<Rightarrow> string multiset \<Rightarrow> string list" where
  "diff_text t sign D =
     map (\<lambda>s. ''['' @ tk_Tag t @ ''] '' @ sign @ '' '' @ s)
       (sorted_list_of_multiset (image_mset (\<lambda>k. formatDiff k (count D k)) (mset_set (set_mset D))))"

lemma grown_mset:
  assumes "counts_of N new" "counts_of M old" "\<And>xs. mset (ord xs) = mset xs"
  shows "mset (map fst (grown ord new old stacks)) = image_mset (\<lambda>k. formatDiff k (count (N - M) k)) (mset_set (set_mset (N - M)))"
proof -
  let ?f = "filter (\<lambda>(key, n). n > lookup old key) (ord new)"
  have set: "set (ord new) = set new" by (rule mset_eq_setD) (rule assms(3))
  have old: "lookup old k = count M k" for k using assms(2) by (simp add: counts_of_def)
  have new: "n = count N k" if "(k, n) \<in> set new" for k n by (rule counts_of_entry [OF assms(1) that])
  have "mset (map fst (ord new)) = mset (map fst new)" by (simp add: assms(3))
  then have "distinct (map fst (ord new))"
    using assms(1) mset_eq_imp_distinct_iff unfolding counts_of_def by blast
  then have dist: "distinct (map fst ?f)" by (rule distinct_map_filter)
  have "set (map fst ?f) = set_mset (N - M)"
  proof (intro equalityI subsetI)
    fix k assume "k \<in> set (map fst ?f)"
    then obtain n where "(k, n) \<in> set new" "count M k < n" using set old by auto
    with new show "k \<in> set_mset (N - M)" by (auto simp: in_diff_count)
  next
    fix k assume "k \<in> set_mset (N - M)"
    then have lt: "count M k < count N k" by (simp add: in_diff_count)
    then have "k \<in> set_mset N" by (auto intro: count_inI)
    then have "k \<in> fst ` set new" using assms(1) by (simp add: counts_of_def)
    then obtain n where "(k, n) \<in> set new" by auto
    with new lt show "k \<in> set (map fst ?f)" using set old by (force simp: image_def)
  qed
  with dist have keys: "mset (map fst ?f) = mset_set (set_mset (N - M))"
    using mset_set_set [OF dist] by simp
  have "map fst (grown ord new old stacks) = map (\<lambda>k. formatDiff k (count (N - M) k)) (map fst ?f)"
    using set old new by (auto simp: grown_def)
  then show ?thesis using mset_map [of "\<lambda>k. formatDiff k (count (N - M) k)" "map fst ?f"] unfolding keys by (rule trans [OF arg_cong])
qed

lemma diff_lines_text:
  assumes "\<not> tk_PrintFullStack t" "mset (map fst changes) = image_mset (\<lambda>k. formatDiff k (count D k)) (mset_set (set_mset D))"
  shows "diff_lines t sign changes = diff_text t sign D"
  using assms by (simp add: diff_lines_def diff_text_def flip: sorted_list_of_multiset_mset)

lemma diff_lines_nonempty:
  assumes "mset (map fst changes) = image_mset f (mset_set (set_mset D))"
  shows "changes = [] \<longleftrightarrow> D = {#}"
proof -
  have "length changes = card (set_mset D)" using arg_cong [OF assms, of size] by simp
  then show ?thesis by (auto simp: card_gt_0_iff simp flip: length_0_conv)
qed

text \<open>
  C27. The tracker implements multiset difference: when it holds the counts of the previous dump,
  the next call logs, without full stacks and apart from the periodic full dump, one line for
  every key that became more frequent and then one for every key that became rarer, each with
  the change of its count and sorted, and a total; it logs nothing when the multiset of keys is
  the same; and it then holds the counts of the new dump, whatever the order of Go's maps.
\<close>

theorem PrintDiff_refines:
  assumes "counts_of M (tk_prev t)" "M \<noteq> {#}" "\<not> tk_PrintFullStack t" "tk_FullDumpInterval t \<le> 0"
    and "\<And>xs. mset (ord xs) = mset xs"
  shows "let N = dump_keys stacks; (log, t') = PrintDiff ord g stacks t in
     log = (if N = M then []
            else diff_text t ''+'' (N - M) @ diff_text t ''-'' (M - N) @
                 [''['' @ tk_Tag t @ ''] Total: '' @ show_nat g]) \<and>
     counts_of N (tk_prev t')"
proof -
  let ?N = "dump_keys stacks" and ?new = "fst (count_blocks stacks)" and ?t = "snd (PrintDiff_begin t)"
  let ?added = "grown ord ?new (tk_prev t) (snd (count_blocks stacks))"
  let ?removed = "grown ord (tk_prev t) ?new (tk_prevStacks t)"
  have t: "tk_prev ?t = tk_prev t" "tk_prevStacks ?t = tk_prevStacks t" "tk_Tag ?t = tk_Tag t"
    "tk_PrintFullStack ?t = tk_PrintFullStack t" "\<not> fst (PrintDiff_begin t)"
    using assms(4) by (simp_all add: PrintDiff_begin_def Let_def)
  note N = count_blocks_counts [of stacks]
  note added = grown_mset [OF N assms(1,5)] and removed = grown_mset [OF assms(1) N assms(5)]
  have "tk_prev t \<noteq> []" using assms(1,2) by auto
  moreover have "diff_lines ?t ''+'' ?added = diff_text t ''+'' (?N - M)" "diff_lines ?t ''-'' ?removed = diff_text t ''-'' (M - ?N)"
    using diff_lines_text [of ?t, OF _ added] diff_lines_text [of ?t, OF _ removed] assms(3) t by (simp_all add: diff_text_def)
  moreover have "?added \<noteq> [] \<or> ?removed \<noteq> [] \<longleftrightarrow> ?N \<noteq> M"
    using diff_lines_nonempty [OF added] diff_lines_nonempty [OF removed]
    by (metis Diff_eq_empty_iff_mset subset_mset.antisym subset_mset.order_refl)
  ultimately show ?thesis using N t
    by (auto simp: PrintDiff_def PrintDiff_end_def split_beta Let_def diff_text_def)
qed

text \<open>Two dumps: of two goroutines alike and one other, and of one of each kind.\<close>

definition demo_block :: "string \<Rightarrow> string" where
  "demo_block f = ''goroutine 7 [idle]:'' @ nl @ ''main.'' @ f @ ''(0x1)'' @ nl @ ''/src/a.go:9 +0x1''"

lemma demo_block_key: "block_key (demo_block ''f'') = Some ''main.f (a.go:9)@idle''"
  "block_key (demo_block ''g'') = Some ''main.g (a.go:9)@idle''"
  by code_simp+

definition demo_dump :: "string list \<Rightarrow> string" where
  "demo_dump fs = join (nl @ nl) (map demo_block fs)"

lemma demo_dump_keys:
  "dump_keys (demo_dump [''f'', ''g'']) = {#''main.f (a.go:9)@idle'', ''main.g (a.go:9)@idle''#}"
proof -
  have "Split (demo_dump [''f'', ''g'']) (nl @ nl) = [demo_block ''f'', demo_block ''g'']" by code_simp
  then show ?thesis by (simp add: dump_keys_def demo_block_key map_filter_simps)
qed

definition demo_tracker :: tracker where
  "demo_tracker = NewGoroutineTracker\<lparr>tk_prev := [(''main.f (a.go:9)@idle'', 2)], tk_FullDumpInterval := 0\<rparr>"

theorem PrintDiff_refines_witness:
  "fst (PrintDiff rev 2 (demo_dump [''f'', ''g'']) demo_tracker) =
     [''[GR-DIFF] + main.g (a.go:9)@idle'', ''[GR-DIFF] - main.f (a.go:9)@idle'', ''[GR-DIFF] Total: 2'']"
proof -
  let ?M = "replicate_mset 2 ''main.f (a.go:9)@idle''"
  have "counts_of ?M (tk_prev demo_tracker)" "?M \<noteq> {#}" "\<not> tk_PrintFullStack demo_tracker"
    "tk_FullDumpInterval demo_tracker \<le> 0"
    by (auto simp: demo_tracker_def NewGoroutineTracker_def counts_of_def lookup_def)
  moreover have "show_nat (Suc (Suc 0)) = ''2''" by code_simp
  moreover note PrintDiff_refines [of ?M demo_tracker rev "demo_dump [''f'', ''g'']" 2]
  ultimately show ?thesis
    by (simp add: Let_def split_beta demo_dump_keys diff_text_def formatDiff_def demo_tracker_def NewGoroutineTracker_def numeral_2_eq_2)
qed

text \<open>
  A reset makes the next call a first one: it counts the goroutines, logs nothing but how
  many keys there are (whatever was tracked before), and is the first call of the dump period.
\<close>

theorem Reset_restarts:
  "fst (PrintDiff ord g stacks (Reset t)) =
     [''['' @ tk_Tag t @ ''] Initial: '' @ show_nat (card (set_mset (dump_keys stacks))) @ '' goroutines''] \<and>
   counts_of (dump_keys stacks) (tk_prev (snd (PrintDiff ord g stacks (Reset t)))) \<and>
   tk_callCount (snd (PrintDiff ord g stacks (Reset t))) = 1"
proof -
  have "distinct (map fst (fst (count_blocks stacks)))" "fst ` set (fst (count_blocks stacks)) = set_mset (dump_keys stacks)"
    using count_blocks_counts [of stacks] by (simp_all add: counts_of_def)
  then have "length (fst (count_blocks stacks)) = card (set_mset (dump_keys stacks))"
    using distinct_card [of "map fst (fst (count_blocks stacks))"] by simp
  then show ?thesis using count_blocks_counts [of stacks]
    by (simp add: PrintDiff_def PrintDiff_begin_def PrintDiff_end_def Reset_def split_beta Let_def)
qed

end
