(* ===== verification/Spec2Isabelle.thy ===== *)
theory Spec2Isabelle
  imports StreamProps RequestProps PluginServerProps PluginHostProps PluginPlatforms CacheOpen FfiProps
    FfiStreamProps PluginConnProps DartStreamProps ServerLife ExampleServerProps CodegenProps TrackerProps
begin

text \<open>
  A model of synurang, a library that carries gRPC services between Flutter (Dart) and Go, and
  between Go programs and plugins, over foreign function calls. The theories follow the Go
  sources file by file; a definition has the name of the Go function it translates.

  \<^bold>\<open>The program.\<close> Dart calls the exported C functions of the server library
  (\<open>cmd/server/main.go\<close>; \<open>example/cmd/server/main.go\<close> for the example). A unary call goes to a
  generated dispatcher; a streaming call makes a session (\<open>pkg/service/stream_handler.go\<close>),
  whose handler runs in a goroutine and calls back into Dart. A call from Go to Dart hands a
  request to the callback and waits in the request handler (\<open>pkg/service/ffi_utils.go\<close>), or
  opens a session of its own (\<open>pkg/service/server.go\<close>). The core service also has a cache
  (\<open>cache.go\<close>). In \<open>pkg/synurang\<close>, a plugin is a shared library with exported stream and call
  functions (\<open>pkg/plugin/server.go\<close> is its side, \<open>plugin.go\<close> that of the host,
  \<open>plugin_unix.go\<close> and \<open>plugin_windows.go\<close> the boundary, \<open>plugin_conn.go\<close> a gRPC connection over
  it), and \<open>synurang.go\<close> is a connection within one process. The code generator
  (\<open>cmd/protoc-gen-synurang-ffi\<close>) writes the dispatchers.

  \<^bold>\<open>Conventions.\<close> A Go channel is a record of its buffer, capacity and closed flag
  (\<open>Channels\<close>, with Go's panics as values of type \<open>outcome\<close>, in \<open>Prelude\<close>); a channel that is
  only closed is a flag. A select is the list of its ready branches, so that a function that
  may block or choose returns a list of results, the empty list for blocking. A mutex region
  is one definition; where the code releases a lock and goes on, there are several
  definitions, and an inductive step relation interleaves them. Pointers to structures that are
  shared are addresses of an explicit heap. Machine integers are words or wrapped explicitly
  where they can overflow. A C string or buffer that may be null is an option; the memory of a
  string ends at its first NUL, and a length or code that crosses the boundary is a C \<open>int\<close> of
  32 bits, so that a copy of it into a Go slice may be cut or panic (\<open>CBoundary\<close>).

  \<^bold>\<open>The theories.\<close>
  \<^item> \<open>Prelude\<close>, \<open>Channels\<close>, \<open>Handles\<close>, \<open>GoStrings\<close>: shared types, select, byte strings;
    channels and the locale \<open>fifo_channel\<close>; the locale \<open>handle_table\<close>, the contract of the three
    handle registries (interpreted for sessions, requests and plugin streams); the functions of
    Go's \<open>strings\<close> package.
  \<^item> \<open>CBoundary\<close>: 32-bit lengths, \<open>C.GoBytes\<close> with its panic, \<open>C.CString\<close> and \<open>C.GoString\<close>; what
    of a copy is exact, and what is not.
  \<^item> \<open>StreamSession\<close>, \<open>StreamSteps\<close>, \<open>StreamProps\<close>: \<open>stream_handler.go\<close>. Sessions, registry,
    callbacks, handlers; their interleaving, with the header and trailer maps that are shared
    after the unlock; order of the data, the one reachable panic (a send
    that races with a close), finality of the end, distinct handles.
  \<^item> \<open>Requests\<close>, \<open>RequestProps\<close>: \<open>ffi_utils.go\<close>. The table of pending requests; a response never
    blocks its sender, and reaches at most one waiter, its own.
  \<^item> \<open>PluginServer\<close>, \<open>PluginSteps\<close>, \<open>PluginServerProps\<close>: \<open>pkg/plugin/server.go\<close>. Streams on the
    plugin's side; order and completeness of the data, closes that never panic.
  \<^item> \<open>PluginHost\<close>, \<open>PluginHostSteps\<close>, \<open>PluginLink\<close>, \<open>PluginHostProps\<close>, \<open>PluginPlatforms\<close>:
    \<open>plugin.go\<close>, \<open>plugin_unix.go\<close>, \<open>plugin_windows.go\<close>. No use of an unloaded library, every
    stream closed once, receiving as a refinement of the plugin's side for frames of any length,
    where the two platforms agree and where they do not, whatever a system call leaves in the
    upper half of its result.
  \<^item> \<open>PluginConn\<close>, \<open>PluginConnProps\<close>: \<open>plugin_conn.go\<close>. Transparency of unary calls, and when a
    stream closes.
  \<^item> \<open>FfiStream\<close>, \<open>FfiStreamProps\<close>: \<open>synurang.go\<close>. Order, the three ways a stream ends (a handler
    may return \<open>io.EOF\<close> as its error), draining, absence of panics, and errors that overtake data.
  \<^item> \<open>Cache\<close>, \<open>CacheProps\<close>, \<open>CacheWorkers\<close>, \<open>CacheOpen\<close>: \<open>cache.go\<close>. The table as rows with the
    meaning of each statement (the locale \<open>partitioned_store\<close>), refinement of a map with expiry,
    eviction, the background loops and the timer, the handles of the database.
  \<^item> \<open>CoreService\<close>, \<open>CoreProps\<close>, \<open>DartStreams\<close>, \<open>DartStreamProps\<close>: \<open>server.go\<close>, \<open>config.go\<close>.
    Authentication, calls into Dart, and the exact result of the bidirectional call with
    its reader and timeout.
  \<^item> \<open>FfiEntry\<close>, \<open>FfiProps\<close>, \<open>ServerLife\<close>: \<open>cmd/server/main.go\<close>. The exported functions, the
    metadata format, and the life of a server (the locale \<open>server_life\<close>) with its serving
    goroutines.
  \<^item> \<open>SessionLoop\<close>, \<open>ExampleGreeter\<close>, \<open>ExampleHandlers\<close>, \<open>ExampleProps\<close>, \<open>ExampleServer\<close>,
    \<open>ExampleServerProps\<close>: the example's services (\<open>greeter.go\<close>, \<open>file_service.go\<close>,
    \<open>stream_impl.go\<close>) and server. The loop its handlers share, agreement of the FFI handlers with
    the gRPC methods (but for the timestamp of a response, which only gRPC sets), chunking of downloads, an upload from end to end.
  \<^item> \<open>Codegen\<close>, \<open>CodegenProps\<close>: the code generator. The template data, with the kinds and names
    of the methods, and the outputs of a run, failures of templates included.
  \<^item> \<open>GoroutineTracker\<close>, \<open>TrackerProps\<close>: \<open>pkg/debug/goroutine_tracker.go\<close>. Its log as the
    differences of multisets.

  \<^bold>\<open>Fuel.\<close> Loops that end are total functions. Fuel is used where a loop may wait for
  ever: \<open>collect_runs\<close>, \<open>session_loop\<close>, \<open>RecvMsg_loop\<close> and \<open>recv_file\<close> take at most the given
  number of turns and return no result when it is used up; the theorems about them ask for more
  turns than there are chunks, or hold for any number. \<open>evict_bytes_loop\<close> gets one turn more than
  there are rows, each turn deletes a row or stops, and \<open>evictOverCapacity_limits\<close> shows that this
  is enough.

  \<^bold>\<open>Parameters.\<close> The protobuf codec, the generated dispatchers, gRPC, SQLite's faults, the
  order of rows of equal age and of Go's maps, the loader of the operating system, SHA-256, the
  random source, the dump of the runtime, and what Dart does while Go waits are arguments of
  the definitions that use them. Hypotheses about them state documented behaviour: an order is a
  permutation, a random source fills its buffer, a C \<open>int\<close> has 32 bits.

  \<^bold>\<open>Not modelled.\<close> C memory (\<open>malloc\<close>, \<open>free\<close> and the lifetime of buffers), except where a null
  pointer or an uncleared field can be told from the values; logging, sleeping, and the clock (a time is an argument);
  generated code (\<open>*.pb.go\<close>) but for the stream helpers of a generated plugin; templates; the
  command line client, which only dials and prints; \<open>health.go\<close> (the time and a constant);
  the release variant of the tracker, which does nothing; the test programs; the Dart, C++ and
  Rust sides.
\<close>

end
